(* ===== verification/Py_Prelude.thy ===== *)
theory Py_Prelude
  imports Complex_Main "HOL-Library.Sublist" "HOL-Library.Word"
begin

text \<open>
  The Python builtins that \<open>src/search_data.py\<close> applies to strings and lists,
  as executable HOL functions, with the lemmas the component theories share.
  Strings are \<open>char list\<close>: Isabelle's \<open>char\<close> covers the code points 0 to 255
  (Latin-1), and on them the predicates below agree with CPython's tables.
\<close>

named_theorems py_str "structure lemmas of the Python string builtins"
named_theorems run_eval "equations that evaluate the model on concrete inputs"

type_synonym url = string
type_synonym bytes = "8 word list"

subsection \<open>Exceptions\<close>

text \<open>The exceptions the program raises or catches, by Python class.\<close>

datatype py_exc =
    ValueError string
  | IndexError
  | RequestException
  | ImportError string
  | OtherException string

subsection \<open>Characters\<close>

text \<open>
  \<open>str.isspace\<close> on one character, which is also the class \<open>\s\<close> of a
  \<open>str\<close> regular expression and the set that \<open>str.strip()\<close> and
  \<open>str.split()\<close> remove: on Latin-1 the characters 9--13, 28--32, 133 and 160.
\<close>

definition py_isspace :: "char \<Rightarrow> bool" where
  "py_isspace c =
     (let n = (of_char c :: nat)
      in (9 \<le> n \<and> n \<le> 13) \<or> (28 \<le> n \<and> n \<le> 32) \<or> n = 133 \<or> n = 160)"

text \<open>\<open>str.lower\<close>: A--Z and the Latin-1 capitals 192--222 but 215 move up by 32.\<close>

definition py_lower_char :: "char \<Rightarrow> char" where
  "py_lower_char c =
     (let n = (of_char c :: nat)
      in if (65 \<le> n \<and> n \<le> 90) \<or> (192 \<le> n \<and> n \<le> 222 \<and> n \<noteq> 215)
         then char_of (n + 32) else c)"

definition py_lower :: "string \<Rightarrow> string" where
  "py_lower s = map py_lower_char s"

subsection \<open>Strings\<close>

text \<open>\<open>s.strip()\<close>, as CPython's \<open>do_strip\<close>: drop whitespace on the left, then on the right.\<close>

definition py_strip :: "string \<Rightarrow> string" where
  "py_strip s = rev (dropWhile py_isspace (rev (dropWhile py_isspace s)))"

text \<open>\<open>sep.join(ws)\<close>.\<close>

fun py_join :: "string \<Rightarrow> string list \<Rightarrow> string" where
  "py_join sep [] = []"
| "py_join sep [w] = w"
| "py_join sep (w # v # ws) = w @ sep @ py_join sep (v # ws)"

text \<open>
  \<open>s.split()\<close> with no separator, as CPython's \<open>split_whitespace\<close> loop: skip
  whitespace, take the run of non-whitespace as the next word, repeat.
\<close>

lemma length_dropWhile_run_less:
  assumes "dropWhile P s \<noteq> []"
  shows "length (dropWhile (\<lambda>c. \<not> P c) (dropWhile P s)) < length s"
proof -
  from assms obtain c cs where d: "dropWhile P s = c # cs" and "\<not> P c"
    using hd_dropWhile [OF assms] by (cases "dropWhile P s") auto
  then have "length (dropWhile (\<lambda>c. \<not> P c) (dropWhile P s)) < length (dropWhile P s)"
    by (simp add: le_imp_less_Suc length_dropWhile_le)
  also have "\<dots> \<le> length s"
    by (rule length_dropWhile_le)
  finally show ?thesis .
qed

function py_split :: "string \<Rightarrow> string list" where
  "py_split s =
     (let s' = dropWhile py_isspace s
      in if s' = [] then []
         else takeWhile (\<lambda>c. \<not> py_isspace c) s'
              # py_split (dropWhile (\<lambda>c. \<not> py_isspace c) s'))"
  by pat_completeness auto
termination
  by (relation "measure length") (auto simp: length_dropWhile_run_less)

declare py_split.simps [simp del]

text \<open>\<open>s.split(d)\<close> with a one-character separator: every occurrence cuts, empty fields stay.\<close>

fun py_split_on :: "char \<Rightarrow> string \<Rightarrow> string list" where
  "py_split_on d [] = [[]]"
| "py_split_on d (c # cs) =
     (let ws = py_split_on d cs
      in if c = d then [] # ws else (c # hd ws) # tl ws)"

text \<open>\<open>p in s\<close> for strings (substring test) and \<open>s.endswith(p)\<close>.\<close>

fun py_startswith :: "string \<Rightarrow> string \<Rightarrow> bool" where
  "py_startswith s [] = True"
| "py_startswith [] (p # ps) = False"
| "py_startswith (c # cs) (p # ps) = (c = p \<and> py_startswith cs ps)"

fun py_contains :: "string \<Rightarrow> string \<Rightarrow> bool" where
  "py_contains [] p = (p = [])"
| "py_contains (c # cs) p = (py_startswith (c # cs) p \<or> py_contains cs p)"

definition py_endswith :: "string \<Rightarrow> string \<Rightarrow> bool" where
  "py_endswith s p = py_startswith (rev s) (rev p)"

subsection \<open>Lists\<close>

text \<open>\<open>xs.index(x)\<close> and \<open>xs[i]\<close> for \<open>0 \<le> i\<close>, with their exceptions.\<close>

fun py_index :: "'a list \<Rightarrow> 'a \<Rightarrow> py_exc + nat" where
  "py_index [] x = Inl (ValueError ''is not in list'')"
| "py_index (y # ys) x = (if y = x then Inr 0 else map_sum id Suc (py_index ys x))"

definition py_get :: "'a list \<Rightarrow> nat \<Rightarrow> py_exc + 'a" where
  "py_get xs i = (if i < length xs then Inr (xs ! i) else Inl IndexError)"

declare py_isspace_def [run_eval] py_lower_def [run_eval] py_lower_char_def [run_eval]
  char_of_eq_iff [run_eval] py_strip_def [run_eval] py_endswith_def [run_eval] py_get_def [run_eval]
  Let_def [run_eval]

subsection \<open>Shared lemmas\<close>

text \<open>Words of \<open>str.split()\<close> and strings with no whitespace at either end.\<close>

definition py_word :: "string \<Rightarrow> bool" where
  "py_word w = (w \<noteq> [] \<and> list_all (\<lambda>c. \<not> py_isspace c) w)"

definition py_stripped :: "string \<Rightarrow> bool" where
  "py_stripped s = (s = [] \<or> \<not> py_isspace (hd s) \<and> \<not> py_isspace (last s))"

lemma py_stripped_Nil [simp]: "py_stripped []"
  by (simp add: py_stripped_def)

lemma py_isspace_space [simp]: "py_isspace (CHR '' '')"
  and py_isspace_newline [simp]: "py_isspace (CHR ''\<newline>'')"
  by (simp_all add: py_isspace_def)

lemma all_set_dropWhile [simp]:
  "(\<forall>x \<in> set (dropWhile P xs). P x) \<longleftrightarrow> (\<forall>x \<in> set xs. P x)"
  by (induction xs) auto

lemma py_strip_Nil [simp]: "py_strip [] = []"
  by (simp add: py_strip_def)

lemma py_strip_eq_Nil_iff [py_str]: "py_strip s = [] \<longleftrightarrow> (\<forall>c \<in> set s. py_isspace c)"
  by (simp add: py_strip_def dropWhile_eq_Nil_conv)

lemma py_strip_frame [py_str]:
  assumes "\<forall>c \<in> set a. py_isspace c" and "\<forall>c \<in> set b. py_isspace c" and "py_stripped m"
  shows "py_strip (a @ m @ b) = m"
proof (cases "m = []")
  case True
  with assms show ?thesis
    by (simp add: py_strip_def dropWhile_append dropWhile_eq_Nil_conv)
next
  case False
  with assms(3) obtain c cs where m: "m = c # cs" "\<not> py_isspace c" "\<not> py_isspace (last m)"
    by (cases m) (auto simp: py_stripped_def)
  have "rev m = last m # rev (butlast m)"
    using False by (metis append_butlast_last_id rev.simps(2) rev_rev_ident)
  with m(3) have "dropWhile py_isspace (rev m) = rev m"
    by (metis dropWhile.simps(2))
  with assms(1,2) m show ?thesis
    by (simp add: py_strip_def dropWhile_append rev_append)
qed

lemma py_strip_stripped [py_str]: "py_stripped s \<Longrightarrow> py_strip s = s"
  using py_strip_frame [of "[]" "[]" s] by simp

lemma py_stripped_strip [py_str]: "py_stripped (py_strip s)"
proof -
  define l where "l = dropWhile py_isspace s"
  define r where "r = dropWhile py_isspace (rev l)"
  have strip: "py_strip s = rev r"
    by (simp add: py_strip_def l_def r_def)
  show ?thesis
  proof (cases "r = []")
    case True
    then show ?thesis by (simp add: strip py_stripped_def)
  next
    case False
    then have r_hd: "\<not> py_isspace (hd r)"
      unfolding r_def by (rule hd_dropWhile)
    have "rev l = takeWhile py_isspace (rev l) @ r"
      by (simp add: r_def)
    with False have "last r = last (rev l)"
      by (metis last_appendR)
    moreover from False have "l \<noteq> []"
      by (auto simp: r_def)
    ultimately have "last r = hd l"
      by (simp add: last_rev)
    moreover from \<open>l \<noteq> []\<close> have "\<not> py_isspace (hd l)"
      unfolding l_def by (rule hd_dropWhile)
    ultimately show ?thesis
      using False r_hd by (simp add: strip py_stripped_def hd_rev last_rev)
  qed
qed

text \<open>The loop of \<open>str.split()\<close>, one round at a time.\<close>

lemma py_split_unfold:
  "py_split s =
     (if dropWhile py_isspace s = [] then []
      else takeWhile (\<lambda>c. \<not> py_isspace c) (dropWhile py_isspace s)
           # py_split (dropWhile (\<lambda>c. \<not> py_isspace c) (dropWhile py_isspace s)))"
  by (subst py_split.simps) (simp add: Let_def)

lemma py_split_Nil [simp]: "py_split [] = []"
  by (simp add: py_split_unfold [of "[]"])

lemma py_split_spaces_append [py_str]:
  assumes "\<forall>c \<in> set a. py_isspace c"
  shows "py_split (a @ r) = py_split r"
  using assms by (simp add: py_split_unfold [of "a @ r"] py_split_unfold [of r])

lemma py_split_word_append [py_str]:
  assumes "py_word w" and "r = [] \<or> py_isspace (hd r)"
  shows "py_split (w @ r) = w # py_split r"
proof -
  from assms(1) obtain c cs where w: "w = c # cs" "\<not> py_isspace c"
    "\<forall>x \<in> set w. \<not> py_isspace x"
    by (cases w) (auto simp: py_word_def list_all_iff)
  from assms(2) have t: "takeWhile (\<lambda>c. \<not> py_isspace c) r = []"
    and d: "dropWhile (\<lambda>c. \<not> py_isspace c) r = r"
    by (cases r; simp)+
  note u = py_split_unfold [of "w @ r"]
  from u w t d show ?thesis
    by simp
qed

lemma py_split_first_word:
  assumes "dropWhile py_isspace s \<noteq> []"
  shows "py_word (takeWhile (\<lambda>c. \<not> py_isspace c) (dropWhile py_isspace s))"
proof -
  from assms obtain c cs where "dropWhile py_isspace s = c # cs" "\<not> py_isspace c"
    using hd_dropWhile [OF assms] by (cases "dropWhile py_isspace s") auto
  then show ?thesis
    by (auto simp: py_word_def list_all_iff dest: set_takeWhileD)
qed

lemma py_split_words [py_str]: "w \<in> set (py_split s) \<Longrightarrow> py_word w"
proof (induction s rule: py_split.induct)
  case (1 s)
  let ?s' = "dropWhile py_isspace s"
  show ?case
  proof (cases "?s' = []")
    case True
    with "1.prems" show ?thesis by (simp add: py_split_unfold [of s])
  next
    case False
    let ?w = "takeWhile (\<lambda>c. \<not> py_isspace c) ?s'"
    let ?r = "dropWhile (\<lambda>c. \<not> py_isspace c) ?s'"
    have "py_split s = ?w # py_split ?r"
      using False by (simp add: py_split_unfold [of s])
    with "1.prems" have "w = ?w \<or> w \<in> set (py_split ?r)"
      by simp
    then show ?thesis
      using py_split_first_word [OF False] "1.IH" [OF refl False] by blast
  qed
qed

lemma py_split_eq_Nil_iff [py_str]: "py_split s = [] \<longleftrightarrow> (\<forall>c \<in> set s. py_isspace c)"
  by (simp add: py_split_unfold [of s] dropWhile_eq_Nil_conv)

lemma filter_not_takeWhile [simp]: "filter (\<lambda>x. \<not> P x) (takeWhile P xs) = []"
  by (auto simp: filter_empty_conv dest: set_takeWhileD)

lemma filter_takeWhile_not [simp]: "filter (\<lambda>x. \<not> P x) (takeWhile (\<lambda>x. \<not> P x) xs) = takeWhile (\<lambda>x. \<not> P x) xs"
  by (auto simp: filter_id_conv dest: set_takeWhileD)

lemma filter_split_takeWhile:
  "filter Q xs = filter Q (takeWhile P xs) @ filter Q (dropWhile P xs)"
  by (metis filter_append takeWhile_dropWhile_id)

lemma concat_py_split: "concat (py_split s) = filter (\<lambda>c. \<not> py_isspace c) s"
proof (induction s rule: py_split.induct)
  case (1 s)
  let ?s' = "dropWhile py_isspace s"
  have f: "filter (\<lambda>c. \<not> py_isspace c) s = filter (\<lambda>c. \<not> py_isspace c) ?s'"
    using filter_split_takeWhile [of "\<lambda>c. \<not> py_isspace c" s py_isspace] by simp
  show ?case
  proof (cases "?s' = []")
    case True
    with f show ?thesis by (simp add: py_split_unfold [of s])
  next
    case False
    let ?w = "takeWhile (\<lambda>c. \<not> py_isspace c) ?s'"
    let ?r = "dropWhile (\<lambda>c. \<not> py_isspace c) ?s'"
    have "filter (\<lambda>c. \<not> py_isspace c) ?s' = ?w @ filter (\<lambda>c. \<not> py_isspace c) ?r"
      using filter_split_takeWhile [of "\<lambda>c. \<not> py_isspace c" ?s' "\<lambda>c. \<not> py_isspace c"]
      by simp
    moreover have "py_split s = ?w # py_split ?r"
      using False by (simp add: py_split_unfold [of s])
    ultimately show ?thesis
      using f "1.IH" [OF refl False] by simp
  qed
qed

lemma py_split_Cons_word [py_str]:
  assumes "\<not> py_isspace c" and "cs \<noteq> []" and "\<not> py_isspace (hd cs)"
  shows "py_split (c # cs) = (c # hd (py_split cs)) # tl (py_split cs)"
proof -
  have d: "dropWhile py_isspace cs = cs"
    using assms(2,3) by (cases cs) auto
  have "py_split cs = takeWhile (\<lambda>c. \<not> py_isspace c) cs # py_split (dropWhile (\<lambda>c. \<not> py_isspace c) cs)"
    using assms(2) d by (simp add: py_split_unfold [of cs])
  moreover have "py_split (c # cs) = (c # takeWhile (\<lambda>c. \<not> py_isspace c) cs) # py_split (dropWhile (\<lambda>c. \<not> py_isspace c) cs)"
    using assms(1) by (simp add: py_split_unfold [of "c # cs"])
  ultimately show ?thesis by simp
qed

text \<open>Splitting distributes over a concatenation cut at whitespace.\<close>

lemma py_split_append [py_str]:
  assumes "xs = [] \<or> ys = [] \<or> py_isspace (last xs) \<or> py_isspace (hd ys)"
  shows "py_split (xs @ ys) = py_split xs @ py_split ys"
  using assms
proof (induction xs rule: py_split.induct)
  case (1 xs)
  let ?a = "takeWhile py_isspace xs"
  let ?s' = "dropWhile py_isspace xs"
  have a: "\<forall>c \<in> set ?a. py_isspace c" by (auto dest: set_takeWhileD)
  have xs: "xs = ?a @ ?s'" by simp
  have xs_ys: "py_split (xs @ ys) = py_split (?s' @ ys)"
    using py_split_spaces_append [OF a, of "?s' @ ys"] xs by (metis append.assoc)
  show ?case
  proof (cases "?s' = []")
    case True
    have "py_split xs = []" using True by (simp add: py_split_unfold [of xs])
    moreover have "py_split (xs @ ys) = py_split ys" using xs_ys True by (metis append_Nil)
    ultimately show ?thesis by simp
  next
    case False
    define w where "w = takeWhile (\<lambda>c. \<not> py_isspace c) ?s'"
    define r where "r = dropWhile (\<lambda>c. \<not> py_isspace c) ?s'"
    have s': "?s' = w @ r" by (simp add: w_def r_def)
    have w: "py_word w" unfolding w_def by (rule py_split_first_word [OF False])
    then have w_ne: "w \<noteq> []" and w_last: "\<not> py_isspace (last w)"
      by (auto simp: py_word_def list_all_iff)
    have r: "r = [] \<or> py_isspace (hd r)"
      unfolding r_def using hd_dropWhile [of "\<lambda>c. \<not> py_isspace c" ?s'] by auto
    have split_xs: "py_split xs = w # py_split r"
      using False by (simp add: py_split_unfold [of xs] w_def r_def)
    have last_xs: "last xs = last (w @ r)"
      using xs s' w_ne by (metis Nil_is_append_conv last_appendR)
    have xs_ne: "xs \<noteq> []"
      using xs s' w_ne by auto
    show ?thesis
    proof (cases "r = []")
      case True
      with "1.prems" last_xs w_last xs_ne have "ys = [] \<or> py_isspace (hd ys)"
        by auto
      then have "py_split (w @ ys) = w # py_split ys"
        by (rule py_split_word_append [OF w])
      with True xs_ys s' split_xs show ?thesis by simp
    next
      case False
      with "1.prems" last_xs xs_ne have "r = [] \<or> ys = [] \<or> py_isspace (last r) \<or> py_isspace (hd ys)"
        by auto
      then have "py_split (r @ ys) = py_split r @ py_split ys"
        using "1.IH" [OF refl \<open>?s' \<noteq> []\<close>] unfolding r_def by blast
      moreover have "py_split (w @ (r @ ys)) = w # py_split (r @ ys)"
        using r False by (intro py_split_word_append [OF w]) simp
      ultimately show ?thesis using xs_ys s' split_xs by simp
    qed
  qed
qed

text \<open>Round trip: joining words with whitespace and splitting gives the words back.\<close>

lemma py_join_Cons_Cons [simp]: "py_join sep ((c # w) # ws) = c # py_join sep (w # ws)"
  by (cases ws) simp_all

lemma py_split_join [py_str]:
  assumes "\<forall>w \<in> set ws. py_word w" and "sep \<noteq> []" and "\<forall>c \<in> set sep. py_isspace c"
  shows "py_split (py_join sep ws) = ws"
  using assms(1)
proof (induction ws rule: induct_list012)
  case 1
  then show ?case by simp
next
  case (2 w)
  then show ?case using py_split_word_append [of w "[]"] by simp
next
  case (3 w v ws)
  have "py_isspace (hd (sep @ py_join sep (v # ws)))"
    using assms(2,3) by (cases sep) auto
  with "3.prems" have "py_split (w @ sep @ py_join sep (v # ws)) = w # py_split (sep @ py_join sep (v # ws))"
    by (intro py_split_word_append) simp_all
  also have "\<dots> = w # py_split (py_join sep (v # ws))"
    using assms(3) by (simp add: py_split_spaces_append)
  finally show ?case using "3.IH" "3.prems" by simp
qed

lemma py_join_words_stripped [py_str]:
  "\<forall>w \<in> set ws. py_word w \<Longrightarrow> py_stripped (py_join sep ws)"
proof (induction sep ws rule: py_join.induct)
  case (3 sep w v ws)
  then obtain c cs where "w = c # cs" "\<not> py_isspace c"
    by (cases w) (auto simp: py_word_def list_all_iff)
  moreover from "3.prems" have "py_join sep (v # ws) \<noteq> []"
    by (cases ws) (auto simp: py_word_def)
  ultimately show ?case using "3.IH" "3.prems"
    by (auto simp: py_stripped_def)
qed (auto simp: py_stripped_def py_word_def list_all_iff)

lemma py_split_join_sep [py_str]:
  assumes "sep \<noteq> []" and "\<forall>c \<in> set sep. py_isspace c"
  shows "py_split (py_join sep xs) = concat (map py_split xs)"
proof (induction xs rule: induct_list012)
  case (3 x y zs)
  have "py_isspace (hd (sep @ py_join sep (y # zs)))"
    using assms by (cases sep) auto
  then have "py_split (x @ sep @ py_join sep (y # zs)) = py_split x @ py_split (sep @ py_join sep (y # zs))"
    by (intro py_split_append) simp
  with "3.IH" assms(2) show ?case
    by (simp add: py_split_spaces_append)
qed simp_all

lemma py_join_stripped [py_str]:
  assumes "\<forall>t \<in> set ts. t \<noteq> [] \<and> py_stripped t"
  shows "py_stripped (py_join sep ts)"
  using assms
proof (induction ts rule: induct_list012)
  case (3 x y zs)
  moreover have "py_join sep (y # zs) \<noteq> []"
    using 3 by (cases zs) auto
  ultimately show ?case
    by (auto simp: py_stripped_def)
qed simp_all

text \<open>\<open>str.split(d)\<close> and \<open>d.join\<close> are inverse.\<close>

lemma py_split_on_ne [simp]: "py_split_on d s \<noteq> []"
  by (induction s) (simp_all add: Let_def)

lemma py_join_split_on [py_str]: "py_join [d] (py_split_on d s) = s"
proof (induction s)
  case Nil
  then show ?case by simp
next
  case (Cons c cs)
  obtain w ws where ws: "py_split_on d cs = w # ws"
    using py_split_on_ne [of d cs] by (cases "py_split_on d cs") auto
  with Cons show ?case by (simp add: Let_def)
qed

lemma length_py_split_on: "length (py_split_on d s) = Suc (count_list s d)"
proof (induction s)
  case (Cons c cs)
  then show ?case
    using py_split_on_ne [of d cs] by (auto simp: Let_def neq_Nil_conv)
qed simp

text \<open>\<open>in\<close> and \<open>endswith\<close> are the substring and suffix orders of \<open>Sublist\<close>.\<close>

lemma py_startswith_prefix: "py_startswith s p \<longleftrightarrow> prefix p s"
  by (induction s p rule: py_startswith.induct) auto

lemma py_contains_sublist: "py_contains s p \<longleftrightarrow> sublist p s"
  by (induction s) (auto simp: py_startswith_prefix sublist_Cons_right)

lemma py_endswith_suffix: "py_endswith s p \<longleftrightarrow> suffix p s"
  by (simp add: py_endswith_def py_startswith_prefix suffix_to_prefix)

lemma py_lower_char_idem [simp]: "py_lower_char (py_lower_char c) = py_lower_char c"
  by (auto simp: py_lower_char_def Let_def)

lemma py_lower_idem [simp]: "py_lower (py_lower s) = py_lower s"
  by (simp add: py_lower_def)

text \<open>\<open>list.index\<close> and indexing.\<close>

lemma py_index_Inr: "py_index xs x = Inr i \<Longrightarrow> i < length xs \<and> xs ! i = x"
  by (induction xs arbitrary: i) (auto split: if_splits simp: map_sum_def split: sum.splits)

lemma py_index_member: "x \<in> set xs \<Longrightarrow> \<exists>i. py_index xs x = Inr i"
  by (induction xs) (auto simp: map_sum_def split: sum.splits)

lemma py_get_less [simp]: "i < length xs \<Longrightarrow> py_get xs i = Inr (xs ! i)"
  by (simp add: py_get_def)

subsection \<open>Deterministic step relations\<close>

text \<open>
  A deterministic step relation reaches at most one final configuration: the
  fact that makes a small-step model and a function computing its result agree.
\<close>

lemma rtranclp_det_final:
  assumes det: "\<And>x y z. r x y \<Longrightarrow> r x z \<Longrightarrow> y = z"
    and ab: "r\<^sup>*\<^sup>* a b" and ac: "r\<^sup>*\<^sup>* a c"
    and fb: "\<And>d. \<not> r b d" and fc: "\<And>d. \<not> r c d"
  shows "b = c"
  using ab ac fc
proof (induction arbitrary: c rule: converse_rtranclp_induct)
  case base
  then show ?case using fb by (cases rule: converse_rtranclpE) auto
next
  case (step a a')
  from step.prems(1) show ?case
  proof (cases rule: converse_rtranclpE)
    case base
    with step.hyps(1) step.prems(2) show ?thesis by blast
  next
    case (step a'')
    with det [OF step.hyps(1)] step.IH step.prems(2) show ?thesis by blast
  qed
qed

end
