(* ===== verification/Py_Regex.thy ===== *)
theory Py_Regex
  imports Py_Prelude
begin

text \<open>
  The fragment of Python's \<open>re\<close> the program uses in a search (line 188):
  characters, alternation, concatenation, the optional \<open>?\<close> and the anchor
  \<open>$\<close>. \<open>rmatch r t\<close> is a backtracking matcher: the remainders of \<open>t\<close>
  after each way \<open>r\<close> matches a prefix of it, in the order \<open>re\<close> tries them.
  \<open>re.search\<close> tries every start position. \<open>$\<close> matches at the end of the
  string and right before a newline that ends it. The matcher is proved against
  the language \<open>rlang\<close> of an anchor-free expression.
\<close>

datatype rx = REps | RChr char | RAlt rx rx | RSeq rx rx | ROpt rx | REnd

fun rmatch :: "rx \<Rightarrow> string \<Rightarrow> string list" where
  "rmatch REps t = [t]"
| "rmatch (RChr c) t = (case t of d # t' \<Rightarrow> if c = d then [t'] else [] | [] \<Rightarrow> [])"
| "rmatch (RAlt a b) t = rmatch a t @ rmatch b t"
| "rmatch (RSeq a b) t = concat (map (rmatch b) (rmatch a t))"
| "rmatch (ROpt a) t = rmatch a t @ [t]"
| "rmatch REnd t = (if t = [] \<or> t = [CHR 0x0A] then [t] else [])"

definition re_search :: "rx \<Rightarrow> string \<Rightarrow> bool" where
  "re_search r s = list_ex (\<lambda>t. rmatch r t \<noteq> []) (suffixes s)"

text \<open>A literal string as a pattern.\<close>

definition rlit :: "string \<Rightarrow> rx" where
  "rlit w = foldr (\<lambda>c r. RSeq (RChr c) r) w REps"

declare re_search_def [run_eval] rlit_def [run_eval]

subsection \<open>The matcher against the language\<close>

fun anchor_free :: "rx \<Rightarrow> bool" where
  "anchor_free REnd = False"
| "anchor_free (RAlt a b) = (anchor_free a \<and> anchor_free b)"
| "anchor_free (RSeq a b) = (anchor_free a \<and> anchor_free b)"
| "anchor_free (ROpt a) = anchor_free a"
| "anchor_free _ = True"

fun rlang :: "rx \<Rightarrow> string set" where
  "rlang REps = {[]}"
| "rlang (RChr c) = {[c]}"
| "rlang (RAlt a b) = rlang a \<union> rlang b"
| "rlang (RSeq a b) = {x @ y | x y. x \<in> rlang a \<and> y \<in> rlang b}"
| "rlang (ROpt a) = rlang a \<union> {[]}"
| "rlang REnd = {[]}"

lemma rmatch_rlang:
  "anchor_free r \<Longrightarrow> u \<in> set (rmatch r t) \<longleftrightarrow> (\<exists>p \<in> rlang r. t = p @ u)"
proof (induction r arbitrary: t u)
  case (RChr c)
  then show ?case by (cases t) auto
next
  case (RSeq a b)
  then have af: "anchor_free a" "anchor_free b" by simp_all
  have "u \<in> set (rmatch (RSeq a b) t) \<longleftrightarrow> (\<exists>m \<in> set (rmatch a t). u \<in> set (rmatch b m))"
    by simp
  also have "\<dots> \<longleftrightarrow> (\<exists>m. (\<exists>p \<in> rlang a. t = p @ m) \<and> (\<exists>q \<in> rlang b. m = q @ u))"
    using RSeq.IH(1) [OF af(1)] RSeq.IH(2) [OF af(2)] by blast
  also have "\<dots> \<longleftrightarrow> (\<exists>p \<in> rlang (RSeq a b). t = p @ u)"
  proof
    assume "\<exists>m. (\<exists>p \<in> rlang a. t = p @ m) \<and> (\<exists>q \<in> rlang b. m = q @ u)"
    then obtain p q where "p \<in> rlang a" "q \<in> rlang b" "t = (p @ q) @ u" by auto
    then show "\<exists>p \<in> rlang (RSeq a b). t = p @ u" by fastforce
  next
    assume "\<exists>p \<in> rlang (RSeq a b). t = p @ u"
    then obtain x y where "x \<in> rlang a" "y \<in> rlang b" "t = x @ (y @ u)" by auto
    then show "\<exists>m. (\<exists>p \<in> rlang a. t = p @ m) \<and> (\<exists>q \<in> rlang b. m = q @ u)" by blast
  qed
  finally show ?case .
next
  case (RAlt a b) then show ?case by auto
next
  case (ROpt a) then show ?case by auto
qed auto

lemma rlang_Seq_eq: "rlang (RSeq a b) = (\<Union>x \<in> rlang a. (\<lambda>y. x @ y) ` rlang b)"
  by auto

lemma rlang_rlit [simp]: "rlang (rlit w) = {w}"
  by (induction w) (auto simp: rlit_def)

lemma anchor_free_rlit [simp]: "anchor_free (rlit w)"
  by (induction w) (simp_all add: rlit_def)

lemma concat_map_ne: "concat (map f xs) \<noteq> [] \<longleftrightarrow> (\<exists>x \<in> set xs. f x \<noteq> [])"
  by (induction xs) auto

lemma rmatch_Seq_End:
  assumes "anchor_free r"
  shows "rmatch (RSeq r REnd) t \<noteq> [] \<longleftrightarrow> (\<exists>p \<in> rlang r. t = p \<or> t = p @ [CHR 0x0A])"
proof -
  have "rmatch (RSeq r REnd) t \<noteq> [] \<longleftrightarrow> (\<exists>u \<in> set (rmatch r t). u = [] \<or> u = [CHR 0x0A])"
    unfolding rmatch.simps(4) concat_map_ne by simp
  also have "\<dots> \<longleftrightarrow> (\<exists>p \<in> rlang r. t = p \<or> t = p @ [CHR 0x0A])"
  proof
    assume "\<exists>u \<in> set (rmatch r t). u = [] \<or> u = [CHR 0x0A]"
    then obtain u p where "p \<in> rlang r" "t = p @ u" "u = [] \<or> u = [CHR 0x0A]"
      using rmatch_rlang [OF assms] by blast
    then show "\<exists>p \<in> rlang r. t = p \<or> t = p @ [CHR 0x0A]" by auto
  next
    assume "\<exists>p \<in> rlang r. t = p \<or> t = p @ [CHR 0x0A]"
    then obtain p u where "p \<in> rlang r" "t = p @ u" "u = [] \<or> u = [CHR 0x0A]" by auto
    then show "\<exists>u \<in> set (rmatch r t). u = [] \<or> u = [CHR 0x0A]"
      using rmatch_rlang [OF assms] by blast
  qed
  finally show ?thesis .
qed

lemma re_search_suffix: "re_search r s \<longleftrightarrow> (\<exists>t. suffix t s \<and> rmatch r t \<noteq> [])"
  by (auto simp: re_search_def list_ex_iff)

end
