(* ===== verification/Format_Classifier.thy ===== *)
theory Format_Classifier
  imports Py_Regex
begin

text \<open>
  The format dispatch inside \<open>fetch_full_text_requests\<close>
  (\<open>src/search_data.py\<close>, lines 176--198): the lowered \<open>Content-Type\<close>
  header and the lowered URL decide between the PDF, image, HTML and
  unsupported branches, tested in that order.
\<close>

datatype fmt = PDF | IMAGE | HTML | UNKNOWN

text \<open>
  \<open>re.search(r"\.(png|jpe?g|gif|bmp|tif)$", s)\<close>: a dot, one of the six
  extensions, then \<open>$\<close>, which matches at the end of the string and also
  right before a newline that ends it.
\<close>

text \<open>
  The pattern itself, as \<open>re\<close> reads it: the dot and the group of
  alternatives, then the anchor.
\<close>

definition image_group :: rx where
  "image_group =
     RSeq (RChr (CHR ''.''))
       (RAlt (rlit ''png'')
         (RAlt (RSeq (rlit ''jp'') (RSeq (ROpt (RChr (CHR ''e''))) (RChr (CHR ''g''))))
           (RAlt (rlit ''gif'') (RAlt (rlit ''bmp'') (rlit ''tif'')))))"

definition image_rx :: rx where
  "image_rx = RSeq image_group REnd"

definition image_extensions :: "string list" where
  "image_extensions = [''png'', ''jpg'', ''jpeg'', ''gif'', ''bmp'', ''tif'']"

definition re_image_suffix :: "string \<Rightarrow> bool" where
  "re_image_suffix s =
     list_ex (\<lambda>e. py_endswith s (CHR ''.'' # e) \<or> py_endswith s (CHR ''.'' # e @ ''\<newline>''))
       image_extensions"

text \<open>
  Lines 180, 188, 192 and 196: \<open>content_type\<close> is the header value already
  lowered at line 176; the URL is lowered at each test.
\<close>

definition classify_format :: "string \<Rightarrow> url \<Rightarrow> fmt" where
  "classify_format content_type url =
     (if py_contains content_type ''pdf'' \<or> py_endswith (py_lower url) ''.pdf'' then PDF
      else if py_contains content_type ''image'' \<or> re_image_suffix (py_lower url) then IMAGE
      else if py_contains content_type ''html'' then HTML
      else UNKNOWN)"

declare classify_format_def [run_eval] re_image_suffix_def [run_eval] image_extensions_def [run_eval]

subsection \<open>Properties\<close>

lemma re_image_suffix_suffix:
  "re_image_suffix s \<longleftrightarrow>
     (\<exists>e \<in> set image_extensions.
        suffix (CHR ''.'' # e) s \<or> suffix (CHR ''.'' # e @ ''\<newline>'') s)"
  by (simp add: re_image_suffix_def list_ex_iff py_endswith_suffix)

text \<open>
  The URL tests are case-insensitive: classifying the lowered URL gives the same
  format as classifying the URL, so \<open>FILE.PDF\<close> is a PDF like \<open>file.pdf\<close>.
\<close>

theorem classify_format_case_insensitive:
  "classify_format ct (py_lower url) = classify_format ct url"
  by (simp add: classify_format_def)

text \<open>
  The suffix test reads the whole URL, query string included: a link to a PDF
  with a query string and a \<open>text/html\<close> content type goes to the HTML branch,
  and without \<open>html\<close> in its content type it is unsupported.
\<close>

theorem classify_format_query_string:
  "classify_format ''text/html'' ''http://example.com/a.pdf?download=1'' = HTML
   \<and> classify_format ''application/octet-stream'' ''http://example.com/a.pdf?download=1'' = UNKNOWN"
  by (simp add: run_eval)

lemma rlang_image_group: "rlang image_group = (\<lambda>e. CHR ''.'' # e) ` set image_extensions"
  by (simp add: image_group_def image_extensions_def rlang_Seq_eq insert_commute del: rlang.simps(4))

text \<open>
  C32: The suffix test that \<open>classify_format\<close> uses is the regular expression of
  line 188: \<open>re.search(r"\.(png|jpe?g|gif|bmp|tif)$", s)\<close> succeeds exactly when
  \<open>s\<close> ends in a dot and one of the six extensions, or in that and a newline.
\<close>

theorem re_search_image_rx: "re_search image_rx s = re_image_suffix s"
proof -
  have af: "anchor_free image_group" by (simp add: image_group_def)
  have "re_search image_rx s \<longleftrightarrow>
      (\<exists>t. suffix t s \<and> (\<exists>e \<in> set image_extensions. t = CHR ''.'' # e \<or> t = CHR ''.'' # e @ ''\<newline>''))"
    unfolding re_search_suffix image_rx_def rmatch_Seq_End [OF af] rlang_image_group by auto
  also have "\<dots> \<longleftrightarrow> re_image_suffix s"
    unfolding re_image_suffix_suffix by blast
  finally show ?thesis .
qed

end
