(* ===== verification/Normalize.thy ===== *)
theory Normalize
  imports Py_Prelude
begin

text \<open>
  Whitespace normalisation, \<open>re.sub(r"\s+", " ", text).strip()\<close>, which
  \<open>src/search_data.py\<close> applies in \<open>parse_pdf_with_pdfplumber\<close> (line 108),
  per page in \<open>parse_pdf_with_ocr\<close> (line 130), in \<open>parse_image_with_ocr\<close>
  (line 144) and in \<open>parse_html\<close> (line 158). The substitution is
  \<open>collapse_ws\<close>; the lemmas show that the whole expression equals
  \<open>" ".join(text.split())\<close>, that it is idempotent and what its results look like.
\<close>

text \<open>
  \<open>re.sub(r"\s+", " ", s)\<close>: the scan copies a non-whitespace character and
  replaces a maximal run of whitespace (the greedy \<open>\s+\<close>) by one space.
\<close>

function collapse_ws :: "string \<Rightarrow> string" where
  "collapse_ws [] = []"
| "collapse_ws (c # cs) =
     (if py_isspace c then CHR '' '' # collapse_ws (dropWhile py_isspace cs)
      else c # collapse_ws cs)"
  by pat_completeness auto
termination
  by (relation "measure length") (auto simp: le_imp_less_Suc length_dropWhile_le)

definition normalize_ws :: "string \<Rightarrow> string" where
  "normalize_ws s = py_strip (collapse_ws s)"

text \<open>The shape of a normalised string: single spaces between words, none at the ends.\<close>

fun no_double_space :: "string \<Rightarrow> bool" where
  "no_double_space (a # b # cs) =
     (\<not> (a = CHR '' '' \<and> b = CHR '' '') \<and> no_double_space (b # cs))"
| "no_double_space _ = True"

definition ws_normal :: "string \<Rightarrow> bool" where
  "ws_normal t =
     (py_stripped t \<and> list_all (\<lambda>c. py_isspace c \<longrightarrow> c = CHR '' '') t \<and> no_double_space t)"

declare normalize_ws_def [run_eval]

subsection \<open>The substitution, run by run\<close>

lemma collapse_ws_shape:
  "collapse_ws s =
     (if s \<noteq> [] \<and> py_isspace (hd s) then '' '' else [])
     @ py_join '' '' (py_split s)
     @ (if s \<noteq> [] \<and> py_isspace (last s) \<and> py_split s \<noteq> [] then '' '' else [])"
proof (induction s rule: collapse_ws.induct)
  case 1
  show ?case by simp
next
  case (2 c cs)
  show ?case
  proof (cases "py_isspace c")
    case True
    let ?a = "c # takeWhile py_isspace cs"
    let ?r = "dropWhile py_isspace cs"
    have cs: "c # cs = ?a @ ?r" by simp
    have a: "\<forall>x \<in> set ?a. py_isspace x"
      using True by (auto dest: set_takeWhileD)
    have split: "py_split (c # cs) = py_split ?r"
      using py_split_spaces_append [OF a, of ?r] by simp
    have lead_r: "\<not> (?r \<noteq> [] \<and> py_isspace (hd ?r))"
      using hd_dropWhile [of py_isspace cs] by auto
    have last_r: "?r \<noteq> [] \<Longrightarrow> last (c # cs) = last ?r"
      using cs by (metis last_appendR)
    have r_ne: "py_split ?r \<noteq> [] \<Longrightarrow> ?r \<noteq> []"
      by (metis py_split_Nil)
    have T: "(?r \<noteq> [] \<and> py_isspace (last ?r) \<and> py_split ?r \<noteq> [])
      = (py_isspace (last (c # cs)) \<and> py_split (c # cs) \<noteq> [])"
    proof (cases "py_split ?r = []")
      case False
      with r_ne last_r split show ?thesis by simp
    qed (simp add: split)
    have "collapse_ws (c # cs) = CHR '' '' # collapse_ws ?r"
      using True by simp
    also have "\<dots> = CHR '' '' # py_join '' '' (py_split ?r)
        @ (if ?r \<noteq> [] \<and> py_isspace (last ?r) \<and> py_split ?r \<noteq> [] then '' '' else [])"
      using "2.IH"(1) [OF True] lead_r by simp
    finally show ?thesis
      using True T split by simp
  next
    case False
    note IH = "2.IH"(2) [OF False]
    consider (nil) "cs = []" | (space) "cs \<noteq> []" "py_isspace (hd cs)"
      | (word) "cs \<noteq> []" "\<not> py_isspace (hd cs)"
      by blast
    then show ?thesis
    proof cases
      case nil
      with False show ?thesis
        using py_split_word_append [of "[c]" "[]"] by (simp add: py_word_def)
    next
      case space
      have split: "py_split (c # cs) = [c] # py_split cs"
        using False space py_split_word_append [of "[c]" cs] by (simp add: py_word_def)
      show ?thesis
      proof (cases "py_split cs = []")
        case True
        then have "py_isspace (last cs)"
          using space by (simp add: py_split_eq_Nil_iff)
        with True False space IH split show ?thesis by simp
      next
        case False
        then obtain v vs where "py_split cs = v # vs"
          by (cases "py_split cs") auto
        with \<open>\<not> py_isspace c\<close> space IH split show ?thesis by simp
      qed
    next
      case word
      have ne: "py_split cs \<noteq> []"
        using word by (auto simp: py_split_eq_Nil_iff neq_Nil_conv)
      then obtain v vs where vs: "py_split cs = v # vs"
        by (cases "py_split cs") auto
      have "py_split (c # cs) = (c # v) # vs"
        using py_split_Cons_word [OF False word] vs by simp
      with False word IH vs show ?thesis by simp
    qed
  qed
qed

subsection \<open>Normalisation is joining the words\<close>

lemma py_join_py_split_stripped [py_str]: "py_stripped (py_join sep (py_split s))"
  by (rule py_join_words_stripped) (auto intro: py_split_words)

lemma normalize_ws_join_split: "normalize_ws s = py_join '' '' (py_split s)"
  unfolding normalize_ws_def
  by (subst collapse_ws_shape, rule py_strip_frame) (simp_all add: py_join_py_split_stripped)

text \<open>
  C15: The normalisation \<open>re.sub(r"\s+", " ", s).strip()\<close> that every extractor
  applies equals \<open>" ".join(s.split())\<close>: the words of \<open>s\<close>, in order, with one
  space between two words and nothing else.
\<close>

theorem normalize_ws_equiv_split_join:
  "py_strip (collapse_ws s) = py_join '' '' (py_split s)"
  by (subst collapse_ws_shape, rule py_strip_frame) (simp_all add: py_join_py_split_stripped)

text \<open>Normalising a normalised text changes nothing.\<close>

theorem normalize_ws_idem: "normalize_ws (normalize_ws s) = normalize_ws s"
  by (simp add: normalize_ws_join_split py_split_join py_split_words)

lemma py_join_eq_Nil_words:
  "\<forall>w \<in> set ws. py_word w \<Longrightarrow> py_join sep ws = [] \<longleftrightarrow> ws = []"
  by (induction sep ws rule: py_join.induct) (auto simp: py_word_def)

lemma normalize_ws_eq_Nil_iff: "normalize_ws s = [] \<longleftrightarrow> (\<forall>c \<in> set s. py_isspace c)"
  by (simp add: normalize_ws_join_split py_join_eq_Nil_words py_split_words py_split_eq_Nil_iff)

lemma normalize_ws_stripped [py_str]: "py_stripped (normalize_ws s)"
  by (simp add: normalize_ws_join_split py_join_py_split_stripped)

lemma py_strip_normalize_ws [simp]: "py_strip (normalize_ws s) = normalize_ws s"
  by (rule py_strip_stripped [OF normalize_ws_stripped])

lemma no_double_space_append:
  "no_double_space (xs @ ys) \<longleftrightarrow>
     no_double_space xs \<and> no_double_space ys
     \<and> \<not> (xs \<noteq> [] \<and> ys \<noteq> [] \<and> last xs = CHR '' '' \<and> hd ys = CHR '' '')"
proof (induction xs rule: induct_list012)
  case (2 x)
  then show ?case by (cases ys) auto
qed (auto simp: neq_Nil_conv)

lemma no_double_space_no_space:
  "list_all (\<lambda>c. \<not> py_isspace c) w \<Longrightarrow> no_double_space w"
  by (induction w rule: no_double_space.induct) auto

lemma ws_normal_join_words:
  assumes "\<forall>w \<in> set ws. py_word w"
  shows "ws_normal (py_join '' '' ws)"
  using assms
proof (induction ws rule: induct_list012)
  case (2 w)
  then have "list_all (\<lambda>c. \<not> py_isspace c) w" by (simp add: py_word_def)
  then have "no_double_space w"
    by (rule no_double_space_no_space)
  with 2 show ?case
    by (auto simp: ws_normal_def py_stripped_def py_word_def list_all_iff)
next
  case (3 w v ws)
  let ?rest = "py_join '' '' (v # ws)"
  have w: "py_word w" and rest: "ws_normal ?rest" and rest_ne: "?rest \<noteq> []"
    using 3 py_join_eq_Nil_words [of "v # ws"] by auto
  have hd_rest: "\<not> py_isspace (hd ?rest)"
    using rest rest_ne by (auto simp: ws_normal_def py_stripped_def)
  have w_ok: "w \<noteq> []" "\<not> py_isspace (last w)" "\<not> py_isspace (hd w)"
    "list_all (\<lambda>c. py_isspace c \<longrightarrow> c = CHR '' '') w"
    using w by (auto simp: py_word_def list_all_iff)
  have w_nd: "no_double_space w"
    using w by (simp add: py_word_def no_double_space_no_space)
  have "no_double_space (w @ CHR '' '' # ?rest)"
    using w_ok w_nd rest rest_ne hd_rest
    by (auto simp: no_double_space_append [of w] ws_normal_def neq_Nil_conv)
  moreover have "py_stripped (w @ CHR '' '' # ?rest)"
    using w_ok rest rest_ne by (auto simp: py_stripped_def ws_normal_def)
  ultimately show ?case
    using w_ok rest by (simp add: ws_normal_def)
qed (simp add: ws_normal_def py_stripped_def)

text \<open>
  C30: A normalised text has no whitespace at either end, no whitespace character
  other than the space, and never two spaces in a row.
\<close>

theorem ws_normal_normalize_ws: "ws_normal (normalize_ws s)"
  by (simp add: normalize_ws_join_split ws_normal_join_words py_split_words)

end
