(* ===== verification/Environment.thy ===== *)
theory Environment
  imports Py_Prelude
begin

text \<open>
  What \<open>src/search_data.py\<close> reads from outside itself, and what it leaves
  behind. The libraries it calls (\<open>requests\<close>, \<open>tldextract\<close>,
  \<open>robotexclusionrulesparser\<close>, \<open>pdfplumber\<close>, \<open>pdf2image\<close>,
  \<open>pytesseract\<close>, \<open>PIL\<close>, \<open>BeautifulSoup\<close>'s parser, the
  \<open>transformers\<close> classifier, \<open>DDGS\<close> and Selenium's Chrome driver) are fields of the record
  \<open>env\<close>: each is any function of its arguments, a raise being an \<open>Inl\<close>.
  The network answer of \<open>requests.get\<close> also depends on how many requests the
  run has sent, so a server may answer the same URL differently over time.
  \<open>open_write\<close> is whether \<open>open(name, "w")\<close> raises (a missing
  permission, a full disk), \<open>float_repr\<close> is \<open>float.__repr__\<close>.
  The state \<open>io_log\<close> records the requests sent, the diagnostics printed and
  the classifier calls, in order, and holds the files of the working directory
  as a map from names to contents.
\<close>

subsection \<open>HTTP\<close>

record request =
  req_url :: url
  req_headers :: "(string \<times> string) list"
  req_timeout :: nat
  req_stream :: bool

text \<open>
  A response: \<open>status_code\<close>, the \<open>Content-Type\<close> header if present,
  \<open>content\<close> (reading a streamed body may raise) and \<open>text\<close>.
\<close>

record response =
  resp_status :: int
  resp_content_type :: "string option"
  resp_content :: "py_exc + bytes"
  resp_text :: string

datatype get_result = Raised py_exc | Response response

subsection \<open>Parsed documents\<close>

text \<open>
  The tree \<open>BeautifulSoup(html, "html.parser")\<close> builds: tags with their
  (lower-case) names and children, strings, and the comments, doctypes and other
  special strings that \<open>get_text\<close> leaves out.
\<close>

datatype html_node =
    Tag string "html_node list"
  | NavStr string
  | SpecialStr string

text \<open>A hit of \<open>DDGS().text\<close>: a dict whose keys may be missing.\<close>

record raw_hit =
  rh_title :: "string option"
  rh_href :: "string option"
  rh_body :: "string option"

subsection \<open>Diagnostics\<close>

text \<open>One constructor per \<open>print\<close> of the source, by line.\<close>

datatype diag =
    PlumberFailed              \<comment> \<open>line 111\<close>
  | PdfToImageFailed           \<comment> \<open>line 122\<close>
  | OcrFailed                  \<comment> \<open>line 134\<close>
  | ImageOcrFailed             \<comment> \<open>line 147\<close>
  | HttpError int              \<comment> \<open>line 173\<close>
  | PlumberNoText              \<comment> \<open>line 183\<close>
  | UnsupportedType string     \<comment> \<open>line 197\<close>
  | ConnectionFailed url       \<comment> \<open>line 201\<close>
  | FetchFailed url            \<comment> \<open>line 204\<close>
  | RobotsDisallowed url       \<comment> \<open>line 212\<close>
  | SkippedHit url             \<comment> \<open>line 247\<close>
  | EmptyQueryMsg              \<comment> \<open>line 265\<close>
  | SearchStarted string int   \<comment> \<open>line 271\<close>
  | NoResultsMsg               \<comment> \<open>line 276\<close>
  | SavedMsg nat string        \<comment> \<open>line 283\<close>
  | PromptQuery                \<comment> \<open>the prompt of \<open>input\<close>, line 263\<close>
  | PromptLabels               \<comment> \<open>line 268\<close>
  | PromptCount                \<comment> \<open>line 270\<close>

fun is_skip :: "diag \<Rightarrow> bool" where
  "is_skip (SkippedHit u) = True"
| "is_skip _ = False"

subsection \<open>The environment and the log\<close>

record 'img env =
  http_get :: "nat \<Rightarrow> request \<Rightarrow> get_result"
  robots_parser_available :: bool
  registered_domain :: "url \<Rightarrow> string"
  robots_is_allowed :: "string \<Rightarrow> string \<Rightarrow> url \<Rightarrow> py_exc + bool"
  pdf_pages :: "bytes \<Rightarrow> py_exc + (py_exc + string option) list"
  pdf_to_images :: "bytes \<Rightarrow> nat \<Rightarrow> py_exc + 'img list"
  tesseract :: "'img \<Rightarrow> string \<Rightarrow> py_exc + string"
  open_image :: "bytes \<Rightarrow> py_exc + 'img"
  soup_parse :: "string \<Rightarrow> html_node list"
  classifier :: "string \<Rightarrow> string list \<Rightarrow> py_exc + (string list \<times> real list)"
  ddgs_text :: "string \<Rightarrow> int \<Rightarrow> py_exc + raw_hit list"
  selenium_start :: "py_exc option"
  selenium_page_source :: "url \<Rightarrow> nat \<Rightarrow> py_exc + string"
  pipeline_load :: "py_exc option"
  robots_import :: "py_exc option"
  open_write :: "string \<Rightarrow> py_exc option"
  float_repr :: "real \<Rightarrow> string"

record io_log =
  sent :: "request list"
  printed :: "diag list"
  scored :: "(string \<times> string list) list"
  files :: "string \<Rightarrow> bytes option"

definition empty_log :: io_log where
  "empty_log = \<lparr>sent = [], printed = [], scored = [], files = Map.empty\<rparr>"

text \<open>
  An environment in which every library call fails and the network is down: the
  base that concrete scenarios update field by field.
\<close>

definition null_env :: "'img env" where
  "null_env =
     \<lparr>http_get = (\<lambda>_ _. Raised RequestException),
      robots_parser_available = False,
      registered_domain = (\<lambda>_. []),
      robots_is_allowed = (\<lambda>_ _ _. Inr True),
      pdf_pages = (\<lambda>_. Inl (OtherException ''PDFSyntaxError'')),
      pdf_to_images = (\<lambda>_ _. Inl (OtherException ''PDFPageCountError'')),
      tesseract = (\<lambda>_ _. Inl (OtherException ''TesseractError'')),
      open_image = (\<lambda>_. Inl (OtherException ''UnidentifiedImageError'')),
      soup_parse = (\<lambda>_. []),
      classifier = (\<lambda>_ _. Inl (OtherException ''RuntimeError'')),
      ddgs_text = (\<lambda>_ _. Inr []),
      selenium_start = Some (OtherException ''WebDriverException''),
      selenium_page_source = (\<lambda>_ _. Inl (OtherException ''TimeoutException'')),
      pipeline_load = None,
      robots_import = Some (ImportError ''robotexclusionrulesparser''),
      open_write = (\<lambda>_. None),
      float_repr = (\<lambda>_. ''0.0'')\<rparr>"

text \<open>\<open>requests.get\<close>: the answer of the network to the next request.\<close>

definition do_get :: "'img env \<Rightarrow> request \<Rightarrow> io_log \<Rightarrow> get_result \<times> io_log" where
  "do_get E r st = (http_get E (length (sent st)) r, st\<lparr>sent := sent st @ [r]\<rparr>)"

text \<open>\<open>print\<close>.\<close>

definition emit :: "diag list \<Rightarrow> io_log \<Rightarrow> io_log" where
  "emit ds st = st\<lparr>printed := printed st @ ds\<rparr>"

declare null_env_def [run_eval] empty_log_def [run_eval] do_get_def [run_eval] emit_def [run_eval]

lemma emit_Nil [simp]: "emit [] st = st"
  by (simp add: emit_def)

lemma emit_emit [simp]: "emit ds' (emit ds st) = emit (ds @ ds') st"
  by (simp add: emit_def)

lemma emit_fields [simp]:
  "sent (emit ds st) = sent st" "scored (emit ds st) = scored st" "files (emit ds st) = files st"
  "printed (emit ds st) = printed st @ ds"
  by (simp_all add: emit_def)

lemma do_get_fields [simp]:
  "sent (snd (do_get E r st)) = sent st @ [r]"
  "printed (snd (do_get E r st)) = printed st"
  "scored (snd (do_get E r st)) = scored st"
  "files (snd (do_get E r st)) = files st"
  "fst (do_get E r st) = http_get E (length (sent st)) r"
  by (simp_all add: do_get_def)

end
