(* ===== verification/Text_Extractors.thy ===== *)
theory Text_Extractors
  imports Normalize Environment
begin

text \<open>
  The four extractors of \<open>src/search_data.py\<close>, lines 95--159. Each returns its
  text together with the diagnostics it printed; the library calls are the fields
  of the environment.
\<close>

subsection \<open>PDF text layer: \<open>parse_pdf_with_pdfplumber\<close> (lines 95--112)\<close>

text \<open>
  The loop over \<open>pdf.pages\<close>: a page whose \<open>extract_text()\<close> is \<open>None\<close> or
  empty is skipped; a raise anywhere ends the loop, and the enclosing
  \<open>try\<close> (line 110) turns it into the empty string.
\<close>

fun plumber_pages :: "(py_exc + string option) list \<Rightarrow> py_exc + string list" where
  "plumber_pages [] = Inr []"
| "plumber_pages (p # ps) =
     (case p of
        Inl e \<Rightarrow> Inl e
      | Inr None \<Rightarrow> plumber_pages ps
      | Inr (Some t) \<Rightarrow>
          (if t = [] then plumber_pages ps
           else (case plumber_pages ps of Inl e \<Rightarrow> Inl e | Inr ts \<Rightarrow> Inr (t # ts))))"

definition parse_pdf_with_pdfplumber :: "'img env \<Rightarrow> bytes \<Rightarrow> string \<times> diag list" where
  "parse_pdf_with_pdfplumber E pdf_bytes =
     (case pdf_pages E pdf_bytes of
        Inl e \<Rightarrow> ([], [PlumberFailed])
      | Inr pages \<Rightarrow>
          (case plumber_pages pages of
             Inl e \<Rightarrow> ([], [PlumberFailed])
           | Inr text_pages \<Rightarrow> (normalize_ws (py_join ''\<newline>'' text_pages), [])))"

subsection \<open>PDF by OCR: \<open>parse_pdf_with_ocr\<close> (lines 114--135)\<close>

text \<open>
  One OCR call per rasterised page, in order; a page whose OCR raises is skipped
  with a diagnostic (line 133), a page whose normalised text is empty is dropped.
\<close>

fun ocr_pages :: "'img env \<Rightarrow> 'img list \<Rightarrow> string list \<times> diag list" where
  "ocr_pages E [] = ([], [])"
| "ocr_pages E (img # imgs) =
     (let (ts, ds) = ocr_pages E imgs
      in case tesseract E img ''chi_tra'' of
           Inl e \<Rightarrow> (ts, OcrFailed # ds)
         | Inr raw \<Rightarrow>
             (let text = normalize_ws raw in (if text = [] then ts else text # ts, ds)))"

definition parse_pdf_with_ocr :: "'img env \<Rightarrow> bytes \<Rightarrow> string \<times> diag list" where
  "parse_pdf_with_ocr E pdf_bytes =
     (case pdf_to_images E pdf_bytes 300 of
        Inl e \<Rightarrow> ([], [PdfToImageFailed])
      | Inr images \<Rightarrow> (let (ocr_texts, ds) = ocr_pages E images in (py_join ''\<newline>'' ocr_texts, ds)))"

subsection \<open>Images: \<open>parse_image_with_ocr\<close> (lines 137--148)\<close>

definition parse_image_with_ocr :: "'img env \<Rightarrow> bytes \<Rightarrow> string \<times> diag list" where
  "parse_image_with_ocr E image_bytes =
     (case open_image E image_bytes of
        Inl e \<Rightarrow> ([], [ImageOcrFailed])
      | Inr img \<Rightarrow>
          (case tesseract E img ''chi_tra'' of
             Inl e \<Rightarrow> ([], [ImageOcrFailed])
           | Inr raw \<Rightarrow> (normalize_ws raw, [])))"

subsection \<open>HTML: \<open>parse_html\<close> (lines 150--159)\<close>

text \<open>
  \<open>for tag in soup(["script", "style", "noscript"]): tag.decompose()\<close>:
  \<open>soup(names)\<close> finds every tag of those names at any depth, and
  \<open>decompose\<close> removes it with everything below it.
\<close>

primrec decompose_node :: "string list \<Rightarrow> html_node \<Rightarrow> html_node list"
  and decompose_nodes :: "string list \<Rightarrow> html_node list \<Rightarrow> html_node list" where
  "decompose_node names (Tag n cs) =
     (if n \<in> set names then [] else [Tag n (decompose_nodes names cs)])"
| "decompose_node names (NavStr s) = [NavStr s]"
| "decompose_node names (SpecialStr s) = [SpecialStr s]"
| "decompose_nodes names [] = []"
| "decompose_nodes names (c # cs) = decompose_node names c @ decompose_nodes names cs"

text \<open>
  \<open>soup.get_text(separator)\<close>: the strings of the tree in document order,
  comments and other special strings left out, joined by the separator.
\<close>

primrec strings_node :: "html_node \<Rightarrow> string list"
  and strings_nodes :: "html_node list \<Rightarrow> string list" where
  "strings_node (Tag n cs) = strings_nodes cs"
| "strings_node (NavStr s) = [s]"
| "strings_node (SpecialStr s) = []"
| "strings_nodes [] = []"
| "strings_nodes (c # cs) = strings_node c @ strings_nodes cs"

definition get_text :: "string \<Rightarrow> html_node list \<Rightarrow> string" where
  "get_text separator doc = py_join separator (strings_nodes doc)"

definition hidden_tags :: "string list" where
  "hidden_tags = [''script'', ''style'', ''noscript'']"

definition parse_html :: "'img env \<Rightarrow> string \<Rightarrow> string" where
  "parse_html E html_text =
     normalize_ws (get_text ''\<newline>'' (decompose_nodes hidden_tags (soup_parse E html_text)))"

text \<open>
  What the page shows, stated without \<open>decompose\<close>: every string of the
  tree with the names of the tags above it, and the visible strings, those with no
  \<open>script\<close>, \<open>style\<close> or \<open>noscript\<close> tag among them.
\<close>

primrec path_strings_node :: "string list \<Rightarrow> html_node \<Rightarrow> (string list \<times> string) list"
  and path_strings_nodes :: "string list \<Rightarrow> html_node list \<Rightarrow> (string list \<times> string) list" where
  "path_strings_node anc (Tag n cs) = path_strings_nodes (n # anc) cs"
| "path_strings_node anc (NavStr s) = [(anc, s)]"
| "path_strings_node anc (SpecialStr s) = []"
| "path_strings_nodes anc [] = []"
| "path_strings_nodes anc (c # cs) = path_strings_node anc c @ path_strings_nodes anc cs"

definition visible_strings :: "html_node list \<Rightarrow> string list" where
  "visible_strings doc =
     map snd (filter (\<lambda>(anc, s). set anc \<inter> set hidden_tags = {}) (path_strings_nodes [] doc))"

declare parse_pdf_with_pdfplumber_def [run_eval] parse_pdf_with_ocr_def [run_eval]
  parse_image_with_ocr_def [run_eval] parse_html_def [run_eval] get_text_def [run_eval]
  hidden_tags_def [run_eval]

subsection \<open>The text layer\<close>

definition page_text :: "py_exc + string option \<Rightarrow> string" where
  "page_text p = (case p of Inr (Some t) \<Rightarrow> t | _ \<Rightarrow> [])"

lemma plumber_pages_ok:
  "\<not> list_ex isl ps \<Longrightarrow> plumber_pages ps = Inr (filter (\<lambda>t. t \<noteq> []) (map page_text ps))"
  by (induction ps rule: plumber_pages.induct) (auto simp: page_text_def split: sum.splits option.splits)

lemma plumber_pages_raise:
  "list_ex isl ps \<Longrightarrow> \<exists>e. plumber_pages ps = Inl e"
proof (induction ps)
  case (Cons p ps)
  then show ?case
    by (cases p) (auto split: sum.splits option.splits)
qed simp

lemma concat_map_py_split_nonempty:
  "concat (map py_split (filter (\<lambda>t. t \<noteq> []) ts)) = concat (map py_split ts)"
  by (induction ts) auto

text \<open>
  C9: The text-layer extractor returns the words of the pages' text layers, in page
  order, separated by single spaces, and prints nothing; if opening the document or
  reading any page raises, it returns the empty string and prints one diagnostic.
\<close>

theorem parse_pdf_with_pdfplumber_result:
  "parse_pdf_with_pdfplumber E b =
     (case pdf_pages E b of
        Inl e \<Rightarrow> ([], [PlumberFailed])
      | Inr pages \<Rightarrow>
          if list_ex isl pages then ([], [PlumberFailed])
          else (py_join '' '' (concat (map (py_split \<circ> page_text) pages)), []))"
proof (cases "pdf_pages E b")
  case (Inr pages)
  show ?thesis
  proof (cases "list_ex isl pages")
    case True
    with Inr show ?thesis
      using plumber_pages_raise [OF True] by (auto simp: parse_pdf_with_pdfplumber_def)
  next
    case False
    have "normalize_ws (py_join ''\<newline>'' (filter (\<lambda>t. t \<noteq> []) (map page_text pages)))
        = py_join '' '' (concat (map (py_split \<circ> page_text) pages))"
      by (simp add: normalize_ws_join_split py_split_join_sep concat_map_py_split_nonempty
          flip: map_map)
    with Inr False show ?thesis
      by (simp add: parse_pdf_with_pdfplumber_def plumber_pages_ok)
  qed
qed (simp add: parse_pdf_with_pdfplumber_def)

subsection \<open>OCR\<close>

text \<open>The successful OCR results of a list of images, and the failed calls.\<close>

definition ocr_results :: "'img env \<Rightarrow> 'img list \<Rightarrow> (py_exc + string) list" where
  "ocr_results E imgs = map (\<lambda>img. tesseract E img ''chi_tra'') imgs"

text \<open>
  C10: The OCR loop never stops early: it returns the normalised text of every page
  whose OCR succeeds and yields text, in page order, and prints one diagnostic per
  page whose OCR raises.
\<close>

theorem ocr_pages_skip_failures:
  "ocr_pages E imgs =
     (filter (\<lambda>t. t \<noteq> []) (map (normalize_ws \<circ> projr) (filter (\<lambda>r. \<not> isl r) (ocr_results E imgs))),
      replicate (length (filter isl (ocr_results E imgs))) OcrFailed)"
  by (induction imgs) (auto simp: ocr_results_def Let_def split: sum.splits prod.splits)

lemma ocr_pages_texts:
  "t \<in> set (fst (ocr_pages E imgs)) \<Longrightarrow> t \<noteq> [] \<and> py_stripped t"
  by (induction imgs) (auto simp: Let_def normalize_ws_stripped split: sum.splits prod.splits if_splits)

subsection \<open>HTML\<close>

primrec tag_names_node :: "html_node \<Rightarrow> string list"
  and tag_names_nodes :: "html_node list \<Rightarrow> string list" where
  "tag_names_node (Tag n cs) = n # tag_names_nodes cs"
| "tag_names_node (NavStr s) = []"
| "tag_names_node (SpecialStr s) = []"
| "tag_names_nodes [] = []"
| "tag_names_nodes (c # cs) = tag_names_node c @ tag_names_nodes cs"

lemma decompose_nodes_append [simp]:
  "decompose_nodes names (xs @ ys) = decompose_nodes names xs @ decompose_nodes names ys"
  by (induction xs) simp_all

lemma tag_names_nodes_append [simp]:
  "tag_names_nodes (xs @ ys) = tag_names_nodes xs @ tag_names_nodes ys"
  by (induction xs) simp_all

lemma decompose_nodes_concat:
  "decompose_nodes names cs = concat (map (decompose_node names) cs)"
  by (induction cs) simp_all

lemma tag_names_nodes_concat:
  "tag_names_nodes cs = concat (map tag_names_node cs)"
  by (induction cs) simp_all

lemma decompose_hidden_gone:
  "set (tag_names_nodes (decompose_node names c)) \<inter> set names = {}"
proof (induction c)
  case (Tag n cs)
  then show ?case
    by (auto simp: decompose_nodes_concat tag_names_nodes_concat)
qed simp_all

lemma decompose_keeps_visible:
  "set (tag_names_node c) \<inter> set names = {} \<Longrightarrow> decompose_node names c = [c]"
proof (induction c)
  case (Tag n cs)
  then have "\<forall>c \<in> set cs. decompose_node names c = [c]"
    by (auto simp: tag_names_nodes_concat)
  then have "decompose_nodes names cs = cs"
    by (induction cs) auto
  with Tag.prems show ?case by simp
qed simp_all

lemma decompose_nodes_hidden_gone:
  "set (tag_names_nodes (decompose_nodes names cs)) \<inter> set names = {}"
  using decompose_hidden_gone [of names]
  by (induction cs) auto

lemma decompose_nodes_keeps_visible:
  "set (tag_names_nodes cs) \<inter> set names = {} \<Longrightarrow> decompose_nodes names cs = cs"
proof (induction cs)
  case (Cons c cs)
  then have "decompose_node names c = [c]"
    by (intro decompose_keeps_visible) auto
  with Cons show ?case by auto
qed simp

text \<open>
  C22: After \<open>decompose\<close>, no \<open>script\<close>, \<open>style\<close> or \<open>noscript\<close> element is
  left anywhere in the tree, and a tree without such elements is left as it was.
\<close>

theorem decompose_hidden_tags:
  "set (tag_names_nodes (decompose_nodes hidden_tags doc)) \<inter> set hidden_tags = {}
   \<and> (set (tag_names_nodes doc) \<inter> set hidden_tags = {} \<longrightarrow> decompose_nodes hidden_tags doc = doc)"
  using decompose_nodes_hidden_gone decompose_nodes_keeps_visible by blast

lemma parse_html_words:
  "parse_html E h =
     py_join '' '' (concat (map py_split (strings_nodes (decompose_nodes hidden_tags (soup_parse E h)))))"
  by (simp add: parse_html_def get_text_def normalize_ws_join_split py_split_join_sep)

text \<open>
  The strings left after \<open>decompose\<close> are the strings whose ancestors avoid the
  removed names; under a removed ancestor no string is left.
\<close>

lemma path_strings_nodes_concat:
  "path_strings_nodes anc cs = concat (map (path_strings_node anc) cs)"
  by (induction cs) simp_all

lemma strings_nodes_append [simp]: "strings_nodes (xs @ ys) = strings_nodes xs @ strings_nodes ys"
  by (induction xs) simp_all

lemma strings_decompose_nodes_concat:
  "strings_nodes (decompose_nodes names cs) = concat (map (\<lambda>c. strings_nodes (decompose_node names c)) cs)"
  by (induction cs) simp_all

lemma path_strings_anc:
  "(a, t) \<in> set (path_strings_node anc c) \<Longrightarrow> set anc \<subseteq> set a"
proof (induction c arbitrary: anc)
  case (Tag n cs)
  then obtain c where "c \<in> set cs" "(a, t) \<in> set (path_strings_node (n # anc) c)"
    by (auto simp: path_strings_nodes_concat)
  with Tag.IH show ?case by fastforce
qed auto

lemma filter_path_hidden:
  "set anc \<inter> set names \<noteq> {} \<Longrightarrow>
   filter (\<lambda>(a, s). set a \<inter> set names = {}) (path_strings_nodes anc cs) = []"
  using path_strings_anc [of _ _ anc] by (fastforce simp: filter_empty_conv path_strings_nodes_concat)

lemma strings_decompose_visible:
  "set anc \<inter> set names = {} \<Longrightarrow>
     strings_nodes (decompose_node names c) =
       map snd (filter (\<lambda>(a, s). set a \<inter> set names = {}) (path_strings_node anc c))"
proof (induction c arbitrary: anc)
  case (Tag n cs)
  show ?case
  proof (cases "n \<in> set names")
    case True
    then show ?thesis by (simp add: filter_path_hidden)
  next
    case False
    with Tag.prems have "set (n # anc) \<inter> set names = {}" by simp
    with Tag.IH have "\<forall>c \<in> set cs. strings_nodes (decompose_node names c) =
        map snd (filter (\<lambda>(a, s). set a \<inter> set names = {}) (path_strings_node (n # anc) c))"
      by blast
    with False show ?thesis
      by (simp add: strings_decompose_nodes_concat path_strings_nodes_concat map_concat filter_concat
          cong: map_cong)
  qed
qed simp_all

lemma strings_decompose_nodes_visible:
  "strings_nodes (decompose_nodes names cs) =
     map snd (filter (\<lambda>(a, s). set a \<inter> set names = {}) (path_strings_nodes [] cs))"
  using strings_decompose_visible [of "[]" names]
  by (simp add: strings_decompose_nodes_concat path_strings_nodes_concat map_concat filter_concat
      cong: map_cong)

text \<open>
  C11: The HTML extractor returns the words of the visible strings of the page, in
  document order, one space between two words: a string inside a \<open>script\<close>,
  \<open>style\<close> or \<open>noscript\<close> element, at any depth, and the comments
  contribute nothing.
\<close>

theorem parse_html_visible_words:
  "parse_html E h = py_join '' '' (concat (map py_split (visible_strings (soup_parse E h))))"
  by (simp add: parse_html_words visible_strings_def strings_decompose_nodes_visible)

lemma ocr_pages_diags: "set (snd (ocr_pages E imgs)) \<subseteq> {OcrFailed}"
  by (induction imgs) (auto simp: Let_def split: sum.splits prod.splits)

lemma extractors_no_skip:
  "\<not> list_ex is_skip (snd (parse_pdf_with_pdfplumber E b))"
  "\<not> list_ex is_skip (snd (parse_pdf_with_ocr E b))"
  "\<not> list_ex is_skip (snd (parse_image_with_ocr E b))"
proof -
  show "\<not> list_ex is_skip (snd (parse_pdf_with_pdfplumber E b))"
    by (simp add: parse_pdf_with_pdfplumber_def split: sum.split)
  show "\<not> list_ex is_skip (snd (parse_image_with_ocr E b))"
    by (simp add: parse_image_with_ocr_def split: sum.split)
  show "\<not> list_ex is_skip (snd (parse_pdf_with_ocr E b))"
  proof (cases "pdf_to_images E b 300")
    case (Inr images)
    obtain ts ds where ocr: "ocr_pages E images = (ts, ds)"
      by (cases "ocr_pages E images")
    with ocr_pages_diags [of E images] have "set ds \<subseteq> {OcrFailed}"
      by simp
    then have "\<not> list_ex is_skip ds"
      by (auto simp: list_ex_iff)
    with Inr ocr show ?thesis
      by (simp add: parse_pdf_with_ocr_def)
  qed (simp add: parse_pdf_with_ocr_def)
qed

subsection \<open>What every extractor returns\<close>

text \<open>
  Every extractor returns a text with no whitespace at either end, so its text is
  empty exactly when it is blank.
\<close>

lemma extractors_stripped [py_str]:
  "py_stripped (fst (parse_pdf_with_pdfplumber E b))"
  "py_stripped (fst (parse_pdf_with_ocr E b))"
  "py_stripped (fst (parse_image_with_ocr E b))"
  "py_stripped (parse_html E h)"
proof -
  show "py_stripped (fst (parse_pdf_with_pdfplumber E b))"
    by (simp add: parse_pdf_with_pdfplumber_def normalize_ws_stripped split: sum.split)
  show "py_stripped (fst (parse_image_with_ocr E b))"
    by (simp add: parse_image_with_ocr_def normalize_ws_stripped split: sum.split)
  show "py_stripped (parse_html E h)"
    by (simp add: parse_html_def normalize_ws_stripped)
  show "py_stripped (fst (parse_pdf_with_ocr E b))"
  proof (cases "pdf_to_images E b 300")
    case (Inr images)
    obtain ts ds where ocr: "ocr_pages E images = (ts, ds)"
      by (cases "ocr_pages E images")
    have "\<forall>t \<in> set ts. t \<noteq> [] \<and> py_stripped t"
      using ocr_pages_texts [of _ E images] ocr by simp
    then have "py_stripped (py_join ''\<newline>'' ts)"
      by (rule py_join_stripped)
    with Inr ocr show ?thesis
      by (simp add: parse_pdf_with_ocr_def)
  qed (simp add: parse_pdf_with_ocr_def)
qed

lemma normalize_ws_normal: "ws_normal (normalize_ws s)"
  by (simp add: normalize_ws_join_split ws_normal_join_words py_split_words)

lemma ocr_pages_normal:
  "t \<in> set (fst (ocr_pages E imgs)) \<Longrightarrow> t \<noteq> [] \<and> ws_normal t"
  by (induction imgs) (auto simp: Let_def normalize_ws_normal split: sum.splits prod.splits if_splits)

lemma not_ws_normal_newline: "CHR 0x0A \<in> set t \<Longrightarrow> \<not> ws_normal t"
proof
  assume "CHR 0x0A \<in> set t" and "ws_normal t"
  then have "py_isspace (CHR 0x0A) \<longrightarrow> CHR 0x0A = CHR '' ''"
    by (auto simp: ws_normal_def list_all_iff)
  moreover have "py_isspace (CHR 0x0A)" by (simp add: py_isspace_def)
  ultimately show False by simp
qed

text \<open>
  C27: The OCR fallback is the one extractor whose text is not in the normal form
  of the others: the page texts are each normalised, but joined by newlines
  (line 135), so the result is in normal form exactly when at most one page gave
  text.
\<close>

theorem parse_pdf_with_ocr_normal_iff:
  assumes "pdf_to_images E b 300 = Inr imgs"
  shows "ws_normal (fst (parse_pdf_with_ocr E b)) \<longleftrightarrow> length (fst (ocr_pages E imgs)) \<le> 1"
proof -
  obtain ts ds where ocr: "ocr_pages E imgs = (ts, ds)" by (cases "ocr_pages E imgs")
  have pages: "\<forall>t \<in> set ts. t \<noteq> [] \<and> ws_normal t"
    using ocr_pages_normal [of _ E imgs] ocr by simp
  have res: "fst (parse_pdf_with_ocr E b) = py_join ''\<newline>'' ts"
    using assms ocr by (simp add: parse_pdf_with_ocr_def)
  consider "ts = []" | t where "ts = [t]" | t u us where "ts = t # u # us"
    by (metis list.exhaust)
  then show ?thesis
  proof cases
    case 1
    then show ?thesis using res ocr by (simp add: ws_normal_def py_stripped_def)
  next
    case 2
    then show ?thesis using res ocr pages by simp
  next
    case 3
    then have "CHR 0x0A \<in> set (py_join ''\<newline>'' ts)" by simp
    then show ?thesis using 3 res ocr by (simp add: not_ws_normal_newline)
  qed
qed

end
