(* ===== verification/Crawl_Gate.thy ===== *)
theory Crawl_Gate
  imports Environment
begin

text \<open>
  \<open>can_crawl\<close> (\<open>src/search_data.py\<close>, lines 45--67): without the robots parser
  or a registered domain it allows; otherwise it fetches
  \<open>http://<domain>/robots.txt\<close> with a 15-second timeout and asks the parser
  whether the agent \<open>*\<close> may fetch the URL; every failure allows.
\<close>

definition robots_request :: "string \<Rightarrow> request" where
  "robots_request domain =
     \<lparr>req_url = ''http://'' @ domain @ ''/robots.txt'', req_headers = [],
      req_timeout = 15, req_stream = False\<rparr>"

definition can_crawl :: "'img env \<Rightarrow> url \<Rightarrow> io_log \<Rightarrow> bool \<times> io_log" where
  "can_crawl E url st =
     (if \<not> robots_parser_available E then (True, st)
      else
        let domain = registered_domain E url
        in if domain = [] then (True, st)
           else
             let (r, st1) = do_get E (robots_request domain) st
             in case r of
                  Raised e \<Rightarrow> (True, st1)
                | Response resp \<Rightarrow>
                    if resp_status resp = 200
                    then ((case robots_is_allowed E (resp_text resp) ''*'' url of
                             Inl e \<Rightarrow> True
                           | Inr allowed \<Rightarrow> allowed), st1)
                    else (True, st1))"

declare can_crawl_def [run_eval] robots_request_def [run_eval]

subsection \<open>Properties\<close>

text \<open>
  C7: The gate is fail-open: it denies exactly when the parser is available, the
  URL has a registered domain, the domain's \<open>robots.txt\<close> was served with status
  200 and the parser, asked without raising, says the agent \<open>*\<close> may not fetch
  the URL.
\<close>

theorem can_crawl_denies_iff:
  "(\<not> fst (can_crawl E url st)) \<longleftrightarrow>
     (robots_parser_available E \<and> registered_domain E url \<noteq> []
      \<and> (\<exists>resp. http_get E (length (sent st)) (robots_request (registered_domain E url)) = Response resp
             \<and> resp_status resp = 200
             \<and> robots_is_allowed E (resp_text resp) ''*'' url = Inr False))"
  by (auto simp: can_crawl_def do_get_def Let_def split: get_result.splits sum.splits)

text \<open>
  The gate sends at most one request, the domain's \<open>robots.txt\<close> with a
  15-second timeout and only when the parser is available and the domain is known;
  it prints nothing and never calls the classifier.
\<close>

theorem can_crawl_effects:
  "snd (can_crawl E url st) =
     st\<lparr>sent := sent st @
         (if robots_parser_available E \<and> registered_domain E url \<noteq> []
          then [robots_request (registered_domain E url)] else [])\<rparr>"
  by (auto simp: can_crawl_def do_get_def Let_def split: get_result.splits sum.splits)

lemma can_crawl_log:
  "printed (snd (can_crawl E url st)) = printed st"
  "scored (snd (can_crawl E url st)) = scored st"
  "files (snd (can_crawl E url st)) = files st"
  "sent (snd (can_crawl E url st)) = sent st @
     (if robots_parser_available E \<and> registered_domain E url \<noteq> []
      then [robots_request (registered_domain E url)] else [])"
  by (auto simp: can_crawl_def do_get_def Let_def split: get_result.splits sum.splits)

end
