(* ===== verification/Content_Fetcher.thy ===== *)
theory Content_Fetcher
  imports Format_Classifier Text_Extractors Crawl_Gate
begin

text \<open>
  \<open>fetch_full_text_requests\<close> (\<open>src/search_data.py\<close>, lines 161--205) and
  \<open>fetch_full_text\<close> (lines 207--218). The fetcher sends one GET with the header
  \<open>User-Agent: Mozilla/5.0\<close>, turns every failure into the empty string and a
  diagnostic, and otherwise dispatches on the format. \<open>USE_SELENIUM\<close> is the
  constant \<open>False\<close> (line 70), so \<open>fetch_full_text\<close> always takes the
  \<open>requests\<close> branch.
\<close>

definition fetch_request :: "url \<Rightarrow> nat \<Rightarrow> request" where
  "fetch_request url timeout =
     \<lparr>req_url = url, req_headers = [(''User-Agent'', ''Mozilla/5.0'')],
      req_timeout = timeout, req_stream = True\<rparr>"

text \<open>The two handlers of lines 200--205, in their order.\<close>

definition exc_diag :: "url \<Rightarrow> py_exc \<Rightarrow> diag" where
  "exc_diag url e = (case e of RequestException \<Rightarrow> ConnectionFailed url | _ \<Rightarrow> FetchFailed url)"

text \<open>Lines 180--185: the text layer first, OCR when it is blank.\<close>

definition extract_pdf :: "'img env \<Rightarrow> bytes \<Rightarrow> string \<times> diag list" where
  "extract_pdf E content_bytes =
     (let (text, ds) = parse_pdf_with_pdfplumber E content_bytes
      in if py_strip text = []
         then (let (text', ds') = parse_pdf_with_ocr E content_bytes
               in (text', ds @ PlumberNoText # ds'))
         else (text, ds))"

definition fetch_full_text_requests :: "'img env \<Rightarrow> url \<Rightarrow> nat \<Rightarrow> io_log \<Rightarrow> string \<times> io_log" where
  "fetch_full_text_requests E url timeout st =
     (let (r, st1) = do_get E (fetch_request url timeout) st
      in case r of
           Raised e \<Rightarrow> ([], emit [exc_diag url e] st1)
         | Response resp \<Rightarrow>
             if resp_status resp \<noteq> 200 then ([], emit [HttpError (resp_status resp)] st1)
             else
               let content_type = py_lower (case resp_content_type resp of None \<Rightarrow> [] | Some v \<Rightarrow> v)
               in (case resp_content resp of
                     Inl e \<Rightarrow> ([], emit [exc_diag url e] st1)
                   | Inr content_bytes \<Rightarrow>
                       (case classify_format content_type url of
                          PDF \<Rightarrow> let (text, ds) = extract_pdf E content_bytes in (text, emit ds st1)
                        | IMAGE \<Rightarrow> let (text, ds) = parse_image_with_ocr E content_bytes in (text, emit ds st1)
                        | HTML \<Rightarrow> (parse_html E (resp_text resp), st1)
                        | UNKNOWN \<Rightarrow> ([], emit [UnsupportedType content_type] st1))))"

definition fetch_full_text :: "'img env \<Rightarrow> url \<Rightarrow> nat \<Rightarrow> io_log \<Rightarrow> string \<times> io_log" where
  "fetch_full_text E url timeout st =
     (let (allowed, st1) = can_crawl E url st
      in if \<not> allowed then ([], emit [RobotsDisallowed url] st1)
         else fetch_full_text_requests E url timeout st1)"

text \<open>The content type the fetcher reads off a response (line 176).\<close>

definition resp_ctype :: "response \<Rightarrow> string" where
  "resp_ctype resp = py_lower (case resp_content_type resp of None \<Rightarrow> [] | Some v \<Rightarrow> v)"

declare fetch_request_def [run_eval] exc_diag_def [run_eval] extract_pdf_def [run_eval]
  fetch_full_text_requests_def [run_eval] fetch_full_text_def [run_eval]

subsection \<open>One request, then a function of the answer\<close>

text \<open>What the fetcher makes of the network's answer: the text and the diagnostics.\<close>

definition fetch_outcome :: "'img env \<Rightarrow> url \<Rightarrow> get_result \<Rightarrow> string \<times> diag list" where
  "fetch_outcome E url r =
     (case r of
        Raised e \<Rightarrow> ([], [exc_diag url e])
      | Response resp \<Rightarrow>
          if resp_status resp \<noteq> 200 then ([], [HttpError (resp_status resp)])
          else (case resp_content resp of
                  Inl e \<Rightarrow> ([], [exc_diag url e])
                | Inr content_bytes \<Rightarrow>
                    (case classify_format (resp_ctype resp) url of
                       PDF \<Rightarrow> extract_pdf E content_bytes
                     | IMAGE \<Rightarrow> parse_image_with_ocr E content_bytes
                     | HTML \<Rightarrow> (parse_html E (resp_text resp), [])
                     | UNKNOWN \<Rightarrow> ([], [UnsupportedType (resp_ctype resp)]))))"

lemma fetch_full_text_requests_outcome:
  "fetch_full_text_requests E url timeout st =
     (let r = http_get E (length (sent st)) (fetch_request url timeout);
          (text, ds) = fetch_outcome E url r
      in (text, emit ds (st\<lparr>sent := sent st @ [fetch_request url timeout]\<rparr>)))"
  by (simp add: fetch_full_text_requests_def fetch_outcome_def do_get_def resp_ctype_def Let_def
      split: get_result.split sum.split fmt.split prod.split)

lemma fetch_full_text_requests_log:
  "sent (snd (fetch_full_text_requests E url timeout st)) = sent st @ [fetch_request url timeout]"
  "scored (snd (fetch_full_text_requests E url timeout st)) = scored st"
  "files (snd (fetch_full_text_requests E url timeout st)) = files st"
  "printed (snd (fetch_full_text_requests E url timeout st)) =
     printed st @ snd (fetch_outcome E url (http_get E (length (sent st)) (fetch_request url timeout)))"
  "fst (fetch_full_text_requests E url timeout st) =
     fst (fetch_outcome E url (http_get E (length (sent st)) (fetch_request url timeout)))"
  by (simp_all add: fetch_full_text_requests_outcome split: prod.split)

lemma extract_pdf_eq:
  "extract_pdf E b =
     (if fst (parse_pdf_with_pdfplumber E b) = []
      then (fst (parse_pdf_with_ocr E b),
            snd (parse_pdf_with_pdfplumber E b) @ PlumberNoText # snd (parse_pdf_with_ocr E b))
      else parse_pdf_with_pdfplumber E b)"
proof -
  obtain t ds where p: "parse_pdf_with_pdfplumber E b = (t, ds)"
    by (cases "parse_pdf_with_pdfplumber E b")
  obtain t' ds' where o: "parse_pdf_with_ocr E b = (t', ds')"
    by (cases "parse_pdf_with_ocr E b")
  have "py_strip t = t"
    using extractors_stripped(1) [of E b] p by (simp add: py_strip_stripped)
  then show ?thesis
    using p o by (simp add: extract_pdf_def)
qed

lemma extract_pdf_stripped: "py_stripped (fst (extract_pdf E b))"
  by (simp add: extract_pdf_eq extractors_stripped)

lemma fetch_outcome_stripped: "py_stripped (fst (fetch_outcome E url r))"
  by (simp add: fetch_outcome_def extract_pdf_stripped extractors_stripped
      split: get_result.split sum.split fmt.split)

subsection \<open>Properties\<close>

text \<open>
  C1: For a PDF answer the fetcher runs the text-layer extractor and, exactly when
  its text is blank, prints a diagnostic and runs the OCR extractor, whose text it
  returns; otherwise it returns the text layer.
\<close>

theorem fetch_pdf_fallback:
  assumes "http_get E (length (sent st)) (fetch_request url timeout) = Response resp"
    and "resp_status resp = 200" and "resp_content resp = Inr b"
    and "classify_format (resp_ctype resp) url = PDF"
  shows "fetch_full_text_requests E url timeout st =
     (if fst (parse_pdf_with_pdfplumber E b) = []
      then (fst (parse_pdf_with_ocr E b),
            emit (snd (parse_pdf_with_pdfplumber E b) @ PlumberNoText # snd (parse_pdf_with_ocr E b))
              (st\<lparr>sent := sent st @ [fetch_request url timeout]\<rparr>))
      else (fst (parse_pdf_with_pdfplumber E b),
            emit (snd (parse_pdf_with_pdfplumber E b))
              (st\<lparr>sent := sent st @ [fetch_request url timeout]\<rparr>)))"
  using assms
  by (simp add: fetch_full_text_requests_outcome fetch_outcome_def extract_pdf_eq
      split: prod.split)

text \<open>
  C2: Every failure is recovered at the fetcher's boundary: a raising request, a
  status other than 200, a raising body read and an unsupported content type each
  give the empty string and exactly one diagnostic naming the failure.
\<close>

theorem fetch_failures_recovered:
  assumes "http_get E (length (sent st)) (fetch_request url timeout) = r"
  shows "(r = Raised e \<longrightarrow>
            fst (fetch_full_text_requests E url timeout st) = []
            \<and> printed (snd (fetch_full_text_requests E url timeout st)) = printed st @ [exc_diag url e])
       \<and> (r = Response resp \<and> resp_status resp \<noteq> 200 \<longrightarrow>
            fst (fetch_full_text_requests E url timeout st) = []
            \<and> printed (snd (fetch_full_text_requests E url timeout st))
                = printed st @ [HttpError (resp_status resp)])
       \<and> (r = Response resp \<and> resp_status resp = 200 \<and> resp_content resp = Inl e \<longrightarrow>
            fst (fetch_full_text_requests E url timeout st) = []
            \<and> printed (snd (fetch_full_text_requests E url timeout st)) = printed st @ [exc_diag url e])
       \<and> (r = Response resp \<and> resp_status resp = 200 \<and> resp_content resp = Inr b
            \<and> classify_format (resp_ctype resp) url = UNKNOWN \<longrightarrow>
            fst (fetch_full_text_requests E url timeout st) = []
            \<and> printed (snd (fetch_full_text_requests E url timeout st))
                = printed st @ [UnsupportedType (resp_ctype resp)])"
  using assms by (simp add: fetch_full_text_requests_log fetch_outcome_def)

text \<open>
  C17: The fetcher sends exactly one request, a streamed GET of the URL with the
  header \<open>User-Agent: Mozilla/5.0\<close> and the given timeout, never calls the
  classifier, and only appends to the diagnostics.
\<close>

theorem fetch_full_text_requests_effects:
  "sent (snd (fetch_full_text_requests E url timeout st)) =
     sent st @ [\<lparr>req_url = url, req_headers = [(''User-Agent'', ''Mozilla/5.0'')],
                 req_timeout = timeout, req_stream = True\<rparr>]
   \<and> scored (snd (fetch_full_text_requests E url timeout st)) = scored st
   \<and> prefix (printed st) (printed (snd (fetch_full_text_requests E url timeout st)))"
  by (simp add: fetch_full_text_requests_log fetch_request_def)

lemma fetch_full_text_eq:
  "fetch_full_text E url timeout st =
     (if fst (can_crawl E url st)
      then fetch_full_text_requests E url timeout (snd (can_crawl E url st))
      else ([], emit [RobotsDisallowed url] (snd (can_crawl E url st))))"
  by (simp add: fetch_full_text_def split: prod.split)

text \<open>
  C16: \<open>fetch_full_text\<close> consults the gate first: the requests it sends are the
  gate's \<open>robots.txt\<close> request, if any, followed by the fetch of the URL only when
  the gate allows; a denied URL yields the empty string and a diagnostic.
\<close>

theorem fetch_full_text_gate_first:
  "sent (snd (fetch_full_text E url timeout st)) =
     sent st
     @ (if robots_parser_available E \<and> registered_domain E url \<noteq> []
        then [robots_request (registered_domain E url)] else [])
     @ (if fst (can_crawl E url st) then [fetch_request url timeout] else [])
   \<and> (\<not> fst (can_crawl E url st) \<longrightarrow>
        fetch_full_text E url timeout st = ([], emit [RobotsDisallowed url] (snd (can_crawl E url st))))"
  by (simp add: fetch_full_text_eq fetch_full_text_requests_log can_crawl_log)

lemma fetch_full_text_log:
  "scored (snd (fetch_full_text E url timeout st)) = scored st"
  "files (snd (fetch_full_text E url timeout st)) = files st"
  "prefix (printed st) (printed (snd (fetch_full_text E url timeout st)))"
  by (simp_all add: fetch_full_text_eq fetch_full_text_requests_log can_crawl_log)

lemma fetch_outcome_no_skip: "\<not> list_ex is_skip (snd (fetch_outcome E url r))"
  by (simp add: fetch_outcome_def extract_pdf_eq extractors_no_skip exc_diag_def
      split: get_result.split sum.split fmt.split py_exc.split)

lemma fetch_full_text_printed:
  "\<exists>ds. printed (snd (fetch_full_text E url timeout st)) = printed st @ ds \<and> \<not> list_ex is_skip ds"
  by (simp add: fetch_full_text_eq fetch_full_text_requests_log can_crawl_log fetch_outcome_no_skip)

lemma fetch_full_text_stripped: "py_stripped (fst (fetch_full_text E url timeout st))"
  by (simp add: fetch_full_text_eq fetch_full_text_requests_log fetch_outcome_stripped)

text \<open>
  The fetched text has no whitespace at either end, so it is empty exactly when
  it is blank: the pipeline's \<open>if not full_text\<close> and the scorer's
  \<open>if not text.strip()\<close> agree on it.
\<close>

theorem fetch_full_text_blank_iff_empty:
  "py_strip (fst (fetch_full_text E url timeout st)) = [] \<longleftrightarrow> fst (fetch_full_text E url timeout st) = []"
  by (simp add: py_strip_stripped fetch_full_text_stripped)

end
