(* ===== verification/Relevance_Scorer.thy ===== *)
theory Relevance_Scorer
  imports Environment
begin

text \<open>
  \<open>get_relate_domain_score\<close> (\<open>src/search_data.py\<close>, lines 20--36): a blank
  text scores 0.0 without the classifier; otherwise the label string is split at
  every space, fewer than two fields raise \<open>ValueError\<close>, and the classifier is
  called on the first two fields; the score returned is the one listed for the
  first field. The call is recorded in the log's \<open>scored\<close> field.
\<close>

definition labels_error :: py_exc where
  "labels_error = ValueError ''target_labels must contain at least two elements.''"

definition get_relate_domain_score ::
  "'img env \<Rightarrow> string \<Rightarrow> string \<Rightarrow> io_log \<Rightarrow> (py_exc + real) \<times> io_log" where
  "get_relate_domain_score E text binary_labels st =
     (if py_strip text = [] then (Inr 0, st)
      else
        let target_labels = py_split_on (CHR '' '') binary_labels
        in if 2 \<le> length target_labels
           then
             let labels = [target_labels ! 0, target_labels ! 1];
                 st1 = st\<lparr>scored := scored st @ [(text, labels)]\<rparr>
             in case classifier E text labels of
                  Inl e \<Rightarrow> (Inl e, st1)
                | Inr (result_labels, result_scores) \<Rightarrow>
                    (case py_index result_labels (target_labels ! 0) of
                       Inl e \<Rightarrow> (Inl e, st1)
                     | Inr relation_idx \<Rightarrow> (py_get result_scores relation_idx, st1))
           else (Inl labels_error, st))"

declare get_relate_domain_score_def [run_eval] labels_error_def [run_eval]

subsection \<open>Properties\<close>

lemma length_py_split_on_space:
  "2 \<le> length (py_split_on (CHR '' '') s) \<longleftrightarrow> CHR '' '' \<in> set s"
proof -
  have "count_list s (CHR '' '') \<noteq> 0 \<longleftrightarrow> CHR '' '' \<in> set s"
    by (simp add: count_list_0_iff)
  then show ?thesis
    by (simp add: length_py_split_on Suc_le_eq)
qed

lemma get_relate_domain_score_log:
  "printed (snd (get_relate_domain_score E text labels st)) = printed st"
  "sent (snd (get_relate_domain_score E text labels st)) = sent st"
  "files (snd (get_relate_domain_score E text labels st)) = files st"
  "scored (snd (get_relate_domain_score E text labels st)) =
     scored st @ (if py_strip text \<noteq> [] \<and> CHR '' '' \<in> set labels
                  then [(text, [py_split_on (CHR '' '') labels ! 0, py_split_on (CHR '' '') labels ! 1])]
                  else [])"
  by (auto simp: get_relate_domain_score_def Let_def length_py_split_on_space
      split: sum.split prod.split)

lemma score_Inr_labels:
  "fst (get_relate_domain_score E text binary_labels st) = Inr s \<Longrightarrow> py_strip text \<noteq> [] \<Longrightarrow>
   CHR '' '' \<in> set binary_labels"
  by (auto simp: get_relate_domain_score_def Let_def length_py_split_on_space split: if_splits)

text \<open>
  C13: A blank text scores 0 and leaves the state unchanged: the classifier is not
  called, whatever the labels are.
\<close>

theorem score_blank_text:
  "py_strip text = [] \<Longrightarrow> get_relate_domain_score E text binary_labels st = (Inr 0, st)"
  by (simp add: get_relate_domain_score_def)

text \<open>
  C14: A non-blank text with a label string of fewer than two space-separated fields
  raises \<open>ValueError\<close> before any classifier call.
\<close>

theorem score_too_few_labels:
  "py_strip text \<noteq> [] \<Longrightarrow> CHR '' '' \<notin> set binary_labels \<Longrightarrow>
   get_relate_domain_score E text binary_labels st = (Inl labels_error, st)"
  by (simp add: get_relate_domain_score_def length_py_split_on_space [symmetric] Let_def)

text \<open>
  C12: When the classifier answers with a probability for each label it was given,
  the score is the probability listed first for the first label, it lies in
  \<open>[0, 1]\<close>, and the classifier was called once, on the text and the first two
  fields of the label string.
\<close>

theorem score_in_unit_interval:
  assumes "py_strip text \<noteq> []"
    and "py_split_on (CHR '' '') binary_labels = a # b # rest"
    and "classifier E text [a, b] = Inr (ls, ss)"
    and "a \<in> set ls" and "length ls = length ss"
    and "list_all (\<lambda>s. 0 \<le> s \<and> s \<le> 1) ss"
  shows "\<exists>i s. py_index ls a = Inr i \<and> ss ! i = s
           \<and> get_relate_domain_score E text binary_labels st
               = (Inr s, st\<lparr>scored := scored st @ [(text, [a, b])]\<rparr>)
           \<and> 0 \<le> s \<and> s \<le> 1"
proof -
  obtain i where i: "py_index ls a = Inr i"
    using py_index_member [OF assms(4)] by blast
  with assms(5) have "i < length ss"
    using py_index_Inr [OF i] by simp
  with assms(6) have "0 \<le> ss ! i \<and> ss ! i \<le> 1"
    by (simp add: list_all_length)
  with assms(1-3) i \<open>i < length ss\<close> show ?thesis
    by (simp add: get_relate_domain_score_def Let_def)
qed

text \<open>
  C24: Only the first two space-separated fields reach the classifier: a label such
  as \<open>Academic Paper\<close> cannot be expressed, and the rest of the string is
  ignored.
\<close>

theorem score_uses_first_two_fields:
  "py_strip text \<noteq> [] \<Longrightarrow> py_split_on (CHR '' '') binary_labels = a # b # rest \<Longrightarrow>
   scored (snd (get_relate_domain_score E text binary_labels st)) = scored st @ [(text, [a, b])]"
  by (simp add: get_relate_domain_score_def Let_def split: sum.split prod.split)

end
