(* ===== verification/Acquisition_Pipeline.thy ===== *)
theory Acquisition_Pipeline
  imports Content_Fetcher Relevance_Scorer
begin

text \<open>
  \<open>search_duckduckgo\<close> (\<open>src/search_data.py\<close>, lines 220--260): for each search
  hit, in order, fetch its text through the gate; skip the hit with a diagnostic when
  the text is empty; otherwise score the text and append a record. An exception of
  the scorer (or of the search) ends the whole call, discarding what was collected.
\<close>

record result_record =
  title :: string
  link :: url
  snippet :: string
  full_text :: string
  academic_score :: real

text \<open>\<open>r.get(key, "")\<close>.\<close>

definition dict_get :: "string option \<Rightarrow> string" where
  "dict_get v = (case v of None \<Rightarrow> [] | Some s \<Rightarrow> s)"

text \<open>The loop of lines 240--259; \<open>fetch_full_text(link)\<close> uses its default timeout 10.\<close>

fun process_hits ::
  "'img env \<Rightarrow> string \<Rightarrow> raw_hit list \<Rightarrow> io_log \<Rightarrow> (py_exc + result_record list) \<times> io_log" where
  "process_hits E binary_labels [] st = (Inr [], st)"
| "process_hits E binary_labels (r # rs) st =
     (let title = dict_get (rh_title r);
          link = dict_get (rh_href r);
          snippet = dict_get (rh_body r);
          (full_text, st1) = fetch_full_text E link 10 st
      in if full_text = [] then process_hits E binary_labels rs (emit [SkippedHit link] st1)
         else
           (case get_relate_domain_score E full_text binary_labels st1 of
              (Inl e, st2) \<Rightarrow> (Inl e, st2)
            | (Inr relate_score, st2) \<Rightarrow>
                (case process_hits E binary_labels rs st2 of
                   (Inl e, st3) \<Rightarrow> (Inl e, st3)
                 | (Inr results, st3) \<Rightarrow>
                     (Inr (\<lparr>title = title, link = link, snippet = snippet,
                            full_text = full_text, academic_score = relate_score\<rparr> # results),
                      st3))))"

definition search_duckduckgo ::
  "'img env \<Rightarrow> string \<Rightarrow> string \<Rightarrow> int \<Rightarrow> io_log \<Rightarrow> (py_exc + result_record list) \<times> io_log" where
  "search_duckduckgo E query binary_labels max_results st =
     (case ddgs_text E query max_results of
        Inl e \<Rightarrow> (Inl e, st)
      | Inr raw_results \<Rightarrow> process_hits E binary_labels raw_results st)"

declare dict_get_def [run_eval] search_duckduckgo_def [run_eval]

subsection \<open>One hit at a time\<close>

definition mk_record :: "raw_hit \<Rightarrow> string \<Rightarrow> real \<Rightarrow> result_record" where
  "mk_record r ft s =
     \<lparr>title = dict_get (rh_title r), link = dict_get (rh_href r), snippet = dict_get (rh_body r),
      full_text = ft, academic_score = s\<rparr>"

lemma process_hits_Cons_Inr:
  assumes "process_hits E L (r # rs) st = (Inr recs, st')"
  obtains (skip) st1 where
      "fetch_full_text E (dict_get (rh_href r)) 10 st = ([], st1)"
      "process_hits E L rs (emit [SkippedHit (dict_get (rh_href r))] st1) = (Inr recs, st')"
  | (keep) ft st1 s st2 res where
      "fetch_full_text E (dict_get (rh_href r)) 10 st = (ft, st1)" "ft \<noteq> []"
      "get_relate_domain_score E ft L st1 = (Inr s, st2)"
      "process_hits E L rs st2 = (Inr res, st')" "recs = mk_record r ft s # res"
  using assms
  by (auto simp: Let_def mk_record_def split: prod.splits if_splits sum.splits)

lemma fetch_full_text_fst_snd:
  "fetch_full_text E u t st = (ft, st1) \<Longrightarrow>
     py_stripped ft \<and> scored st1 = scored st
     \<and> (\<exists>ds. printed st1 = printed st @ ds \<and> \<not> list_ex is_skip ds)"
  using fetch_full_text_stripped [of E u t st] fetch_full_text_log(1) [of E u t st]
    fetch_full_text_printed [of E u t st]
  by simp

lemma score_fst_snd:
  "get_relate_domain_score E ft L st1 = (Inr s, st2) \<Longrightarrow> py_stripped ft \<Longrightarrow> ft \<noteq> [] \<Longrightarrow>
     printed st2 = printed st1 \<and> scored st2 = scored st1 @ [(ft, [py_split_on (CHR '' '') L ! 0, py_split_on (CHR '' '') L ! 1])]"
  using get_relate_domain_score_log [of E ft L st1] score_Inr_labels [of E ft L st1 s]
  by (simp add: py_strip_stripped)

text \<open>The search writes no file.\<close>

lemma process_hits_files: "files (snd (process_hits E L hs st)) = files st"
proof (induction hs arbitrary: st)
  case (Cons h hs)
  have ft: "fetch_full_text E u t s = (x, s') \<Longrightarrow> files s' = files s" for u t s x s'
    using fetch_full_text_log(2) [of E u t s] by simp
  have sc: "get_relate_domain_score E x L s = (y, s') \<Longrightarrow> files s' = files s" for x s y s'
    using get_relate_domain_score_log(3) [of E x L s] by simp
  have ph: "process_hits E L hs s = (y, s') \<Longrightarrow> files s' = files s" for s y s'
    using Cons.IH [of s] by simp
  show ?case
    using Cons.IH by (auto simp: Let_def split: prod.split sum.split dest!: ft sc ph)
qed simp

lemma search_duckduckgo_files: "files (snd (search_duckduckgo E q L n st)) = files st"
  by (simp add: search_duckduckgo_def process_hits_files split: sum.split)

subsection \<open>Properties\<close>

text \<open>
  C4: The pipeline is a stable filter of the search results: the links of the
  records it returns are a subsequence of the links of the hits, in the search's
  order, so there are never more records than hits.
\<close>

theorem search_duckduckgo_order:
  assumes "search_duckduckgo E query L n st = (Inr recs, st')"
  shows "\<exists>hits. ddgs_text E query n = Inr hits
           \<and> subseq (map link recs) (map (dict_get \<circ> rh_href) hits)
           \<and> length recs \<le> length hits"
proof -
  have sub: "process_hits E L hits st = (Inr recs, st') \<Longrightarrow>
      subseq (map link recs) (map (dict_get \<circ> rh_href) hits)" for hits
  proof (induction hits arbitrary: st recs)
    case (Cons r rs)
    from Cons.prems show ?case
    proof (cases rule: process_hits_Cons_Inr)
      case (skip st1)
      then show ?thesis using Cons.IH by (simp add: list_emb_Cons)
    next
      case (keep ft st1 s st2 res)
      then show ?thesis using Cons.IH by (simp add: mk_record_def)
    qed
  qed simp
  from assms obtain hits where "ddgs_text E query n = Inr hits"
    and "process_hits E L hits st = (Inr recs, st')"
    by (auto simp: search_duckduckgo_def split: sum.splits)
  with sub show ?thesis
    by (metis length_map list_emb_length)
qed

text \<open>
  C5: Every record the pipeline returns carries a non-empty text with no
  whitespace at either end: hits whose fetch gave nothing are never emitted.
\<close>

theorem process_hits_records_nonempty:
  "process_hits E L hits st = (Inr recs, st') \<Longrightarrow>
   list_all (\<lambda>rec. full_text rec \<noteq> [] \<and> py_strip (full_text rec) = full_text rec) recs"
proof (induction hits arbitrary: st recs)
  case (Cons r rs)
  from Cons.prems show ?case
  proof (cases rule: process_hits_Cons_Inr)
    case (skip st1)
    then show ?thesis using Cons.IH by simp
  next
    case (keep ft st1 s st2 res)
    then have "py_stripped ft" by (blast dest: fetch_full_text_fst_snd)
    with keep show ?thesis using Cons.IH by (simp add: mk_record_def py_strip_stripped)
  qed
qed simp

text \<open>
  C19: The classifier is called exactly once per record returned, on a successful
  run: no hit is scored twice and no skipped hit is scored.
\<close>

theorem process_hits_one_score_per_record:
  "process_hits E L hits st = (Inr recs, st') \<Longrightarrow>
   length (scored st') = length (scored st) + length recs"
proof (induction hits arbitrary: st recs)
  case (Cons r rs)
  from Cons.prems show ?case
  proof (cases rule: process_hits_Cons_Inr)
    case (skip st1)
    with Cons.IH show ?thesis by (fastforce dest: fetch_full_text_fst_snd)
  next
    case (keep ft st1 s st2 res)
    with Cons.IH show ?thesis by (fastforce dest: fetch_full_text_fst_snd score_fst_snd)
  qed
qed simp

text \<open>
  C6: On a successful run every hit is accounted for: it yields a record or one
  skip diagnostic, so the records and the skip diagnostics printed add up to the
  number of hits.
\<close>

theorem process_hits_accounts_every_hit:
  "process_hits E L hits st = (Inr recs, st') \<Longrightarrow>
   \<exists>ds. printed st' = printed st @ ds \<and> length recs + length (filter is_skip ds) = length hits"
proof (induction hits arbitrary: st recs)
  case (Cons r rs)
  from Cons.prems show ?case
  proof (cases rule: process_hits_Cons_Inr)
    case (skip st1)
    then obtain ds where ds: "printed st1 = printed st @ ds" "\<not> list_ex is_skip ds"
      by (blast dest: fetch_full_text_fst_snd)
    from skip Cons.IH obtain ds' where "printed st' = printed st1 @ [SkippedHit (dict_get (rh_href r))] @ ds'"
      "length recs + length (filter is_skip ds') = length rs"
      by fastforce
    with ds show ?thesis
      by (auto simp: list_ex_iff filter_empty_conv intro!: exI [of _ "ds @ SkippedHit (dict_get (rh_href r)) # ds'"])
  next
    case (keep ft st1 s st2 res)
    then obtain ds where ds: "printed st1 = printed st @ ds" "\<not> list_ex is_skip ds" "py_stripped ft"
      by (blast dest: fetch_full_text_fst_snd)
    with keep have "printed st2 = printed st1"
      by (blast dest: score_fst_snd)
    moreover from keep Cons.IH obtain ds' where "printed st' = printed st2 @ ds'"
      "length res + length (filter is_skip ds') = length rs"
      by blast
    ultimately show ?thesis
      using ds keep by (auto simp: list_ex_iff filter_empty_conv intro!: exI [of _ "ds @ ds'"])
  qed
qed simp

text \<open>
  C25: A label string without a space is only an error once a hit has text: a
  successful run with such labels returned no record at all.
\<close>

theorem process_hits_bad_labels:
  "CHR '' '' \<notin> set L \<Longrightarrow> process_hits E L hits st = (Inr recs, st') \<Longrightarrow> recs = []"
proof (induction hits arbitrary: st recs)
  case (Cons r rs)
  from Cons.prems(2) show ?case
  proof (cases rule: process_hits_Cons_Inr)
    case (skip st1)
    with Cons show ?thesis by blast
  next
    case (keep ft st1 s st2 res)
    then have "py_stripped ft" by (blast dest: fetch_full_text_fst_snd)
    with keep have "CHR '' '' \<in> set L"
      by (intro score_Inr_labels [of E ft L st1 s]) (simp_all add: py_strip_stripped)
    with Cons.prems(1) show ?thesis by simp
  qed
qed simp

end
