(* ===== verification/Search_Loop.thy ===== *)
theory Search_Loop
  imports Acquisition_Pipeline
begin

text \<open>
  The loop of \<open>search_duckduckgo\<close> (\<open>src/search_data.py\<close>, lines 231 and
  240--260) as the program runs it: a configuration holds the hits still to
  visit, the list \<open>results\<close> built so far by \<open>results.append\<close>, and the
  log; one step handles one hit (\<open>continue\<close> on an empty text, append after
  scoring) or leaves the loop (the hits exhausted, or the scorer raising). The
  recursive \<open>process_hits\<close> of \<open>Acquisition_Pipeline\<close> computes exactly the
  final configuration of this relation, and the loop invariants are proved here by
  rule induction over its runs.
\<close>

record loop_state =
  pending :: "raw_hit list"
  results :: "result_record list"
  loop_log :: io_log

datatype loop_cfg =
    Running loop_state
  | Finished "py_exc + result_record list" io_log

inductive loop_step :: "'img env \<Rightarrow> string \<Rightarrow> loop_cfg \<Rightarrow> loop_cfg \<Rightarrow> bool"
  for E :: "'img env" and binary_labels :: string where
  skip: "fetch_full_text E (dict_get (rh_href r)) 10 st = ([], st1) \<Longrightarrow>
     loop_step E binary_labels
       (Running \<lparr>pending = r # rs, results = acc, loop_log = st\<rparr>)
       (Running \<lparr>pending = rs, results = acc,
                 loop_log = emit [SkippedHit (dict_get (rh_href r))] st1\<rparr>)"
| append: "fetch_full_text E (dict_get (rh_href r)) 10 st = (ft, st1) \<Longrightarrow> ft \<noteq> [] \<Longrightarrow>
     get_relate_domain_score E ft binary_labels st1 = (Inr s, st2) \<Longrightarrow>
     loop_step E binary_labels
       (Running \<lparr>pending = r # rs, results = acc, loop_log = st\<rparr>)
       (Running \<lparr>pending = rs, results = acc @ [mk_record r ft s], loop_log = st2\<rparr>)"
| raise: "fetch_full_text E (dict_get (rh_href r)) 10 st = (ft, st1) \<Longrightarrow> ft \<noteq> [] \<Longrightarrow>
     get_relate_domain_score E ft binary_labels st1 = (Inl e, st2) \<Longrightarrow>
     loop_step E binary_labels
       (Running \<lparr>pending = r # rs, results = acc, loop_log = st\<rparr>)
       (Finished (Inl e) st2)"
| return: "loop_step E binary_labels
       (Running \<lparr>pending = [], results = acc, loop_log = st\<rparr>)
       (Finished (Inr acc) st)"

inductive_cases loop_step_FinishedE [elim!]: "loop_step E L (Finished res st) c"
inductive_cases loop_step_RunningE: "loop_step E L (Running s) c"

text \<open>The loop started on the hits of a search, as at line 231.\<close>

definition loop_start :: "raw_hit list \<Rightarrow> io_log \<Rightarrow> loop_cfg" where
  "loop_start hits st = Running \<lparr>pending = hits, results = [], loop_log = st\<rparr>"

subsection \<open>Determinism and the final configuration\<close>

lemma loop_step_Finished_final [simp]: "\<not> loop_step E L (Finished res st) c"
  by blast

lemma loop_step_det:
  "loop_step E L c c1 \<Longrightarrow> loop_step E L c c2 \<Longrightarrow> c1 = c2"
  by (induction rule: loop_step.induct) (auto elim: loop_step.cases)

text \<open>
  The function and the relation: from any configuration whose hits are \<open>hits\<close>,
  the loop reaches the final configuration that \<open>process_hits\<close> computes, with the
  records already collected in front.
\<close>

lemma process_hits_steps:
  "process_hits E L hits st = (res, st') \<Longrightarrow>
   (loop_step E L)\<^sup>*\<^sup>* (Running \<lparr>pending = hits, results = acc, loop_log = st\<rparr>)
                      (Finished (map_sum id ((@) acc) res) st')"
proof (induction hits arbitrary: st acc res st')
  case Nil
  then show ?case using loop_step.return by fastforce
next
  case (Cons r rs)
  obtain ft st1 where ft: "fetch_full_text E (dict_get (rh_href r)) 10 st = (ft, st1)"
    by fastforce
  show ?case
  proof (cases "ft = []")
    case True
    let ?st1' = "emit [SkippedHit (dict_get (rh_href r))] st1"
    have step: "loop_step E L (Running \<lparr>pending = r # rs, results = acc, loop_log = st\<rparr>)
        (Running \<lparr>pending = rs, results = acc, loop_log = ?st1'\<rparr>)"
      using loop_step.skip ft True by blast
    from Cons.prems ft True have "process_hits E L rs ?st1' = (res, st')"
      by (simp add: Let_def)
    from Cons.IH [OF this, of acc] step show ?thesis
      by (rule converse_rtranclp_into_rtranclp [rotated])
  next
    case False
    obtain sc st2 where sc: "get_relate_domain_score E ft L st1 = (sc, st2)" by fastforce
    show ?thesis
    proof (cases sc)
      case (Inl e)
      have step: "loop_step E L (Running \<lparr>pending = r # rs, results = acc, loop_log = st\<rparr>)
          (Finished (Inl e) st2)"
        using loop_step.raise [OF ft False] sc Inl by simp
      from Cons.prems ft sc False Inl have "res = Inl e" "st' = st2"
        by (simp_all add: Let_def)
      with step show ?thesis by auto
    next
      case (Inr s)
      obtain res' st3 where rest: "process_hits E L rs st2 = (res', st3)" by fastforce
      have step: "loop_step E L (Running \<lparr>pending = r # rs, results = acc, loop_log = st\<rparr>)
          (Running \<lparr>pending = rs, results = acc @ [mk_record r ft s], loop_log = st2\<rparr>)"
        using loop_step.append [OF ft False] sc Inr by simp
      from Cons.prems ft sc False Inr rest
      have "res = map_sum id ((#) (mk_record r ft s)) res'" "st' = st3"
        by (auto simp: Let_def mk_record_def split: sum.splits)
      with Cons.IH [OF rest, of "acc @ [mk_record r ft s]"] step show ?thesis
        by (cases res') (auto intro: converse_rtranclp_into_rtranclp)
    qed
  qed
qed

lemma map_sum_id_Nil_append [simp]: "map_sum id ((@) []) x = x"
  by (cases x) simp_all

lemma process_hits_start_steps:
  "(loop_step E L)\<^sup>*\<^sup>* (loop_start hits st)
     (Finished (fst (process_hits E L hits st)) (snd (process_hits E L hits st)))"
  using process_hits_steps [of E L hits st _ _ "[]"] by (simp add: loop_start_def)

subsection \<open>The loop invariant\<close>

text \<open>
  What holds at every configuration of a run: each collected record has a
  non-empty text with no surrounding whitespace; the classifier has been called
  once per record (\<open>j\<close> calls before the loop); and the records, the skip
  diagnostics printed and the hits still pending add up to \<open>k\<close>, the hits plus
  the skips printed before the loop.
\<close>

definition records_ok :: "result_record list \<Rightarrow> bool" where
  "records_ok recs = list_all (\<lambda>rec. full_text rec \<noteq> [] \<and> py_stripped (full_text rec)) recs"

fun loop_inv :: "nat \<Rightarrow> nat \<Rightarrow> loop_cfg \<Rightarrow> bool" where
  "loop_inv j k (Running s) =
     (records_ok (results s)
      \<and> length (scored (loop_log s)) = j + length (results s)
      \<and> length (results s) + length (filter is_skip (printed (loop_log s))) + length (pending s) = k)"
| "loop_inv j k (Finished (Inr recs) st) =
     (records_ok recs \<and> length (scored st) = j + length recs
      \<and> length recs + length (filter is_skip (printed st)) = k)"
| "loop_inv j k (Finished (Inl e) st) = True"

lemma loop_inv_step:
  assumes "loop_step E L c c'" and "loop_inv j k c"
  shows "loop_inv j k c'"
  using assms
proof (cases rule: loop_step.cases)
  case (skip r st st1 rs acc)
  then obtain ds where "printed st1 = printed st @ ds" "\<not> list_ex is_skip ds" "scored st1 = scored st"
    by (blast dest: fetch_full_text_fst_snd)
  with skip assms(2) show ?thesis
    by (auto simp: list_ex_iff filter_empty_conv)
next
  case (append r st ft st1 s st2 rs acc)
  then obtain ds where ds: "printed st1 = printed st @ ds" "\<not> list_ex is_skip ds"
      "scored st1 = scored st" "py_stripped ft"
    by (blast dest: fetch_full_text_fst_snd)
  with append have "printed st2 = printed st1" "length (scored st2) = Suc (length (scored st1))"
    by (auto dest: score_fst_snd)
  with ds append assms(2) show ?thesis
    by (auto simp: records_ok_def mk_record_def list_ex_iff filter_empty_conv)
qed auto

subsection \<open>The loop against \<open>process_hits\<close>\<close>

text \<open>
  The recursive \<open>process_hits\<close> implements the loop: a run of the loop from
  the hits of a search ends in a given result and log exactly when
  \<open>process_hits\<close> returns that result and log.
\<close>

theorem loop_refines_process_hits:
  "(loop_step E L)\<^sup>*\<^sup>* (loop_start hits st) (Finished res st')
   \<longleftrightarrow> process_hits E L hits st = (res, st')"
proof
  assume run: "(loop_step E L)\<^sup>*\<^sup>* (loop_start hits st) (Finished res st')"
  have "Finished res st' = Finished (fst (process_hits E L hits st)) (snd (process_hits E L hits st))"
    by (rule rtranclp_det_final [OF loop_step_det run process_hits_start_steps]) simp_all
  then show "process_hits E L hits st = (res, st')" by simp
next
  assume "process_hits E L hits st = (res, st')"
  from process_hits_steps [OF this, of "[]"] show "(loop_step E L)\<^sup>*\<^sup>* (loop_start hits st) (Finished res st')"
    by (simp add: loop_start_def)
qed

lemma loop_state_eta [simp]:
  "\<lparr>pending = pending s, results = results s, loop_log = loop_log s\<rparr> = s"
  by (cases s) simp

lemma loop_step_consumes:
  "loop_step E L (Running s) (Running s') \<Longrightarrow> length (pending s') < length (pending s)"
  by (auto elim: loop_step.cases)

text \<open>
  The loop makes progress: a configuration that is still running always has a
  next step, and a step that does not leave the loop has consumed a hit.
\<close>

theorem loop_step_progress:
  "\<exists>c'. loop_step E L (Running s) c'
        \<and> (\<forall>s'. c' = Running s' \<longrightarrow> length (pending s') < length (pending s))"
proof -
  obtain res st' where "process_hits E L (pending s) (loop_log s) = (res, st')" by fastforce
  from process_hits_steps [OF this, of "results s"]
  have run: "(loop_step E L)\<^sup>*\<^sup>* (Running s) (Finished (map_sum id ((@) (results s)) res) st')"
    by simp
  then obtain c' where "loop_step E L (Running s) c'"
    by (cases rule: converse_rtranclpE) auto
  then show ?thesis using loop_step_consumes by blast
qed

text \<open>
  The loop always ends: from every configuration, in any environment, a run
  reaches a final configuration; in particular every search's loop does.
\<close>

theorem loop_terminates:
  "\<exists>res st'. (loop_step E L)\<^sup>*\<^sup>* c (Finished res st')"
proof (cases c)
  case (Running s)
  obtain res st' where "process_hits E L (pending s) (loop_log s) = (res, st')" by fastforce
  from process_hits_steps [OF this, of "results s"] Running show ?thesis by auto
qed auto

text \<open>
  The loop invariant holds in every configuration a run reaches: the records
  collected have non-empty stripped texts, one classifier call each, and together
  with the skip diagnostics and the hits still pending account for every hit.
\<close>

theorem loop_inv_reachable:
  assumes "(loop_step E L)\<^sup>*\<^sup>* (loop_start hits st) c"
  shows "loop_inv (length (scored st)) (length hits + length (filter is_skip (printed st))) c"
  using assms
proof (induction rule: rtranclp_induct)
  case base
  then show ?case by (simp add: loop_start_def records_ok_def)
next
  case (step c c')
  from step.hyps(2) step.IH show ?case by (rule loop_inv_step)
qed

end
