(* ===== verification/Pipeline_Spec.thy ===== *)
theory Pipeline_Spec
  imports Acquisition_Pipeline
begin

text \<open>
  What the search loop of \<open>search_duckduckgo\<close> (\<open>src/search_data.py\<close>, lines
  240--259) promises, stated apart from the loop. \<open>pipeline_spec\<close> is the
  specification's contract (section 5): the records are the hits whose text is
  non-empty, in order, each with its score, and the first exception of the
  scorer is the result. \<open>hit_requests\<close> is the traffic one hit causes: the
  gate's \<open>robots.txt\<close> request, when there is a parser and a domain, and the page
  request when the gate allows.
\<close>

text \<open>The text a hit's link yields, and the score of a text, as pure functions.\<close>

definition hit_text :: "'img env \<Rightarrow> raw_hit \<Rightarrow> string" where
  "hit_text E h = fst (fetch_full_text E (dict_get (rh_href h)) 10 empty_log)"

definition text_score :: "'img env \<Rightarrow> string \<Rightarrow> string \<Rightarrow> py_exc + real" where
  "text_score E L t = fst (get_relate_domain_score E t L empty_log)"

fun first_error :: "('e + 'a) list \<Rightarrow> 'e + 'a list" where
  "first_error [] = Inr []"
| "first_error (x # xs) = (case x of Inl e \<Rightarrow> Inl e | Inr a \<Rightarrow> map_sum id ((#) a) (first_error xs))"

definition pipeline_spec :: "'img env \<Rightarrow> string \<Rightarrow> raw_hit list \<Rightarrow> py_exc + result_record list" where
  "pipeline_spec E L hs =
     first_error (map (\<lambda>h. map_sum id (mk_record h (hit_text E h)) (text_score E L (hit_text E h)))
                      (filter (\<lambda>h. hit_text E h \<noteq> []) hs))"

definition hit_requests :: "'img env \<Rightarrow> url \<Rightarrow> bool \<Rightarrow> request list" where
  "hit_requests E u allowed =
     (if robots_parser_available E \<and> registered_domain E u \<noteq> []
      then [robots_request (registered_domain E u)] else [])
     @ (if allowed then [fetch_request u 10] else [])"

subsection \<open>One hit\<close>

lemma can_crawl_denied:
  "\<not> fst (can_crawl E u st) \<Longrightarrow> robots_parser_available E \<and> registered_domain E u \<noteq> []"
  by (auto simp: can_crawl_def Let_def split: if_splits)

lemma fetch_full_text_sent:
  "sent (snd (fetch_full_text E u 10 st)) = sent st @ hit_requests E u (fst (can_crawl E u st))"
  by (simp add: fetch_full_text_eq fetch_full_text_requests_log can_crawl_log hit_requests_def)

lemma fetch_full_text_sends:
  "length (sent st) < length (sent (snd (fetch_full_text E u 10 st)))"
  using can_crawl_denied [of E u st] by (simp add: fetch_full_text_sent hit_requests_def)

lemma fetch_full_text_empty_denied:
  "fst (fetch_full_text E u t st) \<noteq> [] \<Longrightarrow> fst (can_crawl E u st)"
  by (auto simp: fetch_full_text_eq split: if_splits)

text \<open>On a network that answers the same at every moment, a fetch does not depend on the log.\<close>

lemma fetch_full_text_time_independent:
  assumes "\<forall>n. http_get E n = http_get E 0"
  shows "fst (fetch_full_text E u t st) = fst (fetch_full_text E u t empty_log)"
proof -
  obtain G where g: "http_get E = (\<lambda>_. G)"
    using assms by (metis ext)
  have "fst (can_crawl E u st) = fst (can_crawl E u empty_log)"
    by (simp add: can_crawl_def do_get_def Let_def g split: get_result.split)
  then show ?thesis
    by (simp add: fetch_full_text_eq fetch_full_text_requests_log g)
qed

lemma score_state_independent:
  "fst (get_relate_domain_score E t L st) = fst (get_relate_domain_score E t L st')"
  by (simp add: get_relate_domain_score_def Let_def split: sum.split prod.split)

lemma process_hits_Cons_cases:
  assumes "process_hits E L (h # hs) st = (r, st')"
    and "fetch_full_text E (dict_get (rh_href h)) 10 st = (ft, st1)"
  obtains (skip) "ft = []" "process_hits E L hs (emit [SkippedHit (dict_get (rh_href h))] st1) = (r, st')"
  | (raise) e where "ft \<noteq> []" "get_relate_domain_score E ft L st1 = (Inl e, st')" "r = Inl e"
  | (keep) s st2 r' where "ft \<noteq> []" "get_relate_domain_score E ft L st1 = (Inr s, st2)"
      "process_hits E L hs st2 = (r', st')" "r = map_sum id ((#) (mk_record h ft s)) r'"
proof -
  have eq: "process_hits E L (h # hs) st =
     (if ft = [] then process_hits E L hs (emit [SkippedHit (dict_get (rh_href h))] st1)
      else (case get_relate_domain_score E ft L st1 of
              (Inl e, st2) \<Rightarrow> (Inl e, st2)
            | (Inr s, st2) \<Rightarrow> (case process_hits E L hs st2 of
                                  (Inl e, st3) \<Rightarrow> (Inl e, st3)
                                | (Inr res, st3) \<Rightarrow>
                                    (Inr (\<lparr>title = dict_get (rh_title h), link = dict_get (rh_href h),
                                            snippet = dict_get (rh_body h), full_text = ft,
                                            academic_score = s\<rparr> # res), st3))))"
    using assms(2) by (simp add: Let_def)
  show thesis
  proof (cases "ft = []")
    case True
    with assms(1) eq show thesis by (intro skip) simp_all
  next
    case False
    obtain x st2 where sc: "get_relate_domain_score E ft L st1 = (x, st2)" by fastforce
    show thesis
    proof (cases x)
      case (Inl e)
      with assms(1) eq False sc show thesis by (intro raise [of e]) simp_all
    next
      case (Inr s)
      obtain r' st3 where rest: "process_hits E L hs st2 = (r', st3)" by fastforce
      with assms(1) eq False sc Inr show thesis
        by (intro keep [of s st2 r']) (auto simp: mk_record_def split: sum.splits)
    qed
  qed
qed

subsection \<open>Properties\<close>

text \<open>
  C3: A hit whose domain's \<open>robots.txt\<close> denies it costs exactly that request
  and two diagnostics (the gate's and the skip), is never requested itself,
  contributes no record, and the loop goes on with the next hit.
\<close>

theorem process_hits_denied_hit:
  assumes "\<not> fst (can_crawl E (dict_get (rh_href h)) st)"
  shows "process_hits E L (h # hs) st =
           process_hits E L hs (emit [RobotsDisallowed (dict_get (rh_href h)), SkippedHit (dict_get (rh_href h))]
                                   (snd (can_crawl E (dict_get (rh_href h)) st)))
         \<and> sent (snd (can_crawl E (dict_get (rh_href h)) st))
             = sent st @ [robots_request (registered_domain E (dict_get (rh_href h)))]"
proof -
  let ?u = "dict_get (rh_href h)"
  have "fetch_full_text E ?u 10 st = ([], emit [RobotsDisallowed ?u] (snd (can_crawl E ?u st)))"
    using assms by (simp add: fetch_full_text_eq)
  moreover have "robots_parser_available E \<and> registered_domain E ?u \<noteq> []"
    using assms by (rule can_crawl_denied)
  ultimately show ?thesis
    by (simp add: Let_def can_crawl_log)
qed

text \<open>
  C23: The traffic of the search loop is the traffic of its hits, in the order
  of the search: for each hit processed, its \<open>robots.txt\<close> request when
  there is a parser and a domain (no caching across hits), then at most one page
  request; nothing else is sent. A successful run processes every hit; a run
  that raises stops at the hit whose score raised.
\<close>

theorem process_hits_requests:
  assumes "process_hits E L hs st = (r, st')"
  shows "\<exists>bs. length bs \<le> length hs \<and> (isl r \<or> length bs = length hs)
              \<and> sent st' = sent st @ concat (map2 (\<lambda>h b. hit_requests E (dict_get (rh_href h)) b) hs bs)"
  using assms
proof (induction hs arbitrary: st r st')
  case Nil
  then show ?case by (intro exI [of _ "[]"]) simp
next
  case (Cons h hs)
  let ?u = "dict_get (rh_href h)"
  obtain ft st1 where ft: "fetch_full_text E ?u 10 st = (ft, st1)" by fastforce
  have s1: "sent st1 = sent st @ hit_requests E ?u (fst (can_crawl E ?u st))"
    using fetch_full_text_sent [of E ?u st] ft by simp
  from Cons.prems ft show ?case
  proof (cases rule: process_hits_Cons_cases)
    case skip
    from Cons.IH [OF skip(2)] obtain bs where
      "length bs \<le> length hs" "isl r \<or> length bs = length hs"
      "sent st' = sent st1 @ concat (map2 (\<lambda>h b. hit_requests E (dict_get (rh_href h)) b) hs bs)"
      by auto
    with s1 show ?thesis by (intro exI [of _ "fst (can_crawl E ?u st) # bs"]) simp
  next
    case (raise e)
    have "sent st' = sent st1"
      using get_relate_domain_score_log(2) [of E ft L st1] raise(2) by simp
    with s1 raise(3) show ?thesis by (intro exI [of _ "[fst (can_crawl E ?u st)]"]) simp
  next
    case (keep s st2 r')
    have s2: "sent st2 = sent st1"
      using get_relate_domain_score_log(2) [of E ft L st1] keep(2) by simp
    from Cons.IH [OF keep(3)] obtain bs where
      "length bs \<le> length hs" "isl r' \<or> length bs = length hs"
      "sent st' = sent st2 @ concat (map2 (\<lambda>h b. hit_requests E (dict_get (rh_href h)) b) hs bs)"
      by auto
    with s1 s2 keep(4) show ?thesis
      by (intro exI [of _ "fst (can_crawl E ?u st) # bs"]) (cases r'; auto)
  qed
qed

text \<open>
  C26: A label string without a space is rejected only while scoring, after the
  search and the fetches: when it makes the loop raise, the exception is the
  labels \<open>ValueError\<close> and the run has already sent requests. The
  specification requires this configuration error before any network activity.
\<close>

theorem process_hits_labels_error_after_fetch:
  assumes "CHR '' '' \<notin> set L" and "process_hits E L hs st = (Inl e, st')"
  shows "e = labels_error \<and> length (sent st) < length (sent st')"
  using assms(2)
proof (induction hs arbitrary: st st')
  case (Cons h hs)
  let ?u = "dict_get (rh_href h)"
  obtain ft st1 where ft: "fetch_full_text E ?u 10 st = (ft, st1)" by fastforce
  have s1: "length (sent st) < length (sent st1)"
    using fetch_full_text_sends [of st E ?u] ft by simp
  from Cons.prems ft show ?case
  proof (cases rule: process_hits_Cons_cases)
    case skip
    with Cons.IH [OF skip(2)] s1 show ?thesis by simp
  next
    case (raise e')
    have "py_strip ft \<noteq> []"
      using raise(1) fetch_full_text_stripped [of E ?u 10 st] ft by (simp add: py_strip_stripped)
    then have "get_relate_domain_score E ft L st1 = (Inl labels_error, st1)"
      using assms(1) by (simp add: get_relate_domain_score_def Let_def length_py_split_on_space)
    with raise s1 show ?thesis by simp
  next
    case (keep s st2 r')
    then have "r' = Inl e" by (cases r') simp_all
    with keep(3) Cons.IH s1 show ?thesis
      using get_relate_domain_score_log(2) [of E ft L st1] keep(2) by fastforce
  qed
qed simp

text \<open>
  C31: On a network that answers a request the same way whenever it is sent, the
  stateful loop computes the contract of the specification: the records are the
  hits with non-empty text, in the order of the search, each with the score of its
  text, and the first exception of the scorer is the result.
\<close>

theorem process_hits_refines_spec:
  assumes "\<forall>n. http_get E n = http_get E 0"
  shows "fst (process_hits E L hs st) = pipeline_spec E L hs"
proof (induction hs arbitrary: st)
  case Nil
  then show ?case by (simp add: pipeline_spec_def)
next
  case (Cons h hs)
  let ?u = "dict_get (rh_href h)"
  obtain ft st1 where ft: "fetch_full_text E ?u 10 st = (ft, st1)" by fastforce
  have ht: "hit_text E h = ft"
    using fetch_full_text_time_independent [OF assms, of ?u 10 st] ft by (simp add: hit_text_def)
  obtain r st' where run: "process_hits E L (h # hs) st = (r, st')" by fastforce
  from run ft show ?case
  proof (cases rule: process_hits_Cons_cases)
    case skip
    with Cons.IH [of "emit [SkippedHit ?u] st1"] run ht show ?thesis
      by (simp add: pipeline_spec_def)
  next
    case (raise e)
    have "text_score E L ft = Inl e"
      using score_state_independent [of E ft L st1 empty_log] raise(2) by (simp add: text_score_def)
    with raise run ht show ?thesis by (simp add: pipeline_spec_def)
  next
    case (keep s st2 r')
    have "text_score E L ft = Inr s"
      using score_state_independent [of E ft L st1 empty_log] keep(2) by (simp add: text_score_def)
    with keep run ht Cons.IH [of st2] show ?thesis by (simp add: pipeline_spec_def)
  qed
qed

end
