(* ===== verification/Json_Output.thy ===== *)
theory Json_Output
  imports Acquisition_Pipeline
begin

text \<open>
  The artefact \<open>main\<close> writes (\<open>src/search_data.py\<close>, line 281):
  \<open>json.dump(results, f, ensure_ascii=False, indent=4)\<close>. Strings are escaped as
  the \<open>json\<close> encoder does with \<open>ensure_ascii=False\<close>: quote, backslash and
  the control characters below 32 are escaped, everything else (non-ASCII
  included) is written as is. Containers are laid out with an indent of four
  spaces and the separators \<open>","\<close> and \<open>": "\<close>. The score is a Python float,
  written by \<open>float.__repr__\<close>: the encoder is a parameter \<open>fr\<close> of the
  dump. Reading the file back is \<open>json.load\<close>: a JSON reader for the values
  the dump writes, followed by the conversion to records.
\<close>

subsection \<open>Strings\<close>

abbreviation bslash :: char where "bslash \<equiv> CHR 0x5C"
abbreviation dquote :: char where "dquote \<equiv> CHR 0x22"

definition hex_digit :: "nat \<Rightarrow> char" where
  "hex_digit n = (if n < 10 then char_of (48 + n) else char_of (87 + n))"

text \<open>One character of \<open>py_encode_basestring\<close> (the table \<open>ESCAPE_DCT\<close>).\<close>

definition json_esc_char :: "char \<Rightarrow> string" where
  "json_esc_char c =
     (if c = dquote then [bslash, dquote]
      else if c = bslash then [bslash, bslash]
      else if c = CHR 0x0A then [bslash, CHR ''n'']
      else if c = CHR 0x0D then [bslash, CHR ''r'']
      else if c = CHR 0x09 then [bslash, CHR ''t'']
      else if c = CHR 0x08 then [bslash, CHR ''b'']
      else if c = CHR 0x0C then [bslash, CHR ''f'']
      else if of_char c < (32::nat)
      then [bslash, CHR ''u'', CHR ''0'', CHR ''0'', hex_digit (of_char c div 16), hex_digit (of_char c mod 16)]
      else [c])"

definition json_escape :: "string \<Rightarrow> string" where
  "json_escape s = concat (map json_esc_char s)"

definition json_string :: "string \<Rightarrow> string" where
  "json_string s = dquote # json_escape s @ [dquote]"

text \<open>The reader's side (\<open>scanstring\<close>, strict): the value of a hex digit.\<close>

definition hex_val :: "char \<Rightarrow> nat option" where
  "hex_val c =
     (let n = of_char c :: nat
      in if 48 \<le> n \<and> n \<le> 57 then Some (n - 48)
         else if 97 \<le> n \<and> n \<le> 102 then Some (n - 87)
         else if 65 \<le> n \<and> n \<le> 70 then Some (n - 55)
         else None)"

definition hex4_val :: "char \<Rightarrow> char \<Rightarrow> char \<Rightarrow> char \<Rightarrow> nat option" where
  "hex4_val a b c d =
     (case (hex_val a, hex_val b, hex_val c, hex_val d) of
        (Some w, Some x, Some y, Some z) \<Rightarrow> Some (((w * 16 + x) * 16 + y) * 16 + z)
      | _ \<Rightarrow> None)"

definition cons_fst :: "'a \<Rightarrow> ('a list \<times> 'b) option \<Rightarrow> ('a list \<times> 'b) option" where
  "cons_fst x r = map_option (\<lambda>(xs, rest). (x # xs, rest)) r"

text \<open>
  The body of a string literal up to its closing quote: the decoded string and the
  rest of the input. A raw control character is an error, as in strict mode;
  a \<open>\u\<close> escape beyond Latin-1 is outside the model's characters.
\<close>

fun json_unescape :: "string \<Rightarrow> (string \<times> string) option" where
  "json_unescape [] = None"
| "json_unescape (c # cs) =
     (if c = dquote then Some ([], cs)
      else if c = bslash then
        (case cs of
           [] \<Rightarrow> None
         | e # cs' \<Rightarrow>
             if e = dquote \<or> e = bslash \<or> e = CHR ''/'' then cons_fst e (json_unescape cs')
             else if e = CHR ''n'' then cons_fst (CHR 0x0A) (json_unescape cs')
             else if e = CHR ''r'' then cons_fst (CHR 0x0D) (json_unescape cs')
             else if e = CHR ''t'' then cons_fst (CHR 0x09) (json_unescape cs')
             else if e = CHR ''b'' then cons_fst (CHR 0x08) (json_unescape cs')
             else if e = CHR ''f'' then cons_fst (CHR 0x0C) (json_unescape cs')
             else if e = CHR ''u'' then
               (case cs' of
                  h1 # h2 # h3 # h4 # rest \<Rightarrow>
                    (case hex4_val h1 h2 h3 h4 of
                       Some v \<Rightarrow> if v < 256 then cons_fst (char_of v) (json_unescape rest) else None
                     | None \<Rightarrow> None)
                | _ \<Rightarrow> None)
             else None)
      else if of_char c < (32::nat) then None
      else cons_fst c (json_unescape cs))"

declare hex_digit_def [run_eval] json_esc_char_def [run_eval] json_escape_def [run_eval]
  json_string_def [run_eval] hex_val_def [run_eval] hex4_val_def [run_eval] cons_fst_def [run_eval]

subsection \<open>Values, the indented encoder and the reader\<close>

datatype json =
    JString string
  | JNumber string
  | JArray "json list"
  | JObject "(string \<times> json) list"

definition newline_indent :: "nat \<Rightarrow> string" where
  "newline_indent l = CHR 0x0A # replicate (4 * l) (CHR '' '')"

text \<open>\<open>_iterencode\<close> with \<open>indent=4\<close> at nesting level \<open>l\<close>.\<close>

fun json_enc :: "nat \<Rightarrow> json \<Rightarrow> string" where
  "json_enc l (JString s) = json_string s"
| "json_enc l (JNumber t) = t"
| "json_enc l (JArray vs) =
     (if vs = [] then ''[]''
      else CHR ''['' # newline_indent (Suc l)
           @ py_join (CHR '','' # newline_indent (Suc l)) (map (json_enc (Suc l)) vs)
           @ newline_indent l @ '']'')"
| "json_enc l (JObject kvs) =
     (if kvs = [] then ''{}''
      else CHR ''{'' # newline_indent (Suc l)
           @ py_join (CHR '','' # newline_indent (Suc l))
               (map (\<lambda>(k, v). json_string k @ '': '' @ json_enc (Suc l) v) kvs)
           @ newline_indent l @ ''}'')"

definition json_ws :: "char \<Rightarrow> bool" where
  "json_ws c = (c = CHR '' '' \<or> c = CHR 0x09 \<or> c = CHR 0x0A \<or> c = CHR 0x0D)"

text \<open>The characters of a number token: those of \<open>float.__repr__\<close>, \<open>NaN\<close> and \<open>Infinity\<close>.\<close>

definition num_char :: "char \<Rightarrow> bool" where
  "num_char c = (c \<in> set ''0123456789+-.eEINafinty'')"

fun parse_value :: "nat \<Rightarrow> string \<Rightarrow> (json \<times> string) option"
and parse_items :: "nat \<Rightarrow> string \<Rightarrow> (json list \<times> string) option"
and parse_members :: "nat \<Rightarrow> string \<Rightarrow> ((string \<times> json) list \<times> string) option" where
  "parse_value 0 s = None"
| "parse_value (Suc n) s =
     (case dropWhile json_ws s of
        [] \<Rightarrow> None
      | c # cs \<Rightarrow>
          if c = dquote then map_option (\<lambda>(str, r). (JString str, r)) (json_unescape cs)
          else if c = CHR ''['' then
            (case dropWhile json_ws cs of
               [] \<Rightarrow> None
             | c1 # cs1 \<Rightarrow>
                 if c1 = CHR '']'' then Some (JArray [], cs1)
                 else map_option (\<lambda>(vs, r). (JArray vs, r)) (parse_items n cs))
          else if c = CHR ''{'' then
            (case dropWhile json_ws cs of
               [] \<Rightarrow> None
             | c1 # cs1 \<Rightarrow>
                 if c1 = CHR ''}'' then Some (JObject [], cs1)
                 else map_option (\<lambda>(kvs, r). (JObject kvs, r)) (parse_members n cs))
          else if num_char c then Some (JNumber (takeWhile num_char (c # cs)), dropWhile num_char (c # cs))
          else None)"
| "parse_items 0 s = None"
| "parse_items (Suc n) s =
     (case parse_value n s of
        None \<Rightarrow> None
      | Some (v, r) \<Rightarrow>
          (case dropWhile json_ws r of
             [] \<Rightarrow> None
           | c # r1 \<Rightarrow>
               if c = CHR '','' then cons_fst v (parse_items n r1)
               else if c = CHR '']'' then Some ([v], r1) else None))"
| "parse_members 0 s = None"
| "parse_members (Suc n) s =
     (case dropWhile json_ws s of
        [] \<Rightarrow> None
      | c # cs \<Rightarrow>
          if c \<noteq> dquote then None
          else
            (case json_unescape cs of
               None \<Rightarrow> None
             | Some (k, r) \<Rightarrow>
                 (case dropWhile json_ws r of
                    [] \<Rightarrow> None
                  | c1 # r1 \<Rightarrow>
                      if c1 \<noteq> CHR '':'' then None
                      else
                        (case parse_value n r1 of
                           None \<Rightarrow> None
                         | Some (v, r2) \<Rightarrow>
                             (case dropWhile json_ws r2 of
                                [] \<Rightarrow> None
                              | c2 # r3 \<Rightarrow>
                                  if c2 = CHR '','' then cons_fst (k, v) (parse_members n r3)
                                  else if c2 = CHR ''}'' then Some ([(k, v)], r3)
                                  else None)))))"

subsection \<open>Escaping and unescaping\<close>

lemma hex_val_hex_digit [simp]: "n < 16 \<Longrightarrow> hex_val (hex_digit n) = Some n"
  by (simp add: hex_digit_def hex_val_def of_char_of)

lemma unescape_esc_char:
  "json_unescape (json_esc_char c @ rest) = cons_fst c (json_unescape rest)"
proof -
  have lt: "of_char c div 16 < (16::nat)" if "of_char c < (32::nat)"
    using that by simp
  have ctl: "of_char c < (32::nat) \<Longrightarrow>
      hex4_val (CHR ''0'') (CHR ''0'') (hex_digit (of_char c div 16)) (hex_digit (of_char c mod 16))
        = Some (of_char c)"
  proof -
    assume "of_char c < (32::nat)"
    moreover have "hex_val (CHR ''0'') = Some 0" by (simp add: hex_val_def)
    ultimately show ?thesis by (simp add: hex4_val_def lt)
  qed
  show ?thesis
    by (auto simp: json_esc_char_def ctl)
qed

lemma json_unescape_escape: "json_unescape (json_escape s @ dquote # rest) = Some (s, rest)"
  by (induction s) (simp_all add: json_escape_def unescape_esc_char cons_fst_def)

subsection \<open>Reading back what the encoder writes\<close>

text \<open>
  The values the encoder can write back faithfully: number tokens are non-empty
  runs of number characters. The cost bounds the fuel the reader needs.
\<close>

fun json_ok :: "json \<Rightarrow> bool" where
  "json_ok (JString s) = True"
| "json_ok (JNumber t) = (t \<noteq> [] \<and> list_all num_char t)"
| "json_ok (JArray vs) = list_all json_ok vs"
| "json_ok (JObject kvs) = list_all (\<lambda>(k, v). json_ok v) kvs"

fun jcost :: "json \<Rightarrow> nat" where
  "jcost (JString s) = 1"
| "jcost (JNumber t) = 1"
| "jcost (JArray vs) = Suc (sum_list (map (\<lambda>v. Suc (jcost v)) vs))"
| "jcost (JObject kvs) = Suc (sum_list (map (\<lambda>(k, v). Suc (jcost v)) kvs))"

definition num_stop :: "string \<Rightarrow> bool" where
  "num_stop r = (case r of [] \<Rightarrow> True | c # _ \<Rightarrow> \<not> num_char c)"

lemma dropWhile_frame:
  "\<forall>c \<in> set w. P c \<Longrightarrow> \<not> P c \<Longrightarrow> dropWhile P (w @ c # cs) = c # cs"
  by (induction w) auto

lemma newline_indent_ws [simp]: "\<forall>c \<in> set (newline_indent l). json_ws c"
  by (simp add: newline_indent_def json_ws_def)

lemma num_char_not [simp]:
  "num_char c \<Longrightarrow> \<not> json_ws c" "num_char c \<Longrightarrow> c \<noteq> dquote"
  "num_char c \<Longrightarrow> c \<noteq> CHR ''[''" "num_char c \<Longrightarrow> c \<noteq> CHR ''{''"
  "num_char c \<Longrightarrow> c \<noteq> CHR '']''" "num_char c \<Longrightarrow> c \<noteq> CHR ''}''"
  by (auto simp: num_char_def json_ws_def)

lemma not_num_char [simp]:
  "\<not> num_char CHR '',''" "\<not> num_char (CHR 0x0A)" "\<not> num_char CHR '']''" "\<not> num_char CHR ''}''"
  by (simp_all add: num_char_def)

lemma not_json_ws [simp]:
  "\<not> json_ws dquote" "\<not> json_ws CHR ''[''" "\<not> json_ws CHR ''{''" "\<not> json_ws CHR '',''"
  "\<not> json_ws CHR '']''" "\<not> json_ws CHR ''}''" "\<not> json_ws CHR '':''" "json_ws CHR '' ''"
  by (simp_all add: json_ws_def)

text \<open>What an encoded value starts with: never whitespace nor a closing bracket.\<close>

lemma json_enc_Cons:
  "json_ok v \<Longrightarrow> \<exists>c cs. json_enc l v = c # cs \<and> \<not> json_ws c \<and> c \<noteq> CHR '']'' \<and> c \<noteq> CHR ''}''"
  by (cases v) (auto simp: json_string_def neq_Nil_conv)

lemma take_drop_num:
  "list_all num_char t \<Longrightarrow> num_stop rest \<Longrightarrow>
   takeWhile num_char (t @ rest) = t \<and> dropWhile num_char (t @ rest) = rest"
  by (induction t) (auto simp: num_stop_def split: list.splits)

text \<open>A value the reader reads back from its encoding at level \<open>L\<close>, after any whitespace.\<close>

definition reads_back :: "nat \<Rightarrow> json \<Rightarrow> bool" where
  "reads_back L v =
     (\<forall>n w rest. jcost v \<le> n \<longrightarrow> (\<forall>c \<in> set w. json_ws c) \<longrightarrow> num_stop rest \<longrightarrow>
        parse_value n (w @ json_enc L v @ rest) = Some (v, rest))"

lemma reads_backD:
  "reads_back L v \<Longrightarrow> jcost v \<le> n \<Longrightarrow> \<forall>c \<in> set w. json_ws c \<Longrightarrow> num_stop rest \<Longrightarrow>
   parse_value n (w @ json_enc L v @ rest) = Some (v, rest)"
  unfolding reads_back_def by blast

lemma parse_items_enc:
  assumes "vs \<noteq> []" and "\<forall>v \<in> set vs. reads_back (Suc l) v"
    and "sum_list (map (\<lambda>v. Suc (jcost v)) vs) \<le> n" and "\<forall>c \<in> set w. json_ws c"
  shows "parse_items n (w @ py_join (CHR '','' # newline_indent (Suc l)) (map (json_enc (Suc l)) vs)
                         @ newline_indent l @ CHR '']'' # rest) = Some (vs, rest)"
  using assms
proof (induction vs arbitrary: n w)
  case (Cons v vs)
  then obtain m where n: "n = Suc m" and cost: "jcost v \<le> m"
    and cost': "sum_list (map (\<lambda>v. Suc (jcost v)) vs) \<le> m"
    by (cases n) auto
  have rb: "reads_back (Suc l) v" using Cons.prems(2) by simp
  show ?case
  proof (cases vs)
    case Nil
    have "parse_value m (w @ json_enc (Suc l) v @ (newline_indent l @ CHR '']'' # rest)) = Some (v, newline_indent l @ CHR '']'' # rest)"
      using rb cost Cons.prems(4) by (simp add: reads_back_def num_stop_def newline_indent_def)
    moreover have "dropWhile json_ws (newline_indent l @ CHR '']'' # rest) = CHR '']'' # rest"
      by (simp add: dropWhile_frame)
    ultimately show ?thesis using Nil n by simp
  next
    case (Cons v2 vs2)
    let ?r1 = "newline_indent (Suc l) @ py_join (CHR '','' # newline_indent (Suc l)) (map (json_enc (Suc l)) vs)
               @ newline_indent l @ CHR '']'' # rest"
    have "parse_value m (w @ json_enc (Suc l) v @ (CHR '','' # ?r1)) = Some (v, CHR '','' # ?r1)"
      using rb cost Cons.prems(4) by (simp add: reads_back_def num_stop_def)
    moreover have "parse_items m ?r1 = Some (vs, rest)"
      using Cons.IH [of m "newline_indent (Suc l)"] Cons.prems(2) cost' \<open>vs = v2 # vs2\<close> by simp
    ultimately show ?thesis using \<open>vs = v2 # vs2\<close> n by (simp add: cons_fst_def)
  qed
qed simp

lemma parse_member_head:
  assumes "reads_back L v" and "jcost v \<le> m" and "\<forall>c \<in> set w. json_ws c" and "num_stop r"
  shows "parse_members (Suc m) (w @ (json_string k @ '': '' @ json_enc L v) @ r)
    = (case dropWhile json_ws r of
         [] \<Rightarrow> None
       | c2 # r3 \<Rightarrow>
           if c2 = CHR '','' then cons_fst (k, v) (parse_members m r3)
           else if c2 = CHR ''}'' then Some ([(k, v)], r3) else None)"
proof -
  have pv: "parse_value m ([CHR '' ''] @ json_enc L v @ r) = Some (v, r)"
    by (rule reads_backD [OF assms(1,2) _ assms(4)]) simp
  have "json_unescape (json_escape k @ dquote # (CHR '':'' # CHR '' '' # json_enc L v @ r))
      = Some (k, CHR '':'' # CHR '' '' # json_enc L v @ r)"
    by (rule json_unescape_escape)
  with pv assms(3) show ?thesis
    by (simp add: json_string_def dropWhile_frame)
qed

lemma parse_members_enc:
  assumes "kvs \<noteq> []" and "\<forall>(k, v) \<in> set kvs. reads_back (Suc l) v"
    and "sum_list (map (\<lambda>(k, v). Suc (jcost v)) kvs) \<le> n" and "\<forall>c \<in> set w. json_ws c"
  shows "parse_members n (w @ py_join (CHR '','' # newline_indent (Suc l))
                               (map (\<lambda>(k, v). json_string k @ '': '' @ json_enc (Suc l) v) kvs)
                          @ newline_indent l @ CHR ''}'' # rest) = Some (kvs, rest)"
  using assms
proof (induction kvs arbitrary: n w)
  case (Cons kv kvs)
  obtain k v where kv: "kv = (k, v)" by fastforce
  with Cons.prems obtain m where n: "n = Suc m" and cost: "jcost v \<le> m"
    and cost': "sum_list (map (\<lambda>(k, v). Suc (jcost v)) kvs) \<le> m"
    by (cases n) auto
  have rb: "reads_back (Suc l) v" using Cons.prems(2) kv by simp
  show ?case
  proof (cases kvs)
    case Nil
    have "dropWhile json_ws (newline_indent l @ CHR ''}'' # rest) = CHR ''}'' # rest"
      by (simp add: dropWhile_frame)
    with parse_member_head [OF rb cost Cons.prems(4), where k = k and r = "newline_indent l @ CHR ''}'' # rest"] Nil n kv
    show ?thesis by (simp add: num_stop_def newline_indent_def)
  next
    case (Cons kv2 kvs2)
    let ?r1 = "newline_indent (Suc l) @ py_join (CHR '','' # newline_indent (Suc l))
                 (map (\<lambda>(k, v). json_string k @ '': '' @ json_enc (Suc l) v) kvs)
               @ newline_indent l @ CHR ''}'' # rest"
    have "parse_members m ?r1 = Some (kvs, rest)"
      using Cons.IH [of m "newline_indent (Suc l)"] Cons.prems(2) cost' \<open>kvs = kv2 # kvs2\<close> by simp
    with parse_member_head [OF rb cost Cons.prems(4), where k = k and r = "CHR '','' # ?r1"] \<open>kvs = kv2 # kvs2\<close> n kv
    show ?thesis by (simp add: num_stop_def cons_fst_def)
  qed
qed simp

lemma py_join_Cons: "py_join sep (x # xs) = x @ (if xs = [] then [] else sep @ py_join sep xs)"
  by (cases xs) simp_all

lemma dropWhile_enc_items:
  assumes "json_ok v" and "\<forall>c \<in> set w. json_ws c"
  obtains c cs where "dropWhile json_ws (w @ json_enc l v @ r) = c # cs" "c \<noteq> CHR '']''" "c \<noteq> CHR ''}''"
proof -
  from json_enc_Cons [OF assms(1)] obtain c cs where "json_enc l v = c # cs" "\<not> json_ws c"
      "c \<noteq> CHR '']''" "c \<noteq> CHR ''}''" by blast
  with assms(2) show ?thesis using that by (simp add: dropWhile_frame)
qed

lemma json_reads_back: "json_ok v \<Longrightarrow> reads_back L v"
proof (induction v arbitrary: L)
  case (JString s)
  show ?case unfolding reads_back_def
  proof (intro allI impI)
    fix n w rest assume "jcost (JString s) \<le> n" and ws: "\<forall>c \<in> set w. json_ws c"
    then obtain m where "n = Suc m" by (cases n) auto
    with ws show "parse_value n (w @ json_enc L (JString s) @ rest) = Some (JString s, rest)"
      by (simp add: json_string_def dropWhile_frame json_unescape_escape)
  qed
next
  case (JNumber t)
  then obtain c cs where t: "t = c # cs" "num_char c" "list_all num_char cs" by (cases t) auto
  show ?case unfolding reads_back_def
  proof (intro allI impI)
    fix n w rest assume "jcost (JNumber t) \<le> n" and ws: "\<forall>c \<in> set w. json_ws c" and "num_stop rest"
    moreover from this obtain m where "n = Suc m" by (cases n) auto
    ultimately show "parse_value n (w @ json_enc L (JNumber t) @ rest) = Some (JNumber t, rest)"
      using t take_drop_num [of "c # cs" rest] by (simp add: dropWhile_frame)
  qed
next
  case (JArray vs)
  have rb: "\<forall>v \<in> set vs. reads_back (Suc L) v" using JArray by (simp add: list_all_iff)
  show ?case unfolding reads_back_def
  proof (intro allI impI)
    fix n w rest assume cost: "jcost (JArray vs) \<le> n" and ws: "\<forall>c \<in> set w. json_ws c"
    then obtain m where n: "n = Suc m" and cost': "sum_list (map (\<lambda>v. Suc (jcost v)) vs) \<le> m"
      by (cases n) auto
    show "parse_value n (w @ json_enc L (JArray vs) @ rest) = Some (JArray vs, rest)"
    proof (cases vs)
      case Nil
      with n ws show ?thesis by (simp add: dropWhile_frame)
    next
      case (Cons v vs')
      let ?cs = "newline_indent (Suc L) @ py_join (CHR '','' # newline_indent (Suc L)) (map (json_enc (Suc L)) vs)
                 @ newline_indent L @ CHR '']'' # rest"
      have items: "parse_items m ?cs = Some (vs, rest)"
        using parse_items_enc [OF _ rb cost'] Cons by simp
      from JArray.prems Cons obtain c cs where
        "dropWhile json_ws ?cs = c # cs" "c \<noteq> CHR '']''"
        by (rule_tac dropWhile_enc_items [of v "newline_indent (Suc L)" "Suc L"])
           (auto simp: py_join_Cons)
      with items n ws Cons show ?thesis by (simp add: dropWhile_frame)
    qed
  qed
next
  case (JObject kvs)
  have rb: "\<forall>(k, v) \<in> set kvs. reads_back (Suc L) v"
    using JObject by (fastforce simp: list_all_iff)
  show ?case unfolding reads_back_def
  proof (intro allI impI)
    fix n w rest assume cost: "jcost (JObject kvs) \<le> n" and ws: "\<forall>c \<in> set w. json_ws c"
    then obtain m where n: "n = Suc m" and cost': "sum_list (map (\<lambda>(k, v). Suc (jcost v)) kvs) \<le> m"
      by (cases n) auto
    show "parse_value n (w @ json_enc L (JObject kvs) @ rest) = Some (JObject kvs, rest)"
    proof (cases kvs)
      case Nil
      with n ws show ?thesis by (simp add: dropWhile_frame)
    next
      case (Cons kv kvs')
      let ?cs = "newline_indent (Suc L) @ py_join (CHR '','' # newline_indent (Suc L))
                   (map (\<lambda>(k, v). json_string k @ '': '' @ json_enc (Suc L) v) kvs)
                 @ newline_indent L @ CHR ''}'' # rest"
      have members: "parse_members m ?cs = Some (kvs, rest)"
        using parse_members_enc [OF _ rb cost'] Cons by simp
      obtain k v where kv: "kv = (k, v)" by fastforce
      have "\<exists>cs'. dropWhile json_ws ?cs = dquote # cs'"
        using Cons kv by (simp add: py_join_Cons json_string_def dropWhile_frame)
      with members n ws Cons show ?thesis by (auto simp: dropWhile_frame)
    qed
  qed
qed

lemma length_py_join:
  "ws \<noteq> [] \<Longrightarrow> length (py_join sep ws) + length sep = sum_list (map length ws) + length ws * length sep"
  by (induction sep ws rule: py_join.induct) auto

lemma jcost_le_length: "json_ok v \<Longrightarrow> jcost v \<le> length (json_enc l v)"
proof (induction v arbitrary: l)
  case (JArray vs)
  let ?sep = "CHR '','' # newline_indent (Suc l)"
  have "sum_list (map (\<lambda>v. Suc (jcost v)) vs) \<le> sum_list (map (\<lambda>v. Suc (length (json_enc (Suc l) v))) vs)"
    using JArray by (intro sum_list_mono) (simp add: list_all_iff)
  moreover have "vs \<noteq> [] \<Longrightarrow> length (py_join ?sep (map (json_enc (Suc l)) vs)) + length ?sep
      = sum_list (map (\<lambda>v. length (json_enc (Suc l) v)) vs) + length vs * length ?sep"
    using length_py_join [of "map (json_enc (Suc l)) vs" ?sep] by (simp add: comp_def)
  moreover have "sum_list (map (\<lambda>v. Suc (f v)) vs) = sum_list (map f vs) + length vs" for f :: "json \<Rightarrow> nat"
    by (induction vs) auto
  ultimately show ?case by (simp add: newline_indent_def) (auto simp: algebra_simps)
next
  case (JObject kvs)
  let ?sep = "CHR '','' # newline_indent (Suc l)"
  let ?m = "\<lambda>(k, v). json_string k @ '': '' @ json_enc (Suc l) v"
  have "sum_list (map (\<lambda>(k, v). Suc (jcost v)) kvs) \<le> sum_list (map (\<lambda>kv. length (?m kv)) kvs)"
  proof (intro sum_list_mono)
    fix kv assume kv: "kv \<in> set kvs"
    obtain k v where kv_eq: "kv = (k, v)" by fastforce
    with kv JObject.prems have "json_ok v" by (auto simp: list_all_iff)
    with JObject.IH [OF kv, of v "Suc l"] kv_eq
    show "(case kv of (k, v) \<Rightarrow> Suc (jcost v)) \<le> length (?m kv)"
      by (simp add: json_string_def)
  qed
  moreover have "kvs \<noteq> [] \<Longrightarrow> length (py_join ?sep (map ?m kvs)) + length ?sep
      = sum_list (map (\<lambda>kv. length (?m kv)) kvs) + length kvs * length ?sep"
    using length_py_join [of "map ?m kvs" ?sep] by (simp add: comp_def)
  ultimately show ?case by (simp add: newline_indent_def) (auto simp: algebra_simps)
qed (auto simp: json_string_def Suc_le_eq)

subsection \<open>The result file\<close>

text \<open>
  One record as the dict of lines 253--259, keys in insertion order; the file is
  the list of them (line 281). \<open>fr\<close> is \<open>float.__repr__\<close>.
\<close>

definition record_json :: "(real \<Rightarrow> string) \<Rightarrow> result_record \<Rightarrow> json" where
  "record_json fr r =
     JObject [(''title'', JString (title r)), (''link'', JString (link r)),
              (''snippet'', JString (snippet r)), (''full_text'', JString (full_text r)),
              (''academic_score'', JNumber (fr (academic_score r)))]"

definition json_dump :: "(real \<Rightarrow> string) \<Rightarrow> result_record list \<Rightarrow> string" where
  "json_dump fr recs = json_enc 0 (JArray (map (record_json fr) recs))"

text \<open>
  Reading the file back: \<open>json.load\<close>, then a record from each object; \<open>fp\<close>
  is \<open>float()\<close> on a number token.
\<close>

fun all_some :: "'a option list \<Rightarrow> 'a list option" where
  "all_some [] = Some []"
| "all_some (x # xs) = (case x of None \<Rightarrow> None | Some y \<Rightarrow> map_option ((#) y) (all_some xs))"

fun decode_record :: "(string \<Rightarrow> real option) \<Rightarrow> json \<Rightarrow> result_record option" where
  "decode_record fp (JObject kvs) =
     (case (map_of kvs ''title'', map_of kvs ''link'', map_of kvs ''snippet'',
            map_of kvs ''full_text'', map_of kvs ''academic_score'') of
        (Some (JString t), Some (JString l), Some (JString s), Some (JString ft), Some (JNumber x)) \<Rightarrow>
          map_option (\<lambda>sc. \<lparr>title = t, link = l, snippet = s, full_text = ft, academic_score = sc\<rparr>) (fp x)
      | _ \<Rightarrow> None)"
| "decode_record fp _ = None"

fun decode_results :: "(string \<Rightarrow> real option) \<Rightarrow> json \<Rightarrow> result_record list option" where
  "decode_results fp (JArray vs) = all_some (map (decode_record fp) vs)"
| "decode_results fp _ = None"

definition json_parse :: "string \<Rightarrow> json option" where
  "json_parse s =
     (case parse_value (Suc (length s)) s of
        None \<Rightarrow> None
      | Some (v, r) \<Rightarrow> if list_all json_ws r then Some v else None)"

definition json_load :: "(string \<Rightarrow> real option) \<Rightarrow> string \<Rightarrow> result_record list option" where
  "json_load fp s = (case json_parse s of None \<Rightarrow> None | Some v \<Rightarrow> decode_results fp v)"

text \<open>The type of a JSON value, and the schema of a record in the file (spec, section 6).\<close>

datatype jtype = TString | TNumber | TArray | TObject

fun jtype_of :: "json \<Rightarrow> jtype" where
  "jtype_of (JString _) = TString"
| "jtype_of (JNumber _) = TNumber"
| "jtype_of (JArray _) = TArray"
| "jtype_of (JObject _) = TObject"

definition record_schema :: "(string \<times> jtype) list" where
  "record_schema = [(''title'', TString), (''link'', TString), (''snippet'', TString),
                    (''full_text'', TString), (''academic_score'', TNumber)]"

fun has_schema :: "(string \<times> jtype) list \<Rightarrow> json \<Rightarrow> bool" where
  "has_schema sch (JObject kvs) = (map (\<lambda>(k, v). (k, jtype_of v)) kvs = sch)"
| "has_schema sch _ = False"

text \<open>A float token \<open>fr\<close> may write: non-empty, of number characters.\<close>

definition float_token :: "string \<Rightarrow> bool" where
  "float_token t = (t \<noteq> [] \<and> list_all num_char t)"

lemma decode_record_json:
  "fp (fr (academic_score r)) = Some (academic_score r) \<Longrightarrow> decode_record fp (record_json fr r) = Some r"
  by (cases r) (simp add: record_json_def)

lemma all_some_map: "(\<And>x. x \<in> set xs \<Longrightarrow> f x = Some x) \<Longrightarrow> all_some (map f xs) = Some xs"
  by (induction xs) auto

lemma decode_results_dump:
  "\<forall>r \<in> set recs. fp (fr (academic_score r)) = Some (academic_score r) \<Longrightarrow>
   decode_results fp (JArray (map (record_json fr) recs)) = Some recs"
  by (simp add: all_some_map decode_record_json)

lemma parse_whole:
  assumes "json_ok v"
  shows "parse_value (Suc (length (json_enc l v))) (json_enc l v) = Some (v, [])"
  using reads_backD [OF json_reads_back [OF assms], of "Suc (length (json_enc l v))" "[]" "[]"]
    jcost_le_length [OF assms, of l]
  by (simp add: num_stop_def)

subsection \<open>Properties\<close>

lemma json_parse_dump:
  assumes "\<forall>r \<in> set recs. float_token (fr (academic_score r))"
  shows "json_parse (json_dump fr recs) = Some (JArray (map (record_json fr) recs))"
proof -
  have ok: "json_ok (JArray (map (record_json fr) recs))"
    using assms by (auto simp: list_all_iff record_json_def float_token_def)
  from parse_whole [OF ok, of 0] show ?thesis
    by (simp add: json_parse_def json_dump_def)
qed

text \<open>
  C38: Round trip of the result file: reading back what \<open>json.dump\<close> writes gives
  the same records, field for field, provided the float printer is read back by
  \<open>float()\<close> and writes a number token, as \<open>float.__repr__\<close> does.
\<close>

theorem json_load_dump:
  assumes "\<forall>r \<in> set recs. fp (fr (academic_score r)) = Some (academic_score r)
                         \<and> float_token (fr (academic_score r))"
  shows "json_load fp (json_dump fr recs) = Some recs"
proof -
  have "json_parse (json_dump fr recs) = Some (JArray (map (record_json fr) recs))"
    using assms by (intro json_parse_dump) simp
  moreover have "decode_results fp (JArray (map (record_json fr) recs)) = Some recs"
    using assms by (intro decode_results_dump ballI) simp
  ultimately show ?thesis by (simp add: json_load_def)
qed

text \<open>
  C33: With \<open>ensure_ascii=False\<close> the non-ASCII characters of a string reach the
  file unchanged and in order: escaping only ever rewrites ASCII characters, and
  writes only ASCII in their place.
\<close>

theorem json_escape_keeps_non_ascii:
  "filter (\<lambda>c. (128::nat) \<le> of_char c) (json_escape s) = filter (\<lambda>c. (128::nat) \<le> of_char c) s"
proof -
  have "filter (\<lambda>c. (128::nat) \<le> of_char c) (json_esc_char c) = filter (\<lambda>c. (128::nat) \<le> of_char c) [c]" for c
  proof -
    have hex: "n < 16 \<Longrightarrow> \<not> (128::nat) \<le> of_char (hex_digit n)" for n
      by (simp add: hex_digit_def of_char_of)
    have "of_char c mod 16 < (16::nat)" "of_char c < (32::nat) \<Longrightarrow> of_char c div 16 < (16::nat)"
      by simp_all
    then show ?thesis
      by (auto simp: json_esc_char_def hex)
  qed
  then show ?thesis
    by (induction s) (simp_all add: json_escape_def)
qed



text \<open>
  C28: The file has the record type of the specification: it parses as a JSON
  array with one element per record, in order, each an object whose keys are
  exactly \<open>title\<close>, \<open>link\<close>, \<open>snippet\<close>, \<open>full_text\<close> and
  \<open>academic_score\<close>, in that order, the first four strings and the last a number.
\<close>

theorem json_dump_schema:
  assumes "\<forall>r \<in> set recs. float_token (fr (academic_score r))"
  shows "\<exists>vs. json_parse (json_dump fr recs) = Some (JArray vs)
           \<and> length vs = length recs \<and> list_all (has_schema record_schema) vs"
  using json_parse_dump [OF assms]
  by (simp add: list_all_iff record_json_def record_schema_def)

end
