(* ===== verification/Utf8.thy ===== *)
theory Utf8
  imports Py_Prelude
begin

text \<open>
  The text layer of the file \<open>main\<close> writes: \<open>open(..., "w", encoding="utf-8")\<close>
  (\<open>src/search_data.py\<close>, line 280) turns the characters \<open>json.dump\<close> writes
  into bytes. A character of the model is a code point below 256, so it is
  encoded in one byte (below \<open>0x80\<close>) or in two, a lead byte
  \<open>0xC0 | (c >> 6)\<close> and a continuation byte \<open>0x80 | (c & 0x3F)\<close>, as
  CPython's encoder writes them. \<open>utf8_decode\<close> is the reader's decoder: it
  rejects a stray continuation byte, a truncated sequence, an overlong form and a
  code point above the model's range. The three-byte sequences of the Chinese
  text the program OCRs (\<open>lang="chi_tra"\<close>) are outside the character type
  of the model, and so is every statement here about them.
\<close>

unbundle bit_operations_syntax

definition utf8_encode_char :: "char \<Rightarrow> bytes" where
  "utf8_encode_char c =
     (let n = of_char c :: nat; w = word_of_nat n :: 8 word
      in if n < 128 then [w]
         else [0xC0 OR drop_bit 6 w, 0x80 OR (w AND 0x3F)])"

definition utf8_encode :: "string \<Rightarrow> bytes" where
  "utf8_encode s = concat (map utf8_encode_char s)"

fun utf8_decode :: "bytes \<Rightarrow> string option" where
  "utf8_decode [] = Some []"
| "utf8_decode (b # bs) =
     (if b < 0x80 then map_option ((#) (char_of (unat b))) (utf8_decode bs)
      else case bs of
             [] \<Rightarrow> None
           | b2 # bs' \<Rightarrow>
               (let n = unat (b AND 0x1F) * 64 + unat (b2 AND 0x3F)
                in if b AND 0xE0 = 0xC0 \<and> b2 AND 0xC0 = 0x80 \<and> 128 \<le> n \<and> n < 256
                   then map_option ((#) (char_of n)) (utf8_decode bs')
                   else None))"

subsection \<open>The two bytes of a character above ASCII\<close>

lemma of_char_lt_256: "of_char c < (256::nat)"
proof -
  have "of_char c \<in> range (of_char :: char \<Rightarrow> nat)" by simp
  then show ?thesis by (simp add: range_nat_of_char)
qed

lemma utf8_lead_byte:
  fixes n :: nat
  assumes "128 \<le> n" "n < 256"
  shows "(0xC0 OR drop_bit 6 (word_of_nat n) :: 8 word) = word_of_nat (192 + n div 64)"
proof -
  have "n div 64 = 2 \<or> n div 64 = 3" using assms by linarith
  moreover have "drop_bit 6 (word_of_nat n :: 8 word) = word_of_nat (n div 64)"
    using assms by (simp add: drop_bit_eq_div word_unat_eq_iff unat_div unat_of_nat)
  ultimately show ?thesis by auto
qed

lemma utf8_cont_byte:
  fixes w :: "8 word"
  shows "(0x80 OR (w AND 0x3F)) AND 0xC0 = 0x80"
    and "(0x80 OR (w AND 0x3F)) AND 0x3F = w AND 0x3F"
  by (simp_all add: word_ao_dist word_bw_assocs)

lemma unat_and_0x3F: "n < 256 \<Longrightarrow> unat ((word_of_nat n :: 8 word) AND 0x3F) = n mod 64"
proof -
  assume "n < 256"
  have m: "(0x3F :: 8 word) = mask 6" by (simp add: mask_numeral)
  have "unat ((word_of_nat n :: 8 word) AND mask 6) = unat (word_of_nat n :: 8 word) mod 64"
    by (simp only: take_bit_eq_mask [symmetric] unsigned_take_bit_eq take_bit_eq_mod) (simp add: unat_mod)
  with m \<open>n < 256\<close> show ?thesis by (simp add: unat_of_nat)
qed

lemma utf8_cont_unat:
  assumes "n < 256"
  shows "unat (0x80 OR ((word_of_nat n :: 8 word) AND 0x3F)) = 128 + n mod 64"
proof -
  let ?x = "(word_of_nat n :: 8 word) AND 0x3F"
  have "0x80 AND ?x = 0" by (simp add: word_bw_lcs)
  then have "0x80 OR ?x = 0x80 + ?x" by (simp add: disjunctive_add_eq_or)
  moreover have "unat ?x = n mod 64" using assms by (rule unat_and_0x3F)
  moreover have "unat ((0x80 :: 8 word) + ?x) = 128 + unat ?x"
    using \<open>unat ?x = n mod 64\<close> by (subst unat_add_lem [THEN iffD1]) simp_all
  ultimately show ?thesis by simp
qed

text \<open>
  The bitwise encoder against the table of the UTF-8 standard: a code point below
  128 is its own byte, one from 128 to 255 is \<open>192 + n div 64\<close> then
  \<open>128 + n mod 64\<close>.
\<close>

lemma utf8_encode_char_unat:
  "map unat (utf8_encode_char c) =
     (let n = of_char c :: nat in if n < 128 then [n] else [192 + n div 64, 128 + n mod 64])"
proof -
  define n where "n = (of_char c :: nat)"
  have n256: "n < 256" by (simp add: n_def of_char_lt_256)
  show ?thesis
  proof (cases "n < 128")
    case True then show ?thesis using n256 by (simp add: utf8_encode_char_def n_def [symmetric] unat_of_nat)
  next
    case False
    then have "n div 64 = 2 \<or> n div 64 = 3" using n256 by linarith
    then show ?thesis
      using False n256 utf8_lead_byte [of n] utf8_cont_unat [OF n256]
      by (auto simp: utf8_encode_char_def n_def [symmetric] Let_def)
  qed
qed

lemma utf8_decode_char: "utf8_decode (utf8_encode_char c @ bs) = map_option ((#) c) (utf8_decode bs)"
proof -
  define n where "n = (of_char c :: nat)"
  have n256: "n < 256" by (simp add: n_def of_char_lt_256)
  have c: "char_of n = c" by (simp add: n_def)
  show ?thesis
  proof (cases "n < 128")
    case True
    then have "(word_of_nat n :: 8 word) < 0x80" "unat (word_of_nat n :: 8 word) = n"
      using n256 by (simp_all add: word_less_nat_alt unat_of_nat)
    with True c show ?thesis by (simp add: utf8_encode_char_def n_def [symmetric])
  next
    case False
    let ?w = "word_of_nat n :: 8 word"
    have lead: "(0xC0 OR drop_bit 6 ?w :: 8 word) = word_of_nat (192 + n div 64)"
      using False n256 by (intro utf8_lead_byte) simp_all
    have k: "n div 64 = 2 \<or> n div 64 = 3" using False n256 by linarith
    have low: "unat (?w AND 0x3F) = n mod 64" using n256 by (rule unat_and_0x3F)
    have split: "n div 64 = 2 \<Longrightarrow> 128 + n mod 64 = n" "n div 64 = 3 \<Longrightarrow> 192 + n mod 64 = n"
      using div_mult_mod_eq [of n 64] by simp_all
    have dec: "utf8_decode ([word_of_nat (192 + n div 64), 0x80 OR (?w AND 0x3F)] @ bs)
                 = map_option ((#) (char_of n)) (utf8_decode bs)"
      using k False n256 by (auto simp: utf8_cont_byte low split Let_def)
    show ?thesis
      using False dec c by (simp add: utf8_encode_char_def n_def [symmetric] lead)
  qed
qed

lemma utf8_decode_encode_append:
  "utf8_decode (utf8_encode s @ bs) = map_option ((@) s) (utf8_decode bs)"
  by (induction s) (simp_all add: utf8_encode_def utf8_decode_char option.map_comp comp_def option.map_ident)

text \<open>
  The bytes written decode back to the text \<open>json.dump\<close> produced: the UTF-8
  layer of \<open>open(..., encoding="utf-8")\<close> loses and changes nothing.
\<close>

lemma utf8_decode_encode: "utf8_decode (utf8_encode s) = Some s"
  using utf8_decode_encode_append [of s "[]"] by simp

end
