(* ===== verification/Py_Int.thy ===== *)
theory Py_Int
  imports Py_Prelude
begin

text \<open>
  Python's \<open>int(s)\<close> on a string (base 10) and \<open>str(n)\<close> on an integer, as
  \<open>main\<close> uses the first at line 270 to read the number of results. \<open>int\<close>
  strips whitespace, accepts one sign, then decimal digits in groups separated by
  single underscores (PEP 515, leading zeros allowed); anything else raises
  \<open>ValueError\<close>. The digits are the ASCII ones: no other Latin-1 character is a
  decimal digit.
\<close>

definition py_digit :: "char \<Rightarrow> bool" where
  "py_digit c = ((48::nat) \<le> of_char c \<and> of_char c \<le> (57::nat))"

definition digit_val :: "char \<Rightarrow> nat" where
  "digit_val c = of_char c - (48::nat)"

text \<open>Digit groups separated by single underscores: no group is empty.\<close>

definition py_digits :: "string \<Rightarrow> bool" where
  "py_digits s = list_all (\<lambda>g. g \<noteq> [] \<and> list_all py_digit g) (py_split_on (CHR ''_'') s)"

definition dec_val :: "string \<Rightarrow> nat" where
  "dec_val s = foldl (\<lambda>n c. 10 * n + digit_val c) 0 (filter (\<lambda>c. c \<noteq> CHR ''_'') s)"

definition int_error :: py_exc where
  "int_error = ValueError ''invalid literal for int() with base 10''"

definition py_int :: "string \<Rightarrow> py_exc + int" where
  "py_int s =
     (let t = py_strip s;
          (sign, body) = (case t of
                            c # cs \<Rightarrow> if c = CHR ''-'' then (-1, cs)
                                      else if c = CHR ''+'' then (1, cs) else (1, t)
                          | [] \<Rightarrow> (1, []))
      in if py_digits body then Inr (sign * int (dec_val body)) else Inl int_error)"

text \<open>\<open>str(n)\<close>: the shortest decimal representation, with a minus sign when negative.\<close>

function dec_str :: "nat \<Rightarrow> string" where
  "dec_str n = (if n < 10 then [char_of (48 + n)] else dec_str (n div 10) @ [char_of (48 + n mod 10)])"
  by auto
termination by (relation "measure id") auto

declare dec_str.simps [simp del]

definition py_str_int :: "int \<Rightarrow> string" where
  "py_str_int i = (if i < 0 then CHR ''-'' # dec_str (nat (- i)) else dec_str (nat i))"

declare py_digit_def [run_eval] digit_val_def [run_eval] py_digits_def [run_eval] dec_val_def [run_eval]
  int_error_def [run_eval] py_int_def [run_eval] py_str_int_def [run_eval]

subsection \<open>Digits\<close>

lemma of_char_digit [simp]: "(n::nat) < 10 \<Longrightarrow> of_char (char_of (48 + n)) = 48 + n"
  by (simp add: of_char_of)

lemma py_digit_char [simp]: "(n::nat) < 10 \<Longrightarrow> py_digit (char_of (48 + n))"
  by (simp add: py_digit_def)

lemma digit_val_char [simp]: "(n::nat) < 10 \<Longrightarrow> digit_val (char_of (48 + n)) = n"
  by (simp add: digit_val_def)

lemma py_digit_not [simp]:
  "py_digit c \<Longrightarrow> c \<noteq> CHR ''_''" "py_digit c \<Longrightarrow> c \<noteq> CHR ''-''"
  "py_digit c \<Longrightarrow> c \<noteq> CHR ''+''" "py_digit c \<Longrightarrow> \<not> py_isspace c"
  by (auto simp: py_digit_def py_isspace_def)

lemma dec_str_props: "dec_str n \<noteq> [] \<and> list_all py_digit (dec_str n)"
proof (induction n rule: dec_str.induct)
  case (1 n)
  then show ?case by (cases "n < 10") (simp_all add: dec_str.simps [of n])
qed

lemma dec_val_dec_str: "dec_val (dec_str n) = n"
proof (induction n rule: dec_str.induct)
  case (1 n)
  have nu: "filter (\<lambda>c. c \<noteq> CHR ''_'') (dec_str m) = dec_str m" for m
    using dec_str_props [of m] by (auto simp: list_all_iff filter_id_conv)
  show ?case
  proof (cases "n < 10")
    case True
    then show ?thesis by (subst dec_str.simps) (simp add: dec_val_def)
  next
    case False
    with 1 have "foldl (\<lambda>n c. 10 * n + digit_val c) 0 (dec_str (n div 10)) = n div 10"
      by (simp add: dec_val_def nu)
    with False show ?thesis
      by (subst dec_str.simps) (simp add: dec_val_def nu)
  qed
qed

lemma py_split_on_notin: "d \<notin> set s \<Longrightarrow> py_split_on d s = [s]"
  by (induction s) auto

lemma py_digits_dec_str [simp]: "py_digits (dec_str n)"
proof -
  have "CHR ''_'' \<notin> set (dec_str n)"
    using dec_str_props [of n] py_digit_not(1) by (fastforce simp: list_all_iff)
  then show ?thesis using dec_str_props [of n] by (simp add: py_digits_def py_split_on_notin)
qed

lemma py_stripped_py_str_int: "py_stripped (py_str_int i)"
proof -
  have d: "dec_str n \<noteq> [] \<and> \<not> py_isspace (hd (dec_str n)) \<and> \<not> py_isspace (last (dec_str n))" for n
    using dec_str_props [of n] by (simp add: list_all_iff)
  have "\<not> py_isspace CHR ''-''" by (simp add: py_isspace_def)
  with d show ?thesis
    by (simp add: py_str_int_def py_stripped_def)
qed

lemma py_int_body:
  assumes "py_strip s = t" and "t = c # cs" and "c \<noteq> CHR ''-''" and "c \<noteq> CHR ''+''"
  shows "py_int s = (if py_digits t then Inr (int (dec_val t)) else Inl int_error)"
  using assms by (simp add: py_int_def)

lemma py_int_neg_body:
  assumes "py_strip s = CHR ''-'' # body"
  shows "py_int s = (if py_digits body then Inr (- int (dec_val body)) else Inl int_error)"
  using assms by (simp add: py_int_def)

subsection \<open>Properties\<close>

text \<open>
  \<open>int\<close> reads back what \<open>str\<close> writes, also with whitespace around it as
  \<open>input()\<close> may leave: \<open>int(a + str(i) + b) = i\<close> for whitespace \<open>a\<close>, \<open>b\<close>.
\<close>

theorem py_int_py_str_int:
  assumes "\<forall>c \<in> set a. py_isspace c" and "\<forall>c \<in> set b. py_isspace c"
  shows "py_int (a @ py_str_int i @ b) = Inr i"
proof -
  have strip: "py_strip (a @ py_str_int i @ b) = py_str_int i"
    using py_strip_frame [OF assms py_stripped_py_str_int] .
  show ?thesis
  proof (cases "i < 0")
    case True
    with strip have "py_strip (a @ py_str_int i @ b) = CHR ''-'' # dec_str (nat (- i))"
      by (simp add: py_str_int_def)
    with True show ?thesis by (simp add: py_int_neg_body dec_val_dec_str)
  next
    case False
    obtain c cs where cs: "dec_str (nat i) = c # cs" and "py_digit c"
      using dec_str_props [of "nat i"] by (cases "dec_str (nat i)") auto
    with strip False have "py_strip (a @ py_str_int i @ b) = c # cs" "c \<noteq> CHR ''-''" "c \<noteq> CHR ''+''"
      by (simp_all add: py_str_int_def)
    from py_int_body [OF this(1) refl this(2,3)] False cs show ?thesis
      using dec_val_dec_str [of "nat i"] py_digits_dec_str [of "nat i"] by simp
  qed
qed

end
