(* ===== verification/Main_Entry.thy ===== *)
theory Main_Entry
  imports Json_Output Utf8 Py_Int
begin

text \<open>
  \<open>main\<close> (\<open>src/search_data.py\<close>, lines 262--283): three lines of input (the
  query, the labels, the number of results), the search, and the file written.
  The lines \<open>input()\<close> returns are the list \<open>inputs\<close>; each \<open>input\<close> first
  writes its prompt, and reading past the end raises \<open>EOFError\<close>. Saving
  (\<open>save_results\<close>, lines 280--281) may raise in \<open>open\<close>; otherwise the
  file is created or truncated and holds the UTF-8 bytes (\<open>Utf8\<close>) of the
  text \<open>json_dump\<close> (\<open>Json_Output\<close>) writes. The result
  \<open>Saved name records\<close> names the file and the records saved.
\<close>

datatype main_exit = EmptyQuery | NoResults | Saved string "result_record list"

definition eof_error :: py_exc where
  "eof_error = OtherException ''EOFError''"

text \<open>\<open>int(answer or 5)\<close> (line 270): only the empty answer takes the default.\<close>

definition max_results_of :: "string \<Rightarrow> py_exc + int" where
  "max_results_of answer = (if answer = [] then Inr 5 else py_int answer)"

text \<open>
  \<open>with open(name, "w", encoding="utf-8") as f: json.dump(results, f,
  ensure_ascii=False, indent=4)\<close>.
\<close>

definition save_results :: "'img env \<Rightarrow> string \<Rightarrow> result_record list \<Rightarrow> io_log \<Rightarrow> py_exc + io_log" where
  "save_results E name results st =
     (case open_write E name of
        Some e \<Rightarrow> Inl e
      | None \<Rightarrow> Inr (st\<lparr>files := (files st)(name \<mapsto> utf8_encode (json_dump (float_repr E) results))\<rparr>))"

definition main :: "'img env \<Rightarrow> string list \<Rightarrow> io_log \<Rightarrow> (py_exc + main_exit) \<times> io_log" where
  "main E inputs st =
     (let st0 = emit [PromptQuery] st
      in case inputs of
           [] \<Rightarrow> (Inl eof_error, st0)
         | query # inputs1 \<Rightarrow>
             if py_strip query = [] then (Inr EmptyQuery, emit [EmptyQueryMsg] st0)
             else
               (let st1 = emit [PromptLabels] st0
                in case inputs1 of
                     [] \<Rightarrow> (Inl eof_error, st1)
                   | binary_labels # inputs2 \<Rightarrow>
                       (let st2 = emit [PromptCount] st1
                        in case inputs2 of
                             [] \<Rightarrow> (Inl eof_error, st2)
                           | answer # _ \<Rightarrow>
                               (case max_results_of answer of
                                  Inl e \<Rightarrow> (Inl e, st2)
                                | Inr max_results \<Rightarrow>
                                    (case search_duckduckgo E query binary_labels max_results
                                            (emit [SearchStarted query max_results] st2) of
                                       (Inl e, st3) \<Rightarrow> (Inl e, st3)
                                     | (Inr results, st3) \<Rightarrow>
                                         if results = [] then (Inr NoResults, emit [NoResultsMsg] st3)
                                         else
                                           (case save_results E ''all_search_results.json'' results st3 of
                                              Inl e \<Rightarrow> (Inl e, st3)
                                            | Inr st4 \<Rightarrow>
                                                (Inr (Saved ''all_search_results.json'' results),
                                                 emit [SavedMsg (length results) ''search_results.json''] st4)))))))"

declare eof_error_def [run_eval] max_results_of_def [run_eval] save_results_def [run_eval]
  main_def [run_eval]

subsection \<open>Reading the number of results\<close>

lemma py_int_blank: "py_strip s = [] \<Longrightarrow> py_int s = Inl int_error"
  by (simp add: py_int_def py_digits_def)

text \<open>Once the three answers are read, \<open>main\<close> is a function of the search.\<close>

lemma main_search:
  assumes "py_strip query \<noteq> []" and "max_results_of answer = Inr n"
  shows "main E (query # binary_labels # answer # rest) st =
     (case search_duckduckgo E query binary_labels n
             (emit [PromptQuery, PromptLabels, PromptCount, SearchStarted query n] st) of
        (Inl e, st2) \<Rightarrow> (Inl e, st2)
      | (Inr results, st2) \<Rightarrow>
          if results = [] then (Inr NoResults, emit [NoResultsMsg] st2)
          else
            (case save_results E ''all_search_results.json'' results st2 of
               Inl e \<Rightarrow> (Inl e, st2)
             | Inr st3 \<Rightarrow>
                 (Inr (Saved ''all_search_results.json'' results),
                  emit [SavedMsg (length results) ''search_results.json''] st3)))"
  using assms by (simp add: main_def)

subsection \<open>The file system\<close>

lemma save_results_Inr:
  "save_results E n rs st = Inr st' \<Longrightarrow>
   st' = st\<lparr>files := (files st)(n \<mapsto> utf8_encode (json_dump (float_repr E) rs))\<rparr>"
  by (simp add: save_results_def split: option.splits)

text \<open>A run changes the files only by the save, and only when it returns \<open>Saved\<close>.\<close>

lemma main_files:
  assumes "main E inputs st = (r, st')"
  shows "files st' = (case r of Inr (Saved f rs) \<Rightarrow> (files st)(f \<mapsto> utf8_encode (json_dump (float_repr E) rs))
                               | _ \<Rightarrow> files st)"
proof -
  have search: "search_duckduckgo E q L n s = (x, s') \<Longrightarrow> files s' = files s" for q L n s x s'
    using search_duckduckgo_files [of E q L n s] by simp
  show ?thesis
    using assms
    by (auto simp: main_def save_results_def Let_def
             split: list.splits if_splits sum.splits prod.splits option.splits dest!: search)
qed


subsection \<open>Properties\<close>

text \<open>
  C35: A blank query ends \<open>main\<close> at once: after the first prompt it prints the
  complaint, reads no more input and sends no request.
\<close>

theorem main_blank_query:
  "py_strip query = [] \<Longrightarrow>
   main E (query # rest) st = (Inr EmptyQuery, emit [PromptQuery, EmptyQueryMsg] st)"
  by (simp add: main_def)

text \<open>
  C36: Only an empty answer takes the default of 5 results: an answer of spaces
  makes \<open>int\<close> raise \<open>ValueError\<close>, which ends \<open>main\<close> before any search.
\<close>

theorem main_blank_count_raises:
  assumes "py_strip query \<noteq> []" and "answer \<noteq> []" and "py_strip answer = []"
  shows "main E (query # binary_labels # answer # rest) st
           = (Inl int_error, emit [PromptQuery, PromptLabels, PromptCount] st)"
  using assms by (simp add: main_def max_results_of_def py_int_blank)

text \<open>
  C37: When \<open>main\<close> saves, it writes the non-empty list of records to
  \<open>all_search_results.json\<close>, but its last message names another file,
  \<open>search_results.json\<close>.
\<close>

theorem main_saved_name_differs:
  assumes "main E inputs st = (Inr (Saved f rs), st')"
  shows "f = ''all_search_results.json'' \<and> rs \<noteq> []
         \<and> (\<exists>ds g. printed st' = ds @ [SavedMsg (length rs) g] \<and> g \<noteq> f)"
  using assms
  by (auto simp: main_def emit_def Let_def split: list.splits sum.splits prod.splits if_splits option.splits)

text \<open>
  C21: The file a saving run leaves behind reads back as the records it returned:
  the file system changes only at \<open>all_search_results.json\<close>, whose bytes
  decode as UTF-8 to a JSON text that \<open>json.load\<close> turns back into the same
  records, field for field, when \<open>float()\<close> reads back what
  \<open>float.__repr__\<close> writes for their scores.
\<close>

theorem main_saved_file_reads_back:
  assumes "main E inputs st = (Inr (Saved f rs), st')"
    and "\<forall>r \<in> set rs. fp (float_repr E (academic_score r)) = Some (academic_score r)
                     \<and> float_token (float_repr E (academic_score r))"
  shows "\<exists>b t. files st' = (files st)(''all_search_results.json'' \<mapsto> b)
               \<and> utf8_decode b = Some t \<and> json_load fp t = Some rs"
proof -
  have f: "f = ''all_search_results.json''"
    using assms(1)
    by (auto simp: main_def Let_def split: list.splits if_splits sum.splits prod.splits option.splits)
  have "json_parse (json_dump (float_repr E) rs) = Some (JArray (map (record_json (float_repr E)) rs))"
    using assms(2) by (intro json_parse_dump ballI) simp
  moreover have "decode_results fp (JArray (map (record_json (float_repr E)) rs)) = Some rs"
    using assms(2) by (intro decode_results_dump ballI) simp
  ultimately have "json_load fp (json_dump (float_repr E) rs) = Some rs"
    by (simp add: json_load_def)
  with main_files [OF assms(1)] f show ?thesis
    using utf8_decode_encode_append [of "json_dump (float_repr E) rs" "[]"] by auto
qed

text \<open>
  C34: \<open>main\<close> touches no file but \<open>all_search_results.json\<close>, and that one
  only in a run that returns \<open>Saved\<close>: a blank query, an empty search, every
  exception, and the file name the final message gives are never written.
\<close>

theorem main_writes_only_results_file:
  assumes "main E inputs st = (r, st')"
  shows "(\<forall>n. n \<noteq> ''all_search_results.json'' \<longrightarrow> files st' n = files st n)
         \<and> (files st' \<noteq> files st \<longrightarrow> (\<exists>rs. r = Inr (Saved ''all_search_results.json'' rs)))"
proof -
  have saved: "r = Inr (Saved f rs) \<Longrightarrow> f = ''all_search_results.json''" for f rs
    using assms
    by (auto simp: main_def Let_def split: list.splits if_splits sum.splits prod.splits option.splits)
  show ?thesis
    using main_files [OF assms] saved
    by (auto split: sum.splits main_exit.splits)
qed

end
