(* ===== verification/Program_Start.thy ===== *)
theory Program_Start
  imports Main_Entry
begin

text \<open>
  What runs before \<open>main\<close> (\<open>src/search_data.py\<close>, lines 17, 39--43 and
  285--286). Importing the module loads the classifier (line 17); a failure there
  ends the program before anything else. It then probes for the robots parser
  (lines 39--43): \<open>ImportError\<close> sets \<open>ROBOTS_PARSER_AVAILABLE\<close> to
  \<open>False\<close>, any other exception ends the import. Run as a script, the module
  then calls \<open>main\<close>. The environment's \<open>robots_parser_available\<close> is the
  value the probe sets.
\<close>

definition robots_probe :: "py_exc option \<Rightarrow> py_exc + bool" where
  "robots_probe r =
     (case r of
        None \<Rightarrow> Inr True
      | Some (ImportError m) \<Rightarrow> Inr False
      | Some e \<Rightarrow> Inl e)"

definition run_module :: "'img env \<Rightarrow> string list \<Rightarrow> io_log \<Rightarrow> (py_exc + main_exit) \<times> io_log" where
  "run_module E inputs st =
     (case pipeline_load E of
        Some e \<Rightarrow> (Inl e, st)
      | None \<Rightarrow>
          (case robots_probe (robots_import E) of
             Inl e \<Rightarrow> (Inl e, st)
           | Inr available \<Rightarrow> main (E\<lparr>robots_parser_available := available\<rparr>) inputs st))"

declare robots_probe_def [run_eval] run_module_def [run_eval]

subsection \<open>Start-up\<close>

lemma run_module_load_fails:
  "pipeline_load E = Some e \<Longrightarrow> run_module E inputs st = (Inl e, st)"
  by (simp add: run_module_def)

lemma run_module_probe_raises:
  "pipeline_load E = None \<Longrightarrow> robots_import E = Some e \<Longrightarrow> \<forall>m. e \<noteq> ImportError m \<Longrightarrow>
   run_module E inputs st = (Inl e, st)"
  by (cases e) (simp_all add: run_module_def robots_probe_def)

subsection \<open>The requests of a run without the robots parser\<close>

lemma can_crawl_no_parser:
  "\<not> robots_parser_available E \<Longrightarrow> can_crawl E url st = (True, st)"
  by (simp add: can_crawl_def)

lemma fetch_full_text_no_parser:
  "\<not> robots_parser_available E \<Longrightarrow>
   sent (snd (fetch_full_text E url timeout st)) = sent st @ [fetch_request url timeout]"
  by (simp add: fetch_full_text_eq can_crawl_no_parser fetch_full_text_requests_log)

text \<open>Without the parser, every request of the loop is the page request of a hit.\<close>

lemma process_hits_no_parser:
  assumes "\<not> robots_parser_available E" and "process_hits E L hits st = (r, st')"
  shows "\<exists>us. sent st' = sent st @ map (\<lambda>u. fetch_request u 10) us"
  using assms(2)
proof (induction hits arbitrary: st r st')
  case Nil
  then show ?case by auto
next
  case (Cons h hs)
  let ?u = "dict_get (rh_href h)"
  obtain ft st1 where ft: "fetch_full_text E ?u 10 st = (ft, st1)" by fastforce
  have s1: "sent st1 = sent st @ [fetch_request ?u 10]"
    using fetch_full_text_no_parser [OF assms(1), of ?u 10 st] ft by simp
  show ?case
  proof (cases "ft = []")
    case True
    with Cons.prems ft have "process_hits E L hs (emit [SkippedHit ?u] st1) = (r, st')"
      by (simp add: Let_def)
    from Cons.IH [OF this] obtain us where "sent st' = sent st1 @ map (\<lambda>u. fetch_request u 10) us"
      by auto
    with s1 show ?thesis by (intro exI [of _ "?u # us"]) simp
  next
    case False
    obtain sc st2 where sc: "get_relate_domain_score E ft L st1 = (sc, st2)" by fastforce
    have s2: "sent st2 = sent st1"
      using get_relate_domain_score_log(2) [of E ft L st1] sc by simp
    show ?thesis
    proof (cases sc)
      case (Inl e)
      with Cons.prems ft sc False have "st' = st2" by (simp add: Let_def)
      with s1 s2 show ?thesis by (intro exI [of _ "[?u]"]) simp
    next
      case (Inr s)
      obtain r' st3 where rest: "process_hits E L hs st2 = (r', st3)" by fastforce
      with Cons.prems ft sc False Inr have "st' = st3"
        by (auto simp: Let_def split: sum.splits)
      from Cons.IH [OF rest] obtain us where "sent st3 = sent st2 @ map (\<lambda>u. fetch_request u 10) us"
        by auto
      with s1 s2 \<open>st' = st3\<close> show ?thesis by (intro exI [of _ "?u # us"]) simp
    qed
  qed
qed

lemma main_no_parser:
  assumes "\<not> robots_parser_available E" and "main E inputs st = (r, st')"
  shows "\<exists>us. sent st' = sent st @ map (\<lambda>u. fetch_request u 10) us"
proof -
  have search: "\<exists>us. sent st1 = sent st0 @ map (\<lambda>u. fetch_request u 10) us"
    if "search_duckduckgo E q L n st0 = (x, st1)" for q L n st0 x st1
    using that process_hits_no_parser [OF assms(1)]
    by (cases "ddgs_text E q n") (auto simp: search_duckduckgo_def)
  show ?thesis
    using assms(2)
    by (auto simp: main_def Let_def split: list.splits if_splits sum.splits prod.splits
             dest!: search save_results_Inr intro: exI [of _ "[]"])
qed

subsection \<open>Properties\<close>

text \<open>
  C18: Without the robots parser (its import raises \<open>ImportError\<close>), a whole run of
  the program never asks any site for its \<open>robots.txt\<close>: every request it sends
  is the page request of a search hit, so the crawl policy is never consulted.
\<close>

theorem run_module_no_parser_no_robots:
  assumes "robots_import E = Some (ImportError m)" and "run_module E inputs st = (r, st')"
  shows "\<exists>us. sent st' = sent st @ map (\<lambda>u. fetch_request u 10) us"
proof (cases "pipeline_load E")
  case None
  with assms have "main (E\<lparr>robots_parser_available := False\<rparr>) inputs st = (r, st')"
    by (simp add: run_module_def robots_probe_def)
  then show ?thesis by (rule main_no_parser [rotated]) simp
next
  case (Some e)
  with assms(2) have "st' = st" by (simp add: run_module_def)
  then show ?thesis by (intro exI [of _ "[]"]) simp
qed

end
