(* ===== verification/Selenium_Fetcher.thy ===== *)
theory Selenium_Fetcher
  imports Content_Fetcher
begin

text \<open>
  The dynamic-rendering fetcher (\<open>src/search_data.py\<close>, lines 69--91) and the
  switch between the two fetchers in \<open>fetch_full_text\<close> (lines 207--218).
  \<open>fetch_full_text_selenium\<close> starts a headless Chrome driver (line 77, outside
  the \<open>try\<close>: a failure to start it propagates), loads the page with the page-load
  timeout (a failure there returns the empty string) and extracts the text of
  \<open>page_source\<close> with the same steps as \<open>parse_html\<close>. The driver's own
  requests are not \<open>requests.get\<close> and are not recorded in the log.
  \<open>USE_SELENIUM\<close> is the constant \<open>False\<close> (line 70): the program never takes
  this path, and \<open>fetch_full_text\<close> of \<open>Content_Fetcher\<close> is the switch at
  that value.
\<close>

definition use_selenium :: bool where
  "use_selenium = False"

definition fetch_full_text_selenium :: "'img env \<Rightarrow> url \<Rightarrow> nat \<Rightarrow> py_exc + string" where
  "fetch_full_text_selenium E url timeout =
     (case selenium_start E of
        Some e \<Rightarrow> Inl e
      | None \<Rightarrow>
          (case selenium_page_source E url timeout of
             Inl e \<Rightarrow> Inr []
           | Inr html \<Rightarrow>
               Inr (normalize_ws (get_text ''\<newline>'' (decompose_nodes hidden_tags (soup_parse E html))))))"

text \<open>
  \<open>fetch_full_text\<close> with the switch as a parameter: a raise of the Selenium
  path (the driver not starting) escapes, so the result is a sum.
\<close>

definition fetch_full_text_switch ::
  "bool \<Rightarrow> 'img env \<Rightarrow> url \<Rightarrow> nat \<Rightarrow> io_log \<Rightarrow> (py_exc + string) \<times> io_log" where
  "fetch_full_text_switch selenium E url timeout st =
     (let (allowed, st1) = can_crawl E url st
      in if \<not> allowed then (Inr [], emit [RobotsDisallowed url] st1)
         else if selenium then (fetch_full_text_selenium E url timeout, st1)
         else (let (text, st2) = fetch_full_text_requests E url timeout st1 in (Inr text, st2)))"

declare use_selenium_def [run_eval] fetch_full_text_selenium_def [run_eval]
  fetch_full_text_switch_def [run_eval]

subsection \<open>Properties\<close>

text \<open>With the switch as the program sets it, the switch is \<open>fetch_full_text\<close>.\<close>

lemma fetch_full_text_switch_use_selenium:
  "fetch_full_text_switch use_selenium E url timeout st
     = (Inr (fst (fetch_full_text E url timeout st)), snd (fetch_full_text E url timeout st))"
  by (simp add: fetch_full_text_switch_def use_selenium_def fetch_full_text_def split: prod.splits)

text \<open>
  The Selenium path has no drift in the shape of its output: once the driver has
  started, its text is the HTML extractor's text of the rendered page, or empty
  when the page does not load.
\<close>

lemma fetch_full_text_selenium_parse_html:
  "selenium_start E = None \<Longrightarrow>
   fetch_full_text_selenium E url timeout =
     Inr (case selenium_page_source E url timeout of Inl e \<Rightarrow> [] | Inr html \<Rightarrow> parse_html E html)"
  by (simp add: fetch_full_text_selenium_def parse_html_def split: sum.splits)

lemma fetch_full_text_selenium_stripped:
  "fetch_full_text_selenium E url timeout = Inr t \<Longrightarrow> py_strip t = t"
  by (auto simp: fetch_full_text_selenium_def split: option.splits sum.splits)

text \<open>
  Were the switch on, a driver that fails to start (line 77, before the \<open>try\<close>)
  would raise out of \<open>fetch_full_text\<close> for every allowed URL, and so out of
  the whole search, where every other failure of a fetch is recovered.
\<close>

lemma fetch_full_text_switch_driver_raises:
  "selenium_start E = Some e \<Longrightarrow> fst (can_crawl E url st) \<Longrightarrow>
   fetch_full_text_switch True E url timeout st = (Inl e, snd (can_crawl E url st))"
  by (cases "can_crawl E url st") (simp add: fetch_full_text_switch_def fetch_full_text_selenium_def)

text \<open>
  C29: The two fetchers have no drift in the shape of their output: when Chrome
  renders the same HTML that \<open>requests\<close> is served as an HTML page, turning
  \<open>USE_SELENIUM\<close> on does not change the text \<open>fetch_full_text\<close> returns.
\<close>

theorem selenium_requests_agree:
  assumes "selenium_start E = None" and "selenium_page_source E url timeout = Inr html"
    and "http_get E (length (sent (snd (can_crawl E url st)))) (fetch_request url timeout) = Response resp"
    and "resp_status resp = 200" and "resp_content resp = Inr b"
    and "classify_format (resp_ctype resp) url = HTML" and "resp_text resp = html"
  shows "fst (fetch_full_text_switch True E url timeout st) = fst (fetch_full_text_switch False E url timeout st)"
proof -
  obtain a st1 where cc: "can_crawl E url st = (a, st1)" by fastforce
  have "fst (fetch_full_text_requests E url timeout st1) = parse_html E html"
    using assms cc by (simp add: fetch_full_text_requests_log fetch_outcome_def)
  with assms cc show ?thesis
    by (simp add: fetch_full_text_switch_def fetch_full_text_selenium_def parse_html_def prod.case_eq_if)
qed

end
