(* ===== verification/Spec2Isabelle.thy ===== *)
theory Spec2Isabelle
  imports Search_Loop Pipeline_Spec Program_Start Json_Output Selenium_Fetcher
begin

text \<open>
  \<^bold>\<open>A verification development of \<open>src/search_data.py\<close>.\<close>

  The program searches DuckDuckGo, fetches the full text of every hit that its
  domain's \<open>robots.txt\<close> allows, and scores each non-empty text with a zero-shot
  classifier. Its parts, and the theory that models each:

  \<^item> \<open>Py_Prelude\<close>: the Python builtins the code relies on, on strings of
    Latin-1 characters: \<open>str.isspace\<close> (\<open>py_isspace\<close>, also the class of the regex
    \<open>\s\<close>), \<open>lower\<close>, \<open>strip\<close>, \<open>split()\<close> (\<open>py_split\<close>), \<open>split(" ")\<close>
    (\<open>py_split_on\<close>), \<open>join\<close>, \<open>in\<close>, \<open>endswith\<close>, \<open>list.index\<close> and
    indexing. Its lemmas are the round trips \<open>py_split_join\<close> and
    \<open>py_join_split_on\<close>, the agreement of \<open>in\<close>, \<open>startswith\<close> and
    \<open>endswith\<close> with \<open>sublist\<close>, \<open>prefix\<close> and \<open>suffix\<close>, and the shape of
    \<open>strip\<close>; the collection \<open>py_str\<close> holds the structural facts and
    \<open>run_eval\<close> the equations that evaluate a concrete run by \<open>simp\<close>.
  \<^item> \<open>Normalize\<close>: \<open>re.sub(r"\s+", " ", t).strip()\<close> (lines 108, 130, 144, 158) as
    \<open>collapse_ws\<close> and \<open>normalize_ws\<close>; it equals \<open>" ".join(t.split())\<close> (C15), is
    idempotent and produces the normal form \<open>ws_normal\<close> (C30).
  \<^item> \<open>Format_Classifier\<close>: the dispatch of \<open>fetch_full_text_requests\<close>
    (lines 176--198) as \<open>classify_format\<close> over \<open>fmt\<close>, with the image regex
    of line 188 as \<open>re_image_suffix\<close>. The regex itself is the value
    \<open>image_rx\<close> of the small \<open>re\<close> model of \<open>Py_Regex\<close> (a backtracking
    matcher \<open>rmatch\<close> for \<open>re.search\<close>, proved against the language
    \<open>rlang\<close>), and the suffix test is proved equal to it (C32).
  \<^item> \<open>Environment\<close>: the libraries as the record \<open>env\<close> (the network
    \<open>http_get\<close>, \<open>tldextract\<close>, the robots parser, \<open>pdfplumber\<close>,
    \<open>pdf2image\<close>, \<open>pytesseract\<close>, \<open>PIL\<close>, the HTML parser, the classifier,
    \<open>DDGS\<close>), each an arbitrary function whose raise is an \<open>Inl\<close>; and the
    state \<open>io_log\<close>: the requests sent, the diagnostics printed (one
    constructor of \<open>diag\<close> per \<open>print\<close> of the source), the classifier
    calls, and the files of the working directory (\<open>files\<close>, a map from names
    to bytes). \<open>do_get\<close> is \<open>requests.get\<close>, \<open>emit\<close> is \<open>print\<close>;
    \<open>open_write\<close> says whether \<open>open(name, "w")\<close> raises and
    \<open>float_repr\<close> is \<open>float.__repr__\<close>.
  \<^item> \<open>Text_Extractors\<close>: \<open>parse_pdf_with_pdfplumber\<close> (lines 95--112, with the
    page loop \<open>plumber_pages\<close>), \<open>parse_pdf_with_ocr\<close> (114--135, loop
    \<open>ocr_pages\<close>), \<open>parse_image_with_ocr\<close> (137--148) and \<open>parse_html\<close>
    (150--159, with \<open>decompose_nodes\<close> and \<open>get_text\<close> on the parsed tree).
    Each returns its text and the diagnostics it prints (C9, C10, C22). The HTML
    extractor is proved against \<open>visible_strings\<close>, a statement of what a page
    shows that does not use \<open>decompose\<close>: the strings with no hidden tag
    among their ancestors, at any depth (C11). The OCR fallback is the one
    extractor whose text can leave the normal form, exactly when two or more
    pages give text (C27).
  \<^item> \<open>Crawl_Gate\<close>: \<open>can_crawl\<close> (lines 45--67), fail-open (C7, C18).
  \<^item> \<open>Content_Fetcher\<close>: \<open>fetch_full_text_requests\<close> (161--205) and
    \<open>fetch_full_text\<close> (207--218) in state-passing style; \<open>extract_pdf\<close> is the
    PDF branch with its OCR fallback (C1, C2, C16, C17). The fetched text is
    stripped, so the pipeline's emptiness test and the scorer's blankness test
    agree on it.
  \<^item> \<open>Relevance_Scorer\<close>: \<open>get_relate_domain_score\<close> (lines 20--36) with
    its \<open>ValueError\<close> as an \<open>Inl\<close> (C12--C14, C24).
  \<^item> \<open>Acquisition_Pipeline\<close>: \<open>search_duckduckgo\<close> (220--260), its loop over
    the hits being the recursion \<open>process_hits\<close>; a raise of the scorer or of
    the search ends the call (C4--C6, C19, C25). The search writes no file.
  \<^item> \<open>Pipeline_Spec\<close>: what the loop promises, stated apart from it. On a
    network that answers the same at every moment, \<open>process_hits\<close> computes
    \<open>pipeline_spec\<close>, the specification's contract: the hits with non-empty
    text, in order, each with its score, or the scorer's first exception (C31).
    Its traffic is, hit by hit in search order, the \<open>robots.txt\<close> request
    and at most one page request (\<open>hit_requests\<close>, C23); a denied hit costs
    its \<open>robots.txt\<close> request and two diagnostics and nothing else (C3); a
    label string without a space raises only after requests were sent (C26).
  \<^item> \<open>Search_Loop\<close>: the same loop as the program runs it, a small-step
    relation \<open>loop_step\<close> on configurations holding the pending hits, the list
    \<open>results\<close> and the log, kept as a cross-check of \<open>process_hits\<close>: it is
    deterministic, \<open>process_hits\<close> computes exactly its final configuration,
    and the loop invariant holds in every reachable configuration, by rule
    induction.
  \<^item> \<open>Py_Int\<close>: Python's \<open>int(s)\<close> (\<open>py_int\<close>: whitespace, one sign, digit
    groups joined by single underscores), the reading of the count at line 270.
    A decimal printer \<open>py_str_int\<close>, not code of the program, describes the
    numerals \<open>int\<close> accepts.
  \<^item> \<open>Main_Entry\<close>: \<open>main\<close> (lines 262--283) over the list of input lines,
    each \<open>input\<close> printing its prompt, with \<open>EOFError\<close> when they run out
    (C35--C37). Saving (\<open>save_results\<close>, lines 280--281) raises when
    \<open>open\<close> does, after the whole search but before any write and before the
    final message, so every result is lost (C20); otherwise it replaces the file's
    bytes, and no other file is ever touched (C34). The file a
    saving run leaves reads back, through UTF-8 and \<open>json.load\<close>, as the
    records it returned (C21), a property of \<open>main\<close>, \<open>Utf8\<close> and
    \<open>Json_Output\<close> together.
  \<^item> \<open>Utf8\<close>: the \<open>encoding="utf-8"\<close> of line 280, as the encoder
    \<open>utf8_encode\<close> on \<open>8 word\<close> bytes, with the lead byte
    \<open>0xC0 OR (c >> 6)\<close> and the continuation byte \<open>0x80 OR (c AND 0x3F)\<close>
    written bitwise, and a strict decoder \<open>utf8_decode\<close>. The bitwise encoder
    agrees with the arithmetic table of the standard
    (\<open>utf8_encode_char_unat\<close>) and decodes back, on the code points below 256
    that the model's characters are.
  \<^item> \<open>Program_Start\<close>: the module's start (lines 17, 39--43, 285--286) as
    \<open>run_module\<close>: loading the classifier, probing for the robots parser (which
    sets \<open>robots_parser_available\<close>) and calling \<open>main\<close>. Without the parser a
    whole run sends no \<open>robots.txt\<close> request at all (C18), a property of the
    gate, the fetcher, the loop, the search and \<open>main\<close> together.
  \<^item> \<open>Json_Output\<close>: the artefact of line 281, \<open>json.dump\<close> with
    \<open>ensure_ascii=False, indent=4\<close>: the string escaping of the \<open>json\<close>
    encoder (\<open>json_escape\<close>), the indented layout (\<open>json_enc\<close>) and the
    records as dicts (\<open>json_dump\<close>), with \<open>float.__repr__\<close> a parameter; and
    a reader (\<open>json_load\<close>) with the fuel \<open>length + 1\<close>, which the lemma
    \<open>jcost_le_length\<close> shows is enough. The file has the record type of the
    specification (C28), reads back as the same records (C38), holds no raw
    control character (C8), and non-ASCII text is written unchanged (C33).
  \<^item> \<open>Selenium_Fetcher\<close>: the dynamic-rendering fetcher of lines 69--91
    (\<open>fetch_full_text_selenium\<close>, the Chrome driver being two fields of
    \<open>env\<close>) and \<open>fetch_full_text\<close> with \<open>USE_SELENIUM\<close> as a parameter
    (\<open>fetch_full_text_switch\<close>); at the program's value \<open>False\<close> it is
    \<open>fetch_full_text\<close>. On the same HTML the two fetchers return the same
    text (C29).

  This theory holds the two scenarios of the specification, evaluated on
  concrete environments, and a closed instance of every property that has
  hypotheses.

  Every loop of the program runs over a finite list (pages, images, tree nodes,
  search hits), so every definition of the program is a terminating \<open>fun\<close>,
  \<open>primrec\<close> or \<open>function\<close> with a measure, and every operation is total.
  The only fuel is that of the JSON reader, which is not code of the program:
  \<open>json_load\<close> gives it the length of the text plus one, enough for any value
  the encoder writes. Integers are \<open>int\<close> (status codes) or \<open>real\<close> (scores):
  nothing in the program depends on a machine width. The bytes of the result
  file are \<open>8 word\<close> values, and the encoder's bit operations are proved
  within that width.

  Not modelled: the digits \<open>float.__repr__\<close> writes (a parameter of the dump,
  read back by \<open>float()\<close> by hypothesis: the scores are reals, not doubles); the
  requests Chrome makes for the Selenium path, which are not \<open>requests.get\<close>
  and are not logged; the \<open>tqdm\<close> progress bar (line 240), which only writes to
  the terminal; a write that fails after \<open>open\<close> succeeded (a full disk
  part-way through \<open>json.dump\<close>), which would leave a truncated file; and the
  internals of the libraries, which are the oracles of \<open>env\<close>: what a
  library call returns or raises is any value of its field, the classifier load,
  the parser import and \<open>open\<close> included. Three library calls are total in
  the model though the library can raise: \<open>BeautifulSoup\<close> (line 154; a raise
  would be caught at line 203), \<open>tldextract\<close> (line 52, outside the
  \<open>try\<close>: a raise would end the search) and the iteration of the
  \<open>DDGS\<close> results, which the model receives whole. A hit dict whose key is
  present with the value \<open>None\<close> is read as a missing key. Characters are
  those of Latin-1, so \<open>py_isspace\<close> and \<open>lower\<close> are exact on them, and
  the Unicode spaces beyond, the Chinese text the OCR returns and its
  three-byte UTF-8 sequences are out of scope.
\<close>

section \<open>Scenarios\<close>

text \<open>
  The hits of the specification's first end-to-end scenario: a PDF at
  \<open>example.com\<close> and a page on a domain whose \<open>robots.txt\<close> denies every agent.
\<close>

definition scenario_hits :: "raw_hit list" where
  "scenario_hits =
     [\<lparr>rh_title = Some ''A paper'', rh_href = Some ''http://example.com/a.pdf'', rh_body = Some ''pdf''\<rparr>,
      \<lparr>rh_title = Some ''Blocked'', rh_href = Some ''http://blocked.example/x'', rh_body = None\<rparr>]"

definition pdf_response :: response where
  "pdf_response =
     \<lparr>resp_status = 200, resp_content_type = Some ''application/pdf'',
      resp_content = Inr [37, 80, 68, 70], resp_text = ''%PDF''\<rparr>"

definition deny_all_robots :: string where
  "deny_all_robots = ''User-agent: *\<newline>Disallow: /''"

text \<open>\<open>float.__repr__\<close> and \<open>float()\<close> on the scores of the scenario.\<close>

definition scenario_repr :: "real \<Rightarrow> string" where
  "scenario_repr x = (if x = 0.75 then ''0.75'' else ''0.0'')"

definition scenario_float :: "string \<Rightarrow> real option" where
  "scenario_float t = (if t = ''0.75'' then Some 0.75 else if t = ''0.0'' then Some 0 else None)"

text \<open>
  The world of that scenario: \<open>example.com\<close> serves no \<open>robots.txt\<close> (the request
  raises) and a PDF whose text layer reads \<open>Hello World\<close>; \<open>blocked.example\<close>
  serves a \<open>robots.txt\<close> that the parser reads as denying; the classifier gives
  the first label 0.75; the result file can be written.
\<close>

definition scenario_env :: "nat env" where
  "scenario_env = null_env
     \<lparr>http_get := (\<lambda>n r.
         if req_url r = ''http://example.com/a.pdf'' then Response pdf_response
         else if req_url r = ''http://blocked.example/robots.txt''
         then Response \<lparr>resp_status = 200, resp_content_type = Some ''text/plain'',
                        resp_content = Inr [], resp_text = deny_all_robots\<rparr>
         else Raised RequestException),
      robots_parser_available := True,
      registered_domain := (\<lambda>u. if u = ''http://example.com/a.pdf'' then ''example.com''
                                else if u = ''http://blocked.example/x'' then ''blocked.example''
                                else []),
      robots_is_allowed := (\<lambda>robots agent u. Inr (robots \<noteq> deny_all_robots)),
      pdf_pages := (\<lambda>b. Inr [Inr (Some ''Hello World'')]),
      classifier := (\<lambda>t ls. Inr (ls, [0.75, 0.25])),
      ddgs_text := (\<lambda>q n. Inr scenario_hits),
      float_repr := scenario_repr\<rparr>"

definition scenario_record :: result_record where
  "scenario_record =
     \<lparr>title = ''A paper'', link = ''http://example.com/a.pdf'', snippet = ''pdf'',
      full_text = ''Hello World'', academic_score = 0.75\<rparr>"

text \<open>
  A scanned PDF: no text layer, two rasterised pages whose OCR gives
  \<open>" Scanned \n page "\<close> and \<open>"two"\<close>; and the same document with pages that
  OCR reads as whitespace only.
\<close>

definition scan_hits :: "raw_hit list" where
  "scan_hits = [\<lparr>rh_title = Some ''Scan'', rh_href = Some ''http://example.com/a.pdf'', rh_body = None\<rparr>]"

definition scan_env :: "nat env" where
  "scan_env = scenario_env
     \<lparr>pdf_pages := (\<lambda>b. Inr [Inr None, Inr (Some [])]),
      pdf_to_images := (\<lambda>b dpi. Inr [1, 2]),
      tesseract := (\<lambda>img lang. if img = 1 then Inr '' Scanned \<newline> page '' else Inr ''two''),
      ddgs_text := (\<lambda>q n. Inr scan_hits)\<rparr>"

definition blank_scan_env :: "nat env" where
  "blank_scan_env = scan_env\<lparr>tesseract := (\<lambda>img lang. Inr '' \<newline> '')\<rparr>"

text \<open>A page whose script holds text and whose body holds \<open>Hello  World\<close>.\<close>

definition html_env :: "nat env" where
  "html_env = null_env
     \<lparr>soup_parse := (\<lambda>h. [Tag ''script'' [NavStr ''alert(1)''],
                          Tag ''body'' [NavStr '' Hello '', SpecialStr ''a comment'', NavStr ''World'']])\<rparr>"

text \<open>
  The same page for both fetchers: Chrome starts and renders it, and the server
  sends it as \<open>text/html\<close>.
\<close>

definition html_page :: response where
  "html_page =
     \<lparr>resp_status = 200, resp_content_type = Some ''Text/HTML'', resp_content = Inr [],
      resp_text = ''<html>''\<rparr>"

definition selenium_env :: "nat env" where
  "selenium_env = html_env
     \<lparr>selenium_start := None, selenium_page_source := (\<lambda>u t. Inr ''<html>''),
      http_get := (\<lambda>n r. Response html_page)\<rparr>"

declare scenario_hits_def [run_eval] pdf_response_def [run_eval] deny_all_robots_def [run_eval]
  scenario_env_def [run_eval] scenario_record_def [run_eval] scan_hits_def [run_eval]
  scan_env_def [run_eval] blank_scan_env_def [run_eval] html_env_def [run_eval]
  html_page_def [run_eval] selenium_env_def [run_eval]

lemma scenario_process_hits:
  "fst (process_hits scenario_env ''Academic Other'' scenario_hits empty_log) = Inr [scenario_record]"
  by (simp add: run_eval)

lemma scenario_main:
  "main scenario_env [''query'', ''Academic Other'', []] empty_log
     = (Inr (Saved ''all_search_results.json'' [scenario_record]),
        snd (main scenario_env [''query'', ''Academic Other'', []] empty_log))"
proof -
  have "fst (main scenario_env [''query'', ''Academic Other'', []] empty_log)
      = Inr (Saved ''all_search_results.json'' [scenario_record])"
    by (simp add: run_eval)
  then show ?thesis by (metis prod.collapse)
qed

lemma scenario_float_repr:
  "\<forall>r \<in> set [scenario_record]. scenario_float (scenario_repr (academic_score r)) = Some (academic_score r)
     \<and> float_token (scenario_repr (academic_score r))"
  by (simp add: scenario_record_def scenario_repr_def scenario_float_def float_token_def num_char_def)

lemma scenario_search:
  "fst (search_duckduckgo scenario_env ''query'' ''Academic Other'' 5 empty_log) = Inr [scenario_record]"
  by (simp add: run_eval)

section \<open>The scenarios of the specification\<close>

text \<open>
  The specification's first scenario: of a PDF whose text layer reads
  \<open>Hello World\<close> and a page on a domain that denies all agents, the pipeline
  returns exactly one record, for the PDF, with the text \<open>Hello World\<close> and the
  score the classifier gives the first label; the denied page is never fetched and is reported twice (denied,
  then skipped).
\<close>

theorem spec_scenario_pdf_and_blocked:
  "fst (search_duckduckgo scenario_env ''query'' ''Academic Other'' 5 empty_log) =
     Inr [\<lparr>title = ''A paper'', link = ''http://example.com/a.pdf'', snippet = ''pdf'',
           full_text = ''Hello World'', academic_score = 0.75\<rparr>]
   \<and> printed (snd (search_duckduckgo scenario_env ''query'' ''Academic Other'' 5 empty_log)) =
       [RobotsDisallowed ''http://blocked.example/x'', SkippedHit ''http://blocked.example/x'']
   \<and> map req_url (sent (snd (search_duckduckgo scenario_env ''query'' ''Academic Other'' 5 empty_log))) =
       [''http://example.com/robots.txt'', ''http://example.com/a.pdf'', ''http://blocked.example/robots.txt'']"
  by (simp add: run_eval)

text \<open>
  The specification's second scenario: a PDF with no text layer falls through
  to OCR, and when OCR yields nothing either the hit is dropped: the run succeeds
  with no record, having reported the empty text layer and the skip.
\<close>

theorem spec_scenario_scanned_pdf_dropped:
  "fst (search_duckduckgo blank_scan_env ''query'' ''Academic Other'' 5 empty_log) = Inr []
   \<and> printed (snd (search_duckduckgo blank_scan_env ''query'' ''Academic Other'' 5 empty_log)) =
       [PlumberNoText, SkippedHit ''http://example.com/a.pdf'']"
  by (simp add: run_eval)

section \<open>Witnesses\<close>

theorem fetch_pdf_fallback_witness:
  "fst (fetch_full_text_requests scan_env ''http://example.com/a.pdf'' 10 empty_log) = ''Scanned page\<newline>two''"
  using Content_Fetcher.fetch_pdf_fallback
      [of scan_env empty_log "''http://example.com/a.pdf''" 10 pdf_response "[37, 80, 68, 70]"]
  by (simp add: run_eval resp_ctype_def)

theorem fetch_failures_recovered_witness:
  "fst (fetch_full_text_requests (null_env :: nat env) ''http://example.com/'' 10 empty_log) = []
   \<and> printed (snd (fetch_full_text_requests (null_env :: nat env) ''http://example.com/'' 10 empty_log))
       = [ConnectionFailed ''http://example.com/'']"
  using Content_Fetcher.fetch_failures_recovered
      [of "null_env :: nat env" empty_log "''http://example.com/''" 10 "Raised RequestException" RequestException]
  by (simp add: run_eval)
theorem decompose_hidden_tags_witness:
  "decompose_nodes hidden_tags [Tag ''p'' [NavStr ''hi'']] = [Tag ''p'' [NavStr ''hi'']]
   \<and> set (tag_names_nodes (decompose_nodes hidden_tags [Tag ''body'' [Tag ''script'' [NavStr ''x'']]]))
       \<inter> set hidden_tags = {}"
  using Text_Extractors.decompose_hidden_tags [of "[Tag ''p'' [NavStr ''hi'']]"]
    Text_Extractors.decompose_hidden_tags [of "[Tag ''body'' [Tag ''script'' [NavStr ''x'']]]"]
  by (simp add: run_eval)

theorem fetch_full_text_gate_first_witness:
  "fetch_full_text scenario_env ''http://blocked.example/x'' 10 empty_log
     = ([], emit [RobotsDisallowed ''http://blocked.example/x'']
              (snd (can_crawl scenario_env ''http://blocked.example/x'' empty_log)))"
proof -
  have deny: "\<not> fst (can_crawl scenario_env ''http://blocked.example/x'' empty_log)"
    by (simp add: run_eval)
  from conjunct2 [OF Content_Fetcher.fetch_full_text_gate_first
      [of scenario_env "''http://blocked.example/x''" 10 empty_log], rule_format, OF deny]
  show ?thesis .
qed

theorem score_blank_text_witness:
  "get_relate_domain_score scenario_env '' \<newline> '' ''Academic'' empty_log = (Inr 0, empty_log)"
proof -
  have "py_strip '' \<newline> '' = []" by (simp add: run_eval)
  from Relevance_Scorer.score_blank_text [OF this] show ?thesis .
qed

theorem score_too_few_labels_witness:
  "get_relate_domain_score scenario_env ''Hello'' ''Academic'' empty_log = (Inl labels_error, empty_log)"
proof -
  have "py_strip ''Hello'' \<noteq> []" and "CHR '' '' \<notin> set ''Academic''"
    by (simp_all add: run_eval)
  from Relevance_Scorer.score_too_few_labels [OF this] show ?thesis .
qed

theorem score_in_unit_interval_witness:
  "\<exists>s. get_relate_domain_score scenario_env ''Hello World'' ''Academic Other'' empty_log
         = (Inr s, empty_log\<lparr>scored := scored empty_log @ [(''Hello World'', [''Academic'', ''Other''])]\<rparr>)
       \<and> 0 \<le> s \<and> s \<le> 1"
proof -
  have h: "py_strip ''Hello World'' \<noteq> []"
    "py_split_on (CHR '' '') ''Academic Other'' = ''Academic'' # ''Other'' # []"
    "classifier scenario_env ''Hello World'' [''Academic'', ''Other'']
       = Inr ([''Academic'', ''Other''], [0.75, 0.25])"
    "''Academic'' \<in> set [''Academic'', ''Other'']"
    "length [''Academic'', ''Other''] = length [0.75, 0.25 :: real]"
    "list_all (\<lambda>s. 0 \<le> s \<and> s \<le> 1) [0.75, 0.25 :: real]"
    by (simp_all add: run_eval)
  from Relevance_Scorer.score_in_unit_interval [OF h, of empty_log] show ?thesis
    by blast
qed

theorem score_uses_first_two_fields_witness:
  "scored (snd (get_relate_domain_score scenario_env ''Hello'' ''Academic Paper Non-Academic'' empty_log))
     = scored empty_log @ [(''Hello'', [''Academic'', ''Paper''])]"
proof -
  have "py_strip ''Hello'' \<noteq> []"
    and "py_split_on (CHR '' '') ''Academic Paper Non-Academic'' = ''Academic'' # ''Paper'' # [''Non-Academic'']"
    by (simp_all add: run_eval)
  from Relevance_Scorer.score_uses_first_two_fields [OF this] show ?thesis .
qed

lemma scenario_search_pair:
  "search_duckduckgo scenario_env ''query'' ''Academic Other'' 5 empty_log
     = (Inr [scenario_record], snd (search_duckduckgo scenario_env ''query'' ''Academic Other'' 5 empty_log))"
  using scenario_search by (metis prod.collapse)

lemma scenario_process_hits_pair:
  "process_hits scenario_env ''Academic Other'' scenario_hits empty_log
     = (Inr [scenario_record], snd (process_hits scenario_env ''Academic Other'' scenario_hits empty_log))"
  using scenario_process_hits by (metis prod.collapse)

theorem search_duckduckgo_order_witness:
  "\<exists>hits. ddgs_text scenario_env ''query'' 5 = Inr hits
     \<and> subseq (map link [scenario_record]) (map (dict_get \<circ> rh_href) hits)
     \<and> length [scenario_record] \<le> length hits"
  by (rule Acquisition_Pipeline.search_duckduckgo_order [OF scenario_search_pair])

theorem process_hits_records_nonempty_witness:
  "list_all (\<lambda>rec. full_text rec \<noteq> [] \<and> py_strip (full_text rec) = full_text rec) [scenario_record]"
  by (rule Acquisition_Pipeline.process_hits_records_nonempty [OF scenario_process_hits_pair])

theorem process_hits_one_score_per_record_witness:
  "length (scored (snd (process_hits scenario_env ''Academic Other'' scenario_hits empty_log)))
     = length (scored empty_log) + length [scenario_record]"
  by (rule Acquisition_Pipeline.process_hits_one_score_per_record [OF scenario_process_hits_pair])

theorem process_hits_accounts_every_hit_witness:
  "\<exists>ds. printed (snd (process_hits scenario_env ''Academic Other'' scenario_hits empty_log)) = printed empty_log @ ds
       \<and> length [scenario_record] + length (filter is_skip ds) = length scenario_hits"
  by (rule Acquisition_Pipeline.process_hits_accounts_every_hit [OF scenario_process_hits_pair])

theorem process_hits_bad_labels_witness:
  "fst (process_hits (scenario_env\<lparr>http_get := (\<lambda>n r. Raised RequestException)\<rparr>) ''Academic'' scenario_hits empty_log) = Inr []"
proof -
  let ?E = "scenario_env\<lparr>http_get := (\<lambda>n r. Raised RequestException)\<rparr>"
  have run: "fst (process_hits ?E ''Academic'' scenario_hits empty_log) = Inr []"
    by (simp add: run_eval)
  then have pair: "process_hits ?E ''Academic'' scenario_hits empty_log
      = (Inr [], snd (process_hits ?E ''Academic'' scenario_hits empty_log))"
    by (metis prod.collapse)
  have "CHR '' '' \<notin> set ''Academic''" by simp
  from Acquisition_Pipeline.process_hits_bad_labels [OF this pair] run show ?thesis
    by simp
qed

theorem main_blank_query_witness:
  "main scenario_env [''  ''] empty_log = (Inr EmptyQuery, emit [PromptQuery, EmptyQueryMsg] empty_log)"
proof -
  have "py_strip ''  '' = []" by (simp add: run_eval)
  from Main_Entry.main_blank_query [OF this] show ?thesis .
qed

theorem main_blank_count_raises_witness:
  "main scenario_env [''query'', ''Academic Other'', '' ''] empty_log
     = (Inl int_error, emit [PromptQuery, PromptLabels, PromptCount] empty_log)"
proof -
  have "py_strip ''query'' \<noteq> []" "'' '' \<noteq> []" "py_strip '' '' = []" by (simp_all add: run_eval)
  from Main_Entry.main_blank_count_raises [OF this] show ?thesis .
qed

theorem main_saved_name_differs_witness:
  "\<exists>ds g. printed (snd (main scenario_env [''query'', ''Academic Other'', []] empty_log))
            = ds @ [SavedMsg 1 g] \<and> g \<noteq> ''all_search_results.json''"
  using Main_Entry.main_saved_name_differs [OF scenario_main] by simp

theorem main_saved_file_reads_back_witness:
  "\<exists>b t. files (snd (main scenario_env [''query'', ''Academic Other'', []] empty_log))
            = [''all_search_results.json'' \<mapsto> b]
        \<and> utf8_decode b = Some t \<and> json_load scenario_float t = Some [scenario_record]"
proof -
  have "\<forall>r \<in> set [scenario_record]. scenario_float (float_repr scenario_env (academic_score r)) = Some (academic_score r)
          \<and> float_token (float_repr scenario_env (academic_score r))"
    using scenario_float_repr by (simp add: scenario_env_def)
  from Main_Entry.main_saved_file_reads_back [OF scenario_main this] show ?thesis
    by (simp add: empty_log_def)
qed

theorem json_load_dump_witness:
  "json_load scenario_float (json_dump scenario_repr [scenario_record]) = Some [scenario_record]"
  by (rule Json_Output.json_load_dump [OF scenario_float_repr])

theorem json_dump_schema_witness:
  "\<exists>vs. json_parse (json_dump scenario_repr [scenario_record]) = Some (JArray vs)
        \<and> length vs = 1 \<and> list_all (has_schema record_schema) vs"
proof -
  have "\<forall>r \<in> set [scenario_record]. float_token (scenario_repr (academic_score r))"
    by (simp add: scenario_record_def scenario_repr_def float_token_def num_char_def)
  from Json_Output.json_dump_schema [OF this] show ?thesis by simp
qed

theorem run_module_no_parser_no_robots_witness:
  "\<exists>us. sent (snd (run_module (scenario_env\<lparr>robots_import := Some (ImportError ''robotexclusionrulesparser'')\<rparr>)
                   [''query'', ''Academic Other'', []] empty_log))
        = sent empty_log @ map (\<lambda>u. fetch_request u 10) us"
proof -
  let ?E = "scenario_env\<lparr>robots_import := Some (ImportError ''robotexclusionrulesparser'')\<rparr>"
  have "robots_import ?E = Some (ImportError ''robotexclusionrulesparser'')" by simp
  moreover have "run_module ?E [''query'', ''Academic Other'', []] empty_log
      = (fst (run_module ?E [''query'', ''Academic Other'', []] empty_log),
         snd (run_module ?E [''query'', ''Academic Other'', []] empty_log))" by simp
  ultimately show ?thesis by (rule Program_Start.run_module_no_parser_no_robots)
qed

theorem ws_normal_normalize_ws_witness:
  "ws_normal (normalize_ws '' Hello \<newline>\<newline> World '')"
  by (rule Normalize.ws_normal_normalize_ws)

theorem process_hits_denied_hit_witness:
  "fst (process_hits scenario_env ''Academic Other''
          [\<lparr>rh_title = Some ''Blocked'', rh_href = Some ''http://blocked.example/x'', rh_body = None\<rparr>] empty_log)
     = Inr []
   \<and> map req_url (sent (snd (can_crawl scenario_env ''http://blocked.example/x'' empty_log)))
     = [''http://blocked.example/robots.txt'']"
proof -
  let ?h = "\<lparr>rh_title = Some ''Blocked'', rh_href = Some ''http://blocked.example/x'', rh_body = None\<rparr>"
  have deny: "\<not> fst (can_crawl scenario_env (dict_get (rh_href ?h)) empty_log)"
    by (simp add: run_eval)
  from Pipeline_Spec.process_hits_denied_hit [OF deny, of "''Academic Other''" "[]"] show ?thesis
    by (simp add: run_eval)
qed



theorem process_hits_requests_witness:
  "\<exists>bs. length bs \<le> 2
        \<and> sent (snd (process_hits scenario_env ''Academic Other'' scenario_hits empty_log))
            = concat (map2 (\<lambda>h b. hit_requests scenario_env (dict_get (rh_href h)) b) scenario_hits bs)"
proof -
  have "process_hits scenario_env ''Academic Other'' scenario_hits empty_log
      = (fst (process_hits scenario_env ''Academic Other'' scenario_hits empty_log),
         snd (process_hits scenario_env ''Academic Other'' scenario_hits empty_log))" by simp
  from Pipeline_Spec.process_hits_requests [OF this] obtain bs where
    "length bs \<le> length scenario_hits"
    "sent (snd (process_hits scenario_env ''Academic Other'' scenario_hits empty_log))
       = sent empty_log @ concat (map2 (\<lambda>h b. hit_requests scenario_env (dict_get (rh_href h)) b) scenario_hits bs)"
    by blast
  moreover have "length scenario_hits = 2" "sent empty_log = []"
    by (simp_all add: scenario_hits_def empty_log_def)
  ultimately show ?thesis by auto
qed

theorem process_hits_labels_error_after_fetch_witness:
  "0 < length (sent (snd (process_hits scenario_env ''Academic'' scenario_hits empty_log)))"
proof -
  have "CHR '' '' \<notin> set ''Academic''" by simp
  moreover have "process_hits scenario_env ''Academic'' scenario_hits empty_log
      = (Inl labels_error, snd (process_hits scenario_env ''Academic'' scenario_hits empty_log))"
  proof -
    have "fst (process_hits scenario_env ''Academic'' scenario_hits empty_log) = Inl labels_error"
      by (simp add: run_eval)
    then show ?thesis by (metis prod.collapse)
  qed
  ultimately show ?thesis
    using Pipeline_Spec.process_hits_labels_error_after_fetch by (fastforce simp: empty_log_def)
qed

theorem parse_pdf_with_ocr_normal_iff_witness:
  "\<not> ws_normal (fst (parse_pdf_with_ocr scan_env [37, 80, 68, 70]))"
proof -
  have "pdf_to_images scan_env [37, 80, 68, 70] 300 = Inr [1, 2]" by (simp add: run_eval)
  moreover have "length (fst (ocr_pages scan_env [1, 2])) = 2" by (simp add: run_eval)
  ultimately show ?thesis
    using Text_Extractors.parse_pdf_with_ocr_normal_iff [of scan_env "[37, 80, 68, 70]" "[1, 2]"] by simp
qed

theorem selenium_requests_agree_witness:
  "fst (fetch_full_text_switch True selenium_env ''http://example.com/'' 10 empty_log)
     = fst (fetch_full_text_switch False selenium_env ''http://example.com/'' 10 empty_log)"
proof (rule Selenium_Fetcher.selenium_requests_agree)
  show "selenium_start selenium_env = None" by (simp add: run_eval)
  show "selenium_page_source selenium_env ''http://example.com/'' 10 = Inr ''<html>''" by (simp add: run_eval)
  show "http_get selenium_env (length (sent (snd (can_crawl selenium_env ''http://example.com/'' empty_log))))
          (fetch_request ''http://example.com/'' 10) = Response html_page" by (simp add: run_eval)
  show "resp_status html_page = 200" "resp_content html_page = Inr []" "resp_text html_page = ''<html>''"
    by (simp_all add: run_eval)
  show "classify_format (resp_ctype html_page) ''http://example.com/'' = HTML"
    by (simp add: run_eval resp_ctype_def)
qed

theorem process_hits_refines_spec_witness:
  "fst (process_hits scenario_env ''Academic Other'' scenario_hits empty_log)
     = pipeline_spec scenario_env ''Academic Other'' scenario_hits"
proof -
  have "\<forall>n. http_get scenario_env n = http_get scenario_env 0" by (simp add: scenario_env_def)
  from Pipeline_Spec.process_hits_refines_spec [OF this] show ?thesis .
qed

theorem main_writes_only_results_file_witness:
  "files (snd (main scenario_env [''query'', ''Academic Other'', []] empty_log)) ''search_results.json'' = None"
proof -
  have "main scenario_env [''query'', ''Academic Other'', []] empty_log
      = (fst (main scenario_env [''query'', ''Academic Other'', []] empty_log),
         snd (main scenario_env [''query'', ''Academic Other'', []] empty_log))" by simp
  from Main_Entry.main_writes_only_results_file [OF this] show ?thesis
    by (simp add: empty_log_def)
qed

end
